(* ===== verification/Go_Prelude.thy ===== *)
theory Go_Prelude
  imports Main "HOL-Library.AList" "HOL-Library.Char_ord" "HOL-Library.List_Lexorder"
    "HOL-Library.Multiset" "HOL-Library.Word"
begin

unbundle bit_operations_syntax

text \<open>
  The part of the Go language and of its standard library that the modelled sources use:
  maps, strings, formatted numbers, the stable sort and CRC-32.

  A Go \<open>map[K]V\<close> is an association list with distinct keys (\<open>gomap\<close>). \<open>m[k] = v\<close> is
  \<^const>\<open>AList.update\<close>, \<open>delete(m, k)\<close> is \<^const>\<open>AList.delete\<close>, a lookup is \<^const>\<open>map_of\<close>
  and \<open>range\<close> visits the list in its order. Go leaves the order of \<open>range\<close> over a map open: where
  the result depends on it, the order is an argument of the model (\<open>go_range\<close>), and elsewhere the
  statements are about sets, multisets or lookups, or hold for every association list.
  Strings are byte lists, as Go strings are.
\<close>

section \<open>Collections of facts\<close>

named_theorems gomap_simps \<open>lookups and key sets after a map operation\<close>
named_theorems gostring_simps \<open>splitting, joining and trimming of strings\<close>

section \<open>Maps\<close>

type_synonym ('k, 'v) gomap = "('k \<times> 'v) list"

definition gomap_ok :: "('k, 'v) gomap \<Rightarrow> bool" where
  "gomap_ok m \<longleftrightarrow> distinct (map fst m)"

abbreviation keys :: "('k, 'v) gomap \<Rightarrow> 'k set" where
  "keys m \<equiv> fst ` set m"

definition has_key :: "('k, 'v) gomap \<Rightarrow> 'k \<Rightarrow> bool" where
  "has_key m k \<longleftrightarrow> map_of m k \<noteq> None"

text \<open>A lookup in a \<open>map[K]string\<close> gives the zero value for a missing key.\<close>

definition get_string :: "('k, string) gomap \<Rightarrow> 'k \<Rightarrow> string" where
  "get_string m k = (case map_of m k of None \<Rightarrow> '''' | Some v \<Rightarrow> v)"

text \<open>\<open>for k, v := range b { a[k] = v }\<close>.\<close>

fun put_all :: "('k, 'v) gomap \<Rightarrow> ('k, 'v) gomap \<Rightarrow> ('k, 'v) gomap" where
  "put_all a [] = a"
| "put_all a ((k, v) # b) = put_all (AList.update k v a) b"

text \<open>\<open>range m\<close> visits every entry once, in an order that Go leaves open: \<open>ord\<close> chooses one, and a choice
  that is no permutation of the map counts as the order of the list.\<close>

definition go_range :: "('a list \<Rightarrow> 'a list) \<Rightarrow> 'a list \<Rightarrow> 'a list" where
  "go_range ord m = (if mset (ord m) = mset m then ord m else m)"

lemma mset_go_range [simp]: "mset (go_range ord m) = mset m"
  by (simp add: go_range_def)

lemma set_go_range [simp]: "set (go_range ord m) = set m"
  using mset_eq_setD [OF mset_go_range] .

lemma length_go_range [simp]: "length (go_range ord m) = length m"
  using mset_eq_length [OF mset_go_range] .

lemma go_range_Nil_iff [simp]: "go_range ord m = [] \<longleftrightarrow> m = []"
  using length_go_range [of ord m] by (metis length_0_conv)

lemma go_range_single [simp]: "go_range ord [x] = [x]"
  by (simp add: go_range_def)

lemma gomap_ok_mset: "mset m = mset m' \<Longrightarrow> gomap_ok m \<longleftrightarrow> gomap_ok m'"
  unfolding gomap_ok_def by (metis mset_map mset_eq_imp_distinct_iff)

lemma gomap_ok_go_range [simp]: "gomap_ok (go_range ord m) \<longleftrightarrow> gomap_ok m"
  by (rule gomap_ok_mset) simp

lemma go_range_pair: "go_range ord [x, y] = [x, y] \<or> go_range ord [x, y] = [y, x]"
proof -
  have "\<exists>a b. l = [a, b]" if "length l = 2" for l :: "'a list"
    using that by (auto simp: length_Suc_conv numeral_2_eq_2)
  from this [of "go_range ord [x, y]"] obtain a b where ab: "go_range ord [x, y] = [a, b]"
    by auto
  have "mset [a, b] = mset [x, y]"
    unfolding ab [symmetric] by (rule mset_go_range)
  then show ?thesis
    by (auto simp: ab add_eq_conv_ex)
qed

lemma gomap_ok_Nil [simp]: "gomap_ok []"
  by (simp add: gomap_ok_def)

lemma gomap_ok_update [simp, intro]: "gomap_ok m \<Longrightarrow> gomap_ok (AList.update k v m)"
  by (simp add: gomap_ok_def distinct_update)

lemma gomap_ok_delete [simp, intro]: "gomap_ok m \<Longrightarrow> gomap_ok (AList.delete k m)"
  by (simp add: gomap_ok_def distinct_delete)

lemma keys_update [gomap_simps]: "keys (AList.update k v m) = insert k (keys m)"
  by (simp add: dom_update)

lemma keys_delete [gomap_simps]: "keys (AList.delete k m) = keys m - {k}"
  by (auto simp: delete_keys AList.delete_eq)

lemma lookup_update [gomap_simps]:
  "map_of (AList.update k v m) k' = (if k' = k then Some v else map_of m k')"
  by (simp add: update_conv')

lemma lookup_delete [gomap_simps]:
  "map_of (AList.delete k m) k' = (if k' = k then None else map_of m k')"
  by (simp add: delete_conv')

lemma has_key_iff: "has_key m k \<longleftrightarrow> k \<in> keys m"
  by (simp add: has_key_def map_of_eq_None_iff)

lemma lookup_keys: "map_of m k = Some v \<Longrightarrow> k \<in> keys m"
  by (force dest: map_of_SomeD)

lemma keys_lookup: "k \<in> keys m \<Longrightarrow> \<exists>v. map_of m k = Some v"
  by (metis map_of_eq_None_iff option.exhaust)

lemma entry_lookup: "gomap_ok m \<Longrightarrow> (k, v) \<in> set m \<longleftrightarrow> map_of m k = Some v"
  by (simp add: gomap_ok_def)

lemma set_update_subset: "set (AList.update k v m) \<subseteq> insert (k, v) (set m)"
  by (induction m) auto

lemma set_delete_subset: "set (AList.delete k m) \<subseteq> set m"
  by (auto simp: AList.delete_eq)

lemma gomap_ok_put_all [simp, intro]: "gomap_ok a \<Longrightarrow> gomap_ok (put_all a b)"
  by (induction a b rule: put_all.induct) auto

lemma keys_put_all [gomap_simps]: "keys (put_all a b) = keys a \<union> keys b"
  by (induction a b rule: put_all.induct) (auto simp: gomap_simps)

lemma lookup_put_all_notin: "k \<notin> keys b \<Longrightarrow> map_of (put_all a b) k = map_of a k"
  by (induction a b rule: put_all.induct) (auto simp: gomap_simps)

lemma lookup_put_all [gomap_simps]:
  "gomap_ok b \<Longrightarrow> map_of (put_all a b) k = (case map_of b k of None \<Rightarrow> map_of a k | Some v \<Rightarrow> Some v)"
proof (induction a b rule: put_all.induct)
  case (1 a)
  then show ?case by simp
next
  case (2 a k' v b)
  then have "gomap_ok b" and "k' \<notin> keys b"
    by (auto simp: gomap_ok_def)
  moreover have "map_of b k' = None"
    using \<open>k' \<notin> keys b\<close> by (simp add: map_of_eq_None_iff)
  ultimately show ?case
    using 2 by (auto simp: gomap_simps split: option.splits)
qed

lemma set_put_all_subset: "set (put_all a b) \<subseteq> set a \<union> set b"
  by (induction a b rule: put_all.induct) (use set_update_subset in fastforce)+

section \<open>Strings\<close>

text \<open>
  \<open>strings.Split\<close> with a one-byte separator, \<open>strings.SplitN\<close> with a positive count,
  \<open>strings.Join\<close>, \<open>strings.HasPrefix\<close>, \<open>strings.TrimPrefix\<close> and \<open>strings.Contains\<close>.
\<close>

fun split_on :: "char \<Rightarrow> string \<Rightarrow> string list" where
  "split_on c [] = [[]]"
| "split_on c (x # xs) =
     (if x = c then [] # split_on c xs
      else (case split_on c xs of [] \<Rightarrow> [[x]] | w # ws \<Rightarrow> (x # w) # ws))"

fun split_n :: "nat \<Rightarrow> char \<Rightarrow> string \<Rightarrow> string list" where
  "split_n 0 c s = []"
| "split_n (Suc 0) c s = [s]"
| "split_n (Suc (Suc n)) c s =
     (case dropWhile (\<lambda>x. x \<noteq> c) s of
        [] \<Rightarrow> [s]
      | _ # rest \<Rightarrow> takeWhile (\<lambda>x. x \<noteq> c) s # split_n (Suc n) c rest)"

fun join :: "string \<Rightarrow> string list \<Rightarrow> string" where
  "join sep [] = []"
| "join sep [w] = w"
| "join sep (w # v # ws) = w @ sep @ join sep (v # ws)"

definition has_prefix :: "string \<Rightarrow> string \<Rightarrow> bool" where
  "has_prefix s p \<longleftrightarrow> take (length p) s = p"

definition trim_prefix :: "string \<Rightarrow> string \<Rightarrow> string" where
  "trim_prefix s p = (if has_prefix s p then drop (length p) s else s)"

fun contains :: "string \<Rightarrow> string \<Rightarrow> bool" where
  "contains [] sub \<longleftrightarrow> sub = []"
| "contains (x # xs) sub \<longleftrightarrow> has_prefix (x # xs) sub \<or> contains xs sub"

text \<open>
  \<open>strings.EqualFold\<close> and \<open>strings.TrimSpace\<close> on ASCII text; the inputs are DNS host names and
  cipher suite names.
\<close>

definition ascii_lower :: "char \<Rightarrow> char" where
  "ascii_lower c = (if CHR ''A'' \<le> c \<and> c \<le> CHR ''Z'' then char_of (of_char c + 32 :: nat) else c)"

definition equal_fold :: "string \<Rightarrow> string \<Rightarrow> bool" where
  "equal_fold a b \<longleftrightarrow> map ascii_lower a = map ascii_lower b"

definition is_space :: "char \<Rightarrow> bool" where
  "is_space c \<longleftrightarrow> c \<in> {CHR '' '', CHR 0x09, CHR 0x0A, CHR 0x0B, CHR 0x0C, CHR 0x0D}"

definition trim_space :: "string \<Rightarrow> string" where
  "trim_space s = rev (dropWhile is_space (rev (dropWhile is_space s)))"

lemma split_on_not_Nil [simp]: "split_on c s \<noteq> []"
  by (cases s) (auto split: list.splits)

lemma join_Cons: "join sep (w # ws) = (if ws = [] then w else w @ sep @ join sep ws)"
  by (cases ws) auto

lemma join_split_on [gostring_simps]: "join [c] (split_on c s) = s"
proof (induction s)
  case (Cons x s)
  obtain w ws where "split_on c s = w # ws"
    by (cases "split_on c s") auto
  with Cons show ?case by (auto simp: join_Cons split: if_splits)
qed simp

lemma split_on_no_sep [gostring_simps]: "c \<notin> set s \<Longrightarrow> split_on c s = [s]"
  by (induction s) auto

lemma split_on_append [gostring_simps]:
  "c \<notin> set w \<Longrightarrow> split_on c (w @ c # rest) = w # split_on c rest"
  by (induction w) auto

lemma split_on_elems: "w \<in> set (split_on c s) \<Longrightarrow> c \<notin> set w"
  by (induction s arbitrary: w) (auto split: if_splits list.splits)

lemma split_n_append [gostring_simps]:
  "c \<notin> set w \<Longrightarrow> split_n (Suc (Suc n)) c (w @ c # rest) = w # split_n (Suc n) c rest"
proof -
  assume "c \<notin> set w"
  then have "dropWhile (\<lambda>x. x \<noteq> c) (w @ c # rest) = c # rest"
    and "takeWhile (\<lambda>x. x \<noteq> c) (w @ c # rest) = w"
    by (induction w) auto
  then show ?thesis by simp
qed

lemma has_prefix_append [simp]: "has_prefix (p @ s) p"
  by (simp add: has_prefix_def)

lemma trim_prefix_append [simp]: "trim_prefix (p @ s) p = s"
  by (simp add: trim_prefix_def)

lemma equal_fold_refl [simp]: "equal_fold a a"
  by (simp add: equal_fold_def)

lemma equal_fold_sym: "equal_fold a b \<longleftrightarrow> equal_fold b a"
  by (auto simp: equal_fold_def)

section \<open>Numbers as strings\<close>

text \<open>\<open>strconv.FormatUint\<close> and the verb \<open>%d\<close> on a non-negative value, in base 2 to 16.\<close>

definition digit_char :: "nat \<Rightarrow> char" where
  "digit_char d = (if d < 10 then char_of (48 + d) else char_of (87 + d))"

function format_uint :: "nat \<Rightarrow> nat \<Rightarrow> string" where
  "format_uint b n =
     (if b < 2 \<or> n < b then [digit_char n] else format_uint b (n div b) @ [digit_char (n mod b)])"
  by pat_completeness auto
termination
  by (relation "measure snd") auto

declare format_uint.simps [simp del]

definition digit_val :: "char \<Rightarrow> nat" where
  "digit_val c = (let v = of_char c in if v < 58 then v - 48 else v - 87)"

definition parse_uint :: "nat \<Rightarrow> string \<Rightarrow> nat" where
  "parse_uint b s = foldl (\<lambda>a c. a * b + digit_val c) 0 s"

lemma digit_val_char: "d < 16 \<Longrightarrow> digit_val (digit_char d) = d"
  by (auto simp: digit_val_def digit_char_def Let_def)

lemma parse_format_uint:
  assumes "2 \<le> b" and "b \<le> 16"
  shows "parse_uint b (format_uint b n) = n"
proof (induction n rule: less_induct)
  case (less n)
  show ?case
  proof (cases "n < b")
    case True
    with assms show ?thesis
      by (simp add: format_uint.simps [of b n] parse_uint_def digit_val_char)
  next
    case False
    with assms have "n div b < n" and "n mod b < 16"
      by (auto intro: less_le_trans [OF mod_less_divisor])
    then show ?thesis
      using less [of "n div b"] False assms
      by (simp add: format_uint.simps [of b n] parse_uint_def digit_val_char)
  qed
qed

lemma format_uint_inject:
  "2 \<le> b \<Longrightarrow> b \<le> 16 \<Longrightarrow> format_uint b m = format_uint b n \<longleftrightarrow> m = n"
  by (metis parse_format_uint)

text \<open>
  \<open>strconv.Atoi\<close> on a 64-bit platform: an optional sign, at least one decimal digit and nothing
  else, and the value in the range of \<open>int64\<close>; \<^const>\<open>None\<close> is the error.
\<close>

definition is_digit :: "char \<Rightarrow> bool" where
  "is_digit c \<longleftrightarrow> CHR ''0'' \<le> c \<and> c \<le> CHR ''9''"

definition atoi :: "string \<Rightarrow> int option" where
  "atoi s =
     (let neg = has_prefix s ''-'';
          ds = (if neg \<or> has_prefix s ''+'' then tl s else s);
          n = int (parse_uint 10 ds);
          v = (if neg then - n else n)
      in if ds = [] \<or> \<not> list_all is_digit ds \<or> v < - (2 ^ 63) \<or> 2 ^ 63 \<le> v then None else Some v)"

section \<open>The stable sort\<close>

text \<open>
  \<open>sort.SliceStable\<close>: for a \<open>less\<close> that is a strict weak order its result is determined, so an
  insertion sort computes it.
\<close>

fun insert_by :: "('a \<Rightarrow> 'a \<Rightarrow> bool) \<Rightarrow> 'a \<Rightarrow> 'a list \<Rightarrow> 'a list" where
  "insert_by lt x [] = [x]"
| "insert_by lt x (y # ys) = (if lt y x then y # insert_by lt x ys else x # y # ys)"

fun slice_stable :: "('a \<Rightarrow> 'a \<Rightarrow> bool) \<Rightarrow> 'a list \<Rightarrow> 'a list" where
  "slice_stable lt [] = []"
| "slice_stable lt (x # xs) = insert_by lt x (slice_stable lt xs)"

lemma mset_insert_by [simp]: "mset (insert_by lt x ys) = add_mset x (mset ys)"
  by (induction ys) auto

lemma mset_slice_stable [simp]: "mset (slice_stable lt xs) = mset xs"
  by (induction xs) auto

lemma set_slice_stable [simp]: "set (slice_stable lt xs) = set xs"
  by (metis mset_slice_stable set_mset_mset)

lemma length_slice_stable [simp]: "length (slice_stable lt xs) = length xs"
  by (metis mset_slice_stable size_mset)

lemma insert_by_insort_key:
  "(\<And>a b. lt a b \<longleftrightarrow> f a < f b) \<Longrightarrow> insert_by lt x ys = insort_key f x ys"
  by (induction ys) auto

text \<open>For a \<open>lt\<close> that compares a key, the sort is the library's stable \<^const>\<open>sort_key\<close>.\<close>

lemma slice_stable_sort_key:
  assumes "\<And>a b. lt a b \<longleftrightarrow> f a < f b"
  shows "slice_stable lt xs = sort_key f xs"
  by (induction xs) (simp_all add: insert_by_insort_key [OF assms])

lemma find_SomeD: "find P xs = Some x \<Longrightarrow> x \<in> set xs \<and> P x"
  by (induction xs) (auto split: if_splits)

lemma find_append: "find P (xs @ ys) = (case find P xs of None \<Rightarrow> find P ys | Some x \<Rightarrow> Some x)"
  by (induction xs) auto

lemma find_filter: "find P xs = Some x \<Longrightarrow> \<exists>rest. filter P xs = x # rest"
  by (induction xs) (auto split: if_splits)

lemma find_sort_key:
  assumes "find P (sort_key f xs) = Some x"
  shows "x \<in> set xs" and "P x" and "\<forall>y \<in> set xs. P y \<longrightarrow> f x \<le> f y"
    and "\<exists>rest. filter (\<lambda>y. P y \<and> f y = f x) xs = x # rest"
proof -
  obtain rest where "filter P (sort_key f xs) = x # rest"
    using find_filter [OF assms] by blast
  then have sorted: "sort_key f (filter P xs) = x # rest"
    by (simp add: filter_sort)
  then have set: "set (filter P xs) = set (x # rest)"
    by (metis set_sort)
  then show "x \<in> set xs" and "P x"
    by auto
  have "sorted (map f (x # rest))"
    by (metis sorted sorted_sort_key)
  then have "\<forall>y \<in> set (x # rest). f x \<le> f y"
    by auto
  then show "\<forall>y \<in> set xs. P y \<longrightarrow> f x \<le> f y"
    unfolding set [symmetric] by simp
  have "filter (\<lambda>y. f y = f x) (sort_key f (filter P xs)) = filter (\<lambda>y. f y = f x) (filter P xs)"
    by (rule sort_key_stable)
  then have "filter (\<lambda>y. P y \<and> f y = f x) xs = x # filter (\<lambda>y. f y = f x) rest"
    by (simp add: sorted conj_commute)
  then show "\<exists>rest. filter (\<lambda>y. P y \<and> f y = f x) xs = x # rest"
    by blast
qed

section \<open>CRC-32\<close>

text \<open>
  \<open>hash/crc32\<close> with the IEEE polynomial, bit by bit: the table of the package holds the eight
  shifts of each byte.
\<close>

definition crc_shift :: "32 word \<Rightarrow> 32 word" where
  "crc_shift c = (if bit c 0 then drop_bit 1 c XOR 0xEDB88320 else drop_bit 1 c)"

definition crc_byte :: "32 word \<Rightarrow> char \<Rightarrow> 32 word" where
  "crc_byte c x = (crc_shift ^^ 8) (c XOR of_nat (of_char x))"

definition crc32_ieee :: "string \<Rightarrow> 32 word" where
  "crc32_ieee s = NOT (foldl crc_byte (NOT 0) s)"

lemma funpow_8: "(f ^^ 8) x = f (f (f (f (f (f (f (f x)))))))"
  by (simp add: eval_nat_numeral)

lemma crc32_check_value: "crc32_ieee ''123456789'' = 0xCBF43926"
  by (simp add: crc32_ieee_def crc_byte_def funpow_8 crc_shift_def)

section \<open>Errors of a group\<close>

text \<open>
  \<open>multierror.Append\<close>, \<open>ErrorOrNil\<close> and \<open>multierror.Group.Wait\<close> keep every error that occurred.
  A Go \<open>error\<close> result is an option: \<^const>\<open>None\<close> is \<open>nil\<close>.
\<close>

type_synonym go_error = "string option"

definition multi_error :: "string list \<Rightarrow> go_error" where
  "multi_error es = (if es = [] then None else Some (join ''; '' es))"

lemma multi_error_None [simp]: "multi_error es = None \<longleftrightarrow> es = []"
  by (simp add: multi_error_def)

end
