(* ===== verification/Core_Model.thy ===== *)
theory Core_Model
  imports Go_Prelude
begin

text \<open>
  The source-neutral data model of package \<open>internal/core\<close>: resolved services, routes,
  listeners and gateways, and the two route builders. A resolved gateway is what the
  Kubernetes side hands to the Consul side through the \<open>SyncAdapter\<close> interface.
  A Go string enumeration is a datatype with the source's constants; an \<open>int32\<close> is a
  \<open>32 word\<close> read with \<^const>\<open>sint\<close>; a nil slice and an empty slice are both the empty list.
\<close>

section \<open>Services and filters\<close>

record ResolvedService =
  rs_ConsulNamespace :: string
  rs_Service :: string

datatype HTTPFilterType =
    HTTPHeaderFilterType
  | HTTPRedirectFilterType
  | HTTPURLRewriteFilterType

record HTTPHeaderFilter =
  hf_Set :: "(string, string) gomap"
  hf_Add :: "(string, string) gomap"
  hf_Remove :: "string list"

record HTTPRedirectFilter =
  rd_Scheme :: string
  rd_Hostname :: string
  rd_Port :: int
  rd_Status :: int

datatype URLRewriteType = URLRewriteNone | URLRewriteReplacePrefixMatchType

record HTTPURLRewriteFilter =
  ur_Type :: URLRewriteType
  ur_ReplacePrefixMatch :: string

record HTTPFilter =
  fl_Type :: HTTPFilterType
  fl_Header :: HTTPHeaderFilter
  fl_Redirect :: HTTPRedirectFilter
  fl_URLRewrite :: HTTPURLRewriteFilter

text \<open>The zero values Go gives the fields a composite literal leaves out.\<close>

definition zero_HTTPHeaderFilter :: HTTPHeaderFilter where
  "zero_HTTPHeaderFilter = \<lparr>hf_Set = [], hf_Add = [], hf_Remove = []\<rparr>"

definition zero_HTTPRedirectFilter :: HTTPRedirectFilter where
  "zero_HTTPRedirectFilter = \<lparr>rd_Scheme = '''', rd_Hostname = '''', rd_Port = 0, rd_Status = 0\<rparr>"

definition zero_HTTPURLRewriteFilter :: HTTPURLRewriteFilter where
  "zero_HTTPURLRewriteFilter = \<lparr>ur_Type = URLRewriteNone, ur_ReplacePrefixMatch = ''''\<rparr>"

record HTTPService =
  hs_Service :: ResolvedService
  hs_Weight :: "32 word"
  hs_Filters :: "HTTPFilter list"

section \<open>Matches\<close>

datatype HTTPMethod =
    HTTPMethodNone
  | HTTPMethodConnect
  | HTTPMethodDelete
  | HTTPMethodGet
  | HTTPMethodHead
  | HTTPMethodOptions
  | HTTPMethodPatch
  | HTTPMethodPost
  | HTTPMethodPut
  | HTTPMethodTrace

datatype HTTPPathMatchType =
    HTTPPathMatchNoneType
  | HTTPPathMatchExactType
  | HTTPPathMatchPrefixType
  | HTTPPathMatchRegularExpressionType

record HTTPPathMatch =
  pm_Type :: HTTPPathMatchType
  pm_Value :: string

datatype HTTPHeaderMatchType =
    HTTPHeaderMatchNoneType
  | HTTPHeaderMatchExactType
  | HTTPHeaderMatchPrefixType
  | HTTPHeaderMatchSuffixType
  | HTTPHeaderMatchPresentType
  | HTTPHeaderMatchRegularExpressionType

record HTTPHeaderMatch =
  hm_Type :: HTTPHeaderMatchType
  hm_Name :: string
  hm_Value :: string

datatype HTTPQueryMatchType =
    HTTPQueryMatchNoneType
  | HTTPQueryMatchExactType
  | HTTPQueryMatchPresentType
  | HTTPQueryMatchRegularExpressionType

record HTTPQueryMatch =
  qm_Type :: HTTPQueryMatchType
  qm_Name :: string
  qm_Value :: string

record HTTPMatch =
  mt_Path :: HTTPPathMatch
  mt_Headers :: "HTTPHeaderMatch list"
  mt_Query :: "HTTPQueryMatch list"
  mt_Method :: HTTPMethod

definition zero_HTTPMatch :: HTTPMatch where
  "zero_HTTPMatch = \<lparr>mt_Path = \<lparr>pm_Type = HTTPPathMatchNoneType, pm_Value = ''''\<rparr>,
     mt_Headers = [], mt_Query = [], mt_Method = HTTPMethodNone\<rparr>"

record HTTPRouteRule =
  rr_Matches :: "HTTPMatch list"
  rr_Filters :: "HTTPFilter list"
  rr_Services :: "HTTPService list"

section \<open>Routes\<close>

record CommonRoute =
  cr_Meta :: "(string, string) gomap"
  cr_Name :: string
  cr_Namespace :: string

record HTTPRoute = CommonRoute +
  ht_Hostnames :: "string list"
  ht_Rules :: "HTTPRouteRule list"

record TCPRoute = CommonRoute +
  tc_Service :: ResolvedService

text \<open>The interface \<open>ResolvedRoute\<close> with its two implementations.\<close>

datatype ResolvedRoute = RHTTPRoute HTTPRoute | RTCPRoute TCPRoute

datatype ResolvedRouteType = ResolvedHTTPRouteType | ResolvedTCPRouteType

fun GetType :: "ResolvedRoute \<Rightarrow> ResolvedRouteType" where
  "GetType (RHTTPRoute _) = ResolvedHTTPRouteType"
| "GetType (RTCPRoute _) = ResolvedTCPRouteType"

fun GetMeta :: "ResolvedRoute \<Rightarrow> (string, string) gomap" where
  "GetMeta (RHTTPRoute r) = cr_Meta r"
| "GetMeta (RTCPRoute r) = cr_Meta r"

fun GetName :: "ResolvedRoute \<Rightarrow> string" where
  "GetName (RHTTPRoute r) = cr_Name r"
| "GetName (RTCPRoute r) = cr_Name r"

fun GetNamespace :: "ResolvedRoute \<Rightarrow> string" where
  "GetNamespace (RHTTPRoute r) = cr_Namespace r"
| "GetNamespace (RTCPRoute r) = cr_Namespace r"

section \<open>Builders\<close>

record HTTPRouteBuilder =
  hb_meta :: "(string, string) gomap"
  hb_name :: string
  hb_namespace :: string
  hb_rules :: "HTTPRouteRule list"
  hb_hostnames :: "string list"

definition NewHTTPRouteBuilder :: HTTPRouteBuilder where
  "NewHTTPRouteBuilder =
     \<lparr>hb_meta = [], hb_name = '''', hb_namespace = '''', hb_rules = [], hb_hostnames = []\<rparr>"

definition HTTPRouteBuilder_Build :: "HTTPRouteBuilder \<Rightarrow> ResolvedRoute" where
  "HTTPRouteBuilder_Build b =
     RHTTPRoute \<lparr>cr_Meta = hb_meta b, cr_Name = hb_name b, cr_Namespace = hb_namespace b,
       ht_Hostnames = hb_hostnames b, ht_Rules = hb_rules b\<rparr>"

record TCPRouteBuilder =
  tb_meta :: "(string, string) gomap"
  tb_name :: string
  tb_namespace :: string
  tb_service :: ResolvedService

definition NewTCPRouteBuilder :: TCPRouteBuilder where
  "NewTCPRouteBuilder =
     \<lparr>tb_meta = [], tb_name = '''', tb_namespace = '''',
      tb_service = \<lparr>rs_ConsulNamespace = '''', rs_Service = ''''\<rparr>\<rparr>"

definition TCPRouteBuilder_Build :: "TCPRouteBuilder \<Rightarrow> ResolvedRoute" where
  "TCPRouteBuilder_Build b =
     RTCPRoute \<lparr>cr_Meta = tb_meta b, cr_Name = tb_name b, cr_Namespace = tb_namespace b,
       tc_Service = tb_service b\<rparr>"

section \<open>Listeners and gateways\<close>

record TLSParams =
  tls_Enabled :: bool
  tls_MinVersion :: string
  tls_MaxVersion :: string
  tls_CipherSuites :: "string list"
  tls_Certificates :: "string list"

definition zero_TLSParams :: TLSParams where
  "zero_TLSParams = \<lparr>tls_Enabled = False, tls_MinVersion = '''', tls_MaxVersion = '''',
     tls_CipherSuites = [], tls_Certificates = []\<rparr>"

record ResolvedListener =
  rl_Name :: string
  rl_Hostname :: string
  rl_Port :: int
  rl_Protocol :: string
  rl_TLS :: TLSParams
  rl_Routes :: "ResolvedRoute list"

record GatewayID =
  gid_ConsulNamespace :: string
  gid_Service :: string

record ResolvedGateway =
  rg_ID :: GatewayID
  rg_Meta :: "(string, string) gomap"
  rg_Listeners :: "ResolvedListener list"
  rg_MaxConnections :: "32 word option"

end
