(* ===== verification/Float32.thy ===== *)
theory Float32
  imports Complex_Main "HOL-Library.Log_Nat"
begin

text \<open>
  The \<open>float32\<close> operations the splitter weights use: the conversion of an \<open>int32\<close>, a division and
  a product. A finite value is the rational it denotes; the result of an operation is the exact
  result rounded to 24 significant bits, ties to even. The operands are integers of at most 32
  bits and their quotients, so no result leaves the exponent range of normal numbers and the
  rounding needs no case for overflow or subnormal values; a division by zero gives an infinity.
\<close>

section \<open>Rounding\<close>

definition exp2_of :: "rat \<Rightarrow> int" where
  "exp2_of x =
     (let (n, d) = quotient_of \<bar>x\<bar>; e = bitlen n - bitlen d
      in if 2 powi e \<le> \<bar>x\<bar> then e else e - 1)"

definition round_even :: "rat \<Rightarrow> int" where
  "round_even r =
     (let f = \<lfloor>r\<rfloor>; t = r - of_int f
      in if t < 1 / 2 then f else if 1 / 2 < t then f + 1 else if even f then f else f + 1)"

definition f32_round :: "rat \<Rightarrow> rat" where
  "f32_round x =
     (if x = 0 then 0
      else let u = 2 powi (exp2_of x - 23) in of_int (round_even (x / u)) * u)"

datatype float32 = Fin rat | PosInf | NegInf | NaN

definition f32_of_int :: "int \<Rightarrow> float32" where
  "f32_of_int n = Fin (f32_round (of_int n))"

fun f32_div :: "float32 \<Rightarrow> float32 \<Rightarrow> float32" where
  "f32_div (Fin a) (Fin b) =
     (if b = 0 then (if a = 0 then NaN else if 0 < a then PosInf else NegInf)
      else Fin (f32_round (a / b)))"
| "f32_div _ _ = NaN"

fun f32_mul :: "float32 \<Rightarrow> rat \<Rightarrow> float32" where
  "f32_mul (Fin a) c = Fin (f32_round (a * c))"
| "f32_mul PosInf c = (if c = 0 then NaN else if 0 < c then PosInf else NegInf)"
| "f32_mul NegInf c = (if c = 0 then NaN else if 0 < c then NegInf else PosInf)"
| "f32_mul NaN c = NaN"

fun f32_val :: "float32 \<Rightarrow> rat" where
  "f32_val (Fin a) = a"
| "f32_val _ = 0"

section \<open>Relative error\<close>

abbreviation f32_eps :: rat where
  "f32_eps \<equiv> 1 / 16777216"

lemma bitlen_rat:
  assumes "0 < n"
  shows "(2::rat) powi (bitlen n - 1) \<le> of_int n" and "of_int n < (2::rat) powi (bitlen n)"
proof -
  have pos: "1 \<le> bitlen n"
    using assms by (simp add: bitlen_def floorlog_def)
  have b: "2 ^ nat (bitlen n - 1) \<le> n" "n < 2 ^ nat (bitlen n)"
    using bitlen_bounds [OF assms] by auto
  have "(2::rat) ^ nat (bitlen n - 1) \<le> of_int n"
    using b(1) by (metis of_int_le_iff of_int_numeral of_int_power)
  then show "(2::rat) powi (bitlen n - 1) \<le> of_int n"
    using pos by (simp add: power_int_def)
  have "of_int n < (2::rat) ^ nat (bitlen n)"
    using b(2) by (metis of_int_less_iff of_int_numeral of_int_power)
  then show "of_int n < (2::rat) powi (bitlen n)"
    using pos by (simp add: power_int_def)
qed

lemma exp2_of_le:
  assumes "x \<noteq> 0"
  shows "2 powi (exp2_of x) \<le> \<bar>x\<bar>"
proof -
  obtain n d where q: "quotient_of \<bar>x\<bar> = (n, d)"
    by (cases "quotient_of \<bar>x\<bar>") auto
  have d: "0 < d" and x: "\<bar>x\<bar> = of_int n / of_int d"
    using quotient_of_denom_pos [OF q] quotient_of_div [OF q] by auto
  then have n: "0 < n"
    using assms by (metis abs_le_zero_iff divide_nonpos_pos not_less of_int_0_less_iff of_int_le_0_iff)
  have "(2::rat) powi (bitlen n - bitlen d - 1) = 2 powi (bitlen n - 1) / 2 powi (bitlen d)"
    by (simp add: power_int_diff power_int_add field_simps)
  also have "\<dots> \<le> of_int n / of_int d"
    using bitlen_rat [OF n] bitlen_rat [OF d] n d by (intro frac_le) auto
  finally have "2 powi (bitlen n - bitlen d - 1) \<le> \<bar>x\<bar>"
    using x by simp
  then show ?thesis
    by (simp add: exp2_of_def q Let_def)
qed

lemma round_even_error: "\<bar>of_int (round_even r) - r\<bar> \<le> 1 / 2"
proof -
  have "of_int \<lfloor>r\<rfloor> \<le> r" and "r < of_int \<lfloor>r\<rfloor> + 1"
    by linarith+
  then show ?thesis
    by (auto simp: round_even_def Let_def abs_le_iff field_simps)
qed

lemma f32_round_error: "\<bar>f32_round x - x\<bar> \<le> \<bar>x\<bar> * f32_eps"
proof (cases "x = 0")
  case False
  define u :: rat where "u = 2 powi (exp2_of x - 23)"
  have u: "0 < u" by (simp add: u_def)
  have "f32_round x - x = (of_int (round_even (x / u)) - x / u) * u"
    using False u by (simp add: f32_round_def u_def [symmetric] Let_def field_simps)
  then have "\<bar>f32_round x - x\<bar> = \<bar>of_int (round_even (x / u)) - x / u\<bar> * u"
    using u by (simp add: abs_mult)
  also have "\<dots> \<le> 1 / 2 * u"
    using round_even_error [of "x / u"] u by (intro mult_right_mono) auto
  also have "\<dots> = 2 powi (exp2_of x) * f32_eps"
    by (simp add: u_def power_int_diff)
  also have "\<dots> \<le> \<bar>x\<bar> * f32_eps"
    using exp2_of_le [OF False] by (intro mult_right_mono) auto
  finally show ?thesis .
qed (simp add: f32_round_def)

lemma f32_round_0 [simp]: "f32_round 0 = 0"
  by (simp add: f32_round_def)

lemma f32_round_pos_bounds:
  assumes "0 < x"
  shows "x * (1 - f32_eps) \<le> f32_round x" and "f32_round x \<le> x * (1 + f32_eps)"
proof -
  have "f32_round x - x \<le> x * f32_eps" and "- (f32_round x - x) \<le> x * f32_eps"
    using f32_round_error [of x] assms by (auto simp only: abs_le_iff abs_of_pos)
  then show "x * (1 - f32_eps) \<le> f32_round x" and "f32_round x \<le> x * (1 + f32_eps)"
    by (simp_all only: distrib_left right_diff_distrib)
qed

lemma f32_round_pos: "0 < x \<Longrightarrow> 0 < f32_round x"
proof -
  assume x: "0 < x"
  then have "0 < x * (1 - f32_eps)" by simp
  then show ?thesis
    using f32_round_pos_bounds(1) [OF x] by (rule less_le_trans)
qed

text \<open>
  The share \<open>w / t\<close> in percent, computed with four roundings, is within five units of the
  relative error of the exact share.
\<close>

definition f32_percent :: "int \<Rightarrow> int \<Rightarrow> float32" where
  "f32_percent w t = f32_mul (f32_div (f32_of_int w) (f32_of_int t)) 100"

lemma f32_percent_bounds:
  assumes w: "0 < w" and t: "0 < t"
  shows "\<exists>r. f32_percent w t = Fin r
    \<and> 100 * of_int w / of_int t * (1 - 5 * f32_eps) \<le> r
    \<and> r \<le> 100 * of_int w / of_int t * (1 + 5 * f32_eps)"
proof -
  define W T :: rat where "W = of_int w" and "T = of_int t"
  define a b where "a = f32_round W" and "b = f32_round T"
  define x where "x = a / b"
  define q where "q = f32_round x"
  define r where "r = f32_round (q * 100)"
  have W: "0 < W" and T: "0 < T"
    using w t by (auto simp: W_def T_def)
  have a: "0 < a" "W * (1 - f32_eps) \<le> a" "a \<le> W * (1 + f32_eps)"
    using f32_round_pos [OF W] f32_round_pos_bounds [OF W] by (auto simp: a_def)
  have b: "0 < b" "T * (1 - f32_eps) \<le> b" "b \<le> T * (1 + f32_eps)"
    using f32_round_pos [OF T] f32_round_pos_bounds [OF T] by (auto simp: b_def)
  have x: "0 < x" using a b by (simp add: x_def)
  have q: "0 < q" "x * (1 - f32_eps) \<le> q" "q \<le> x * (1 + f32_eps)"
    using f32_round_pos [OF x] f32_round_pos_bounds [OF x] by (auto simp: q_def)
  have q100: "0 < q * 100" using q by simp
  have r: "q * 100 * (1 - f32_eps) \<le> r" "r \<le> q * 100 * (1 + f32_eps)"
    using f32_round_pos_bounds [OF q100] by (auto simp: r_def)
  define y where "y = W / T"
  have y: "0 < y" using W T by (simp add: y_def)
  have x_le: "x \<le> y * ((1 + f32_eps) / (1 - f32_eps))"
    using frac_le [of "W * (1 + f32_eps)" a "T * (1 - f32_eps)" b] a b W T
    by (simp add: x_def y_def)
  have x_ge: "y * ((1 - f32_eps) / (1 + f32_eps)) \<le> x"
    using frac_le [of a "W * (1 - f32_eps)" b "T * (1 + f32_eps)"] a b W T
    by (simp add: x_def y_def)
  have hi: "r \<le> 100 * y * (1 + 5 * f32_eps)"
    using r(2) q(3) x_le y by (simp add: field_simps)
  have lo: "100 * y * (1 - 5 * f32_eps) \<le> r"
    using r(1) q(2) x_ge y by (simp add: field_simps)
  have "f32_percent w t = Fin r"
    using b(1) by (simp add: f32_percent_def f32_of_int_def r_def q_def x_def a_def b_def W_def T_def)
  moreover have "100 * of_int w / of_int t = 100 * y"
    by (simp add: y_def W_def T_def)
  ultimately show ?thesis
    using hi lo by metis
qed

end
