(* ===== verification/Consul_API.thy ===== *)
theory Consul_API
  imports Go_Prelude Float32
begin

text \<open>
  The Consul configuration entries the gateway writes. The records hold the fields of package
  \<open>github.com/hashicorp/consul/api\<close> that the modelled code sets or reads; the interface
  \<open>api.ConfigEntry\<close> is the datatype of the kinds the code writes.
\<close>

section \<open>The entries\<close>

record HTTPHeaderModifiers =
  md_Add :: "(string, string) gomap"
  md_Set :: "(string, string) gomap"
  md_Remove :: "string list"

record ServiceSplit =
  sp_Weight :: float32
  sp_Service :: string
  sp_Namespace :: string
  sp_RequestHeaders :: HTTPHeaderModifiers

record ServiceRouteHTTPMatchHeader =
  mh_Name :: string
  mh_Present :: bool
  mh_Exact :: string
  mh_Prefix :: string
  mh_Suffix :: string
  mh_Regex :: string

record ServiceRouteHTTPMatchQueryParam =
  mq_Name :: string
  mq_Present :: bool
  mq_Exact :: string
  mq_Regex :: string

record ServiceRouteHTTPMatch =
  sm_PathExact :: string
  sm_PathPrefix :: string
  sm_PathRegex :: string
  sm_Header :: "ServiceRouteHTTPMatchHeader list"
  sm_QueryParam :: "ServiceRouteHTTPMatchQueryParam list"
  sm_Methods :: "string list"

record ServiceRouteDestination =
  sd_Service :: string
  sd_Namespace :: string
  sd_PrefixRewrite :: string
  sd_RequestHeaders :: HTTPHeaderModifiers

record ServiceRoute =
  sr_Match :: "ServiceRouteHTTPMatch option"
  sr_Destination :: ServiceRouteDestination

record ServiceRouterConfigEntry =
  ro_Name :: string
  ro_Namespace :: string
  ro_Meta :: "(string, string) gomap"
  ro_Routes :: "ServiceRoute list"

record ServiceSplitterConfigEntry =
  ss_Name :: string
  ss_Namespace :: string
  ss_Meta :: "(string, string) gomap"
  ss_Splits :: "ServiceSplit list"

record ServiceConfigEntry =
  sc_Name :: string
  sc_Namespace :: string
  sc_Meta :: "(string, string) gomap"
  sc_Protocol :: string

record IngressService =
  is_Name :: string
  is_Hosts :: "string list"
  is_Namespace :: string

record GatewayTLSSDSConfig =
  sds_ClusterName :: string
  sds_CertResource :: string

record GatewayTLSConfig =
  gt_TLSMinVersion :: string
  gt_TLSMaxVersion :: string
  gt_CipherSuites :: "string list"
  gt_SDS :: "GatewayTLSSDSConfig option"

record IngressListener =
  il_Port :: int
  il_Protocol :: string
  il_Services :: "IngressService list"
  il_TLS :: GatewayTLSConfig

record IngressGatewayConfigEntry =
  ig_Name :: string
  ig_Namespace :: string
  ig_Meta :: "(string, string) gomap"
  ig_Defaults_MaxConnections :: "32 word option"
  ig_Listeners :: "IngressListener list"

datatype ConfigEntry =
    IngressEntry IngressGatewayConfigEntry
  | RouterEntry ServiceRouterConfigEntry
  | SplitterEntry ServiceSplitterConfigEntry
  | DefaultsEntry ServiceConfigEntry

datatype Kind = IngressGateway | ServiceRouter | ServiceSplitter | ServiceDefaults | ServiceIntentions

fun ce_GetKind :: "ConfigEntry \<Rightarrow> Kind" where
  "ce_GetKind (IngressEntry _) = IngressGateway"
| "ce_GetKind (RouterEntry _) = ServiceRouter"
| "ce_GetKind (SplitterEntry _) = ServiceSplitter"
| "ce_GetKind (DefaultsEntry _) = ServiceDefaults"

fun ce_GetName :: "ConfigEntry \<Rightarrow> string" where
  "ce_GetName (IngressEntry e) = ig_Name e"
| "ce_GetName (RouterEntry e) = ro_Name e"
| "ce_GetName (SplitterEntry e) = ss_Name e"
| "ce_GetName (DefaultsEntry e) = sc_Name e"

fun ce_GetNamespace :: "ConfigEntry \<Rightarrow> string" where
  "ce_GetNamespace (IngressEntry e) = ig_Namespace e"
| "ce_GetNamespace (RouterEntry e) = ro_Namespace e"
| "ce_GetNamespace (SplitterEntry e) = ss_Namespace e"
| "ce_GetNamespace (DefaultsEntry e) = sc_Namespace e"

section \<open>Service intentions\<close>

datatype IntentionAction = IntentionActionAllow | IntentionActionDeny

record SourceIntention =
  si_Name :: string
  si_Namespace :: string
  si_Action :: IntentionAction
  si_Description :: string

record ServiceIntentionsConfigEntry =
  in_Name :: string
  in_Namespace :: string
  in_Sources :: "SourceIntention list"

section \<open>The configuration entry client\<close>

text \<open>
  The Consul client is a service outside the program. It is a record of the functions the program
  calls on \<open>api.Client.ConfigEntries()\<close>, over an unknown state \<open>'w\<close> of the world that every call
  may change: a call returns what the program sees of the response and the next world. \<open>Set\<close>
  and \<open>Delete\<close> return an error; \<open>CAS\<close> an error or whether the swap happened; \<open>Get\<close>, which the
  program calls for intentions only, an error or the entry and its modify index.
\<close>

record 'w ConfigEntries =
  cl_Set :: "ConfigEntry \<Rightarrow> 'w \<Rightarrow> go_error \<times> 'w"
  cl_Delete :: "Kind \<Rightarrow> string \<Rightarrow> string \<Rightarrow> 'w \<Rightarrow> go_error \<times> 'w"
  cl_CAS :: "ServiceIntentionsConfigEntry \<Rightarrow> nat \<Rightarrow> 'w \<Rightarrow> (string + bool) \<times> 'w"
  cl_Get :: "string \<Rightarrow> string \<Rightarrow> 'w \<Rightarrow> (string + (ServiceIntentionsConfigEntry \<times> nat)) \<times> 'w"

end
