(* ===== verification/Config_Entries.thy ===== *)
theory Config_Entries
  imports Consul_API
begin

text \<open>
  \<open>internal/consul/config_entries.go\<close>: the index of configuration entries by name. The map of an
  index is keyed by the name alone, so two entries of one kind with the same name in different
  namespaces share a slot. The lemmas show what the index operations do to the set of
  entries an index holds, which is what the synchronisation rests on.
\<close>

section \<open>ConfigEntryIndex\<close>

record ConfigEntryIndex =
  ix_kind :: Kind
  ix_idx :: "(string, ConfigEntry) gomap"

definition NewConfigEntryIndex :: "Kind \<Rightarrow> ConfigEntryIndex" where
  "NewConfigEntryIndex k = \<lparr>ix_kind = k, ix_idx = []\<rparr>"

definition CE_Add :: "ConfigEntryIndex \<Rightarrow> ConfigEntry option \<Rightarrow> ConfigEntryIndex" where
  "CE_Add i entry =
     (case entry of
        None \<Rightarrow> i
      | Some e \<Rightarrow>
          if ce_GetKind e \<noteq> ix_kind i then i
          else i\<lparr>ix_idx := AList.update (ce_GetName e) e (ix_idx i)\<rparr>)"

definition CE_Merge :: "ConfigEntryIndex \<Rightarrow> ConfigEntryIndex option \<Rightarrow> ConfigEntryIndex" where
  "CE_Merge i oth =
     (case oth of
        None \<Rightarrow> i
      | Some other \<Rightarrow>
          if ix_kind i \<noteq> ix_kind other then i
          else i\<lparr>ix_idx := put_all (ix_idx i) (ix_idx other)\<rparr>)"

definition CE_Get :: "ConfigEntryIndex \<Rightarrow> string \<Rightarrow> ConfigEntry option" where
  "CE_Get i name = map_of (ix_idx i) name"

definition CE_Count :: "ConfigEntryIndex \<Rightarrow> nat" where
  "CE_Count i = length (ix_idx i)"

fun filter_entries ::
  "ConfigEntryIndex \<Rightarrow> bool \<Rightarrow> ConfigEntry list \<Rightarrow> ConfigEntryIndex \<Rightarrow> ConfigEntryIndex" where
  "filter_entries i incl [] result = result"
| "filter_entries i incl (c # cs) result =
     filter_entries i incl cs
       (if has_key (ix_idx i) (ce_GetName c) \<and> incl then CE_Add result (Some c)
        else if \<not> has_key (ix_idx i) (ce_GetName c) \<and> \<not> incl then CE_Add result (Some c)
        else result)"

definition CE_filter :: "ConfigEntryIndex \<Rightarrow> ConfigEntryIndex \<Rightarrow> bool \<Rightarrow> ConfigEntryIndex" where
  "CE_filter i other incl =
     filter_entries i incl (map snd (ix_idx other)) (NewConfigEntryIndex (ix_kind i))"

definition CE_Difference :: "ConfigEntryIndex \<Rightarrow> ConfigEntryIndex \<Rightarrow> ConfigEntryIndex" where
  "CE_Difference i other = CE_filter i other False"

definition CE_Intersection :: "ConfigEntryIndex \<Rightarrow> ConfigEntryIndex \<Rightarrow> ConfigEntryIndex" where
  "CE_Intersection i other = CE_filter i other True"

definition ToArray :: "ConfigEntryIndex \<Rightarrow> ConfigEntry list" where
  "ToArray i = map snd (ix_idx i)"

section \<open>The invariant of an index\<close>

text \<open>Every entry is stored under its own name and has the kind of the index.\<close>

definition index_ok :: "ConfigEntryIndex \<Rightarrow> bool" where
  "index_ok i \<longleftrightarrow> gomap_ok (ix_idx i) \<and>
     (\<forall>(n, e) \<in> set (ix_idx i). ce_GetName e = n \<and> ce_GetKind e = ix_kind i)"

lemma index_ok_New [simp]: "index_ok (NewConfigEntryIndex k)"
  by (simp add: index_ok_def NewConfigEntryIndex_def)

lemma ix_kind_New [simp]: "ix_kind (NewConfigEntryIndex k) = k"
  by (simp add: NewConfigEntryIndex_def)

lemma ix_kind_Add [simp]: "ix_kind (CE_Add i e) = ix_kind i"
  by (simp add: CE_Add_def split: option.splits)

lemma ix_kind_Merge [simp]: "ix_kind (CE_Merge i o') = ix_kind i"
  by (simp add: CE_Merge_def split: option.splits)

lemma index_ok_Add [simp, intro]: "index_ok i \<Longrightarrow> index_ok (CE_Add i e)"
  using set_update_subset by (fastforce simp: index_ok_def CE_Add_def split: option.splits)

lemma index_ok_Merge [simp, intro]:
  "index_ok i \<Longrightarrow> (\<And>o'. other = Some o' \<Longrightarrow> index_ok o') \<Longrightarrow> index_ok (CE_Merge i other)"
  using set_put_all_subset by (fastforce simp: index_ok_def CE_Merge_def split: option.splits)

lemma index_lookup_kind:
  "index_ok i \<Longrightarrow> map_of (ix_idx i) n = Some e \<Longrightarrow> ce_GetName e = n \<and> ce_GetKind e = ix_kind i"
  by (auto simp: index_ok_def dest!: map_of_SomeD)

lemma set_ToArray: "index_ok i \<Longrightarrow> e \<in> set (ToArray i) \<longleftrightarrow> map_of (ix_idx i) (ce_GetName e) = Some e"
  by (force simp: ToArray_def index_ok_def entry_lookup [symmetric])

lemma distinct_names_ToArray: "index_ok i \<Longrightarrow> distinct (map ce_GetName (ToArray i))"
proof -
  assume "index_ok i"
  then have "map ce_GetName (ToArray i) = map fst (ix_idx i)" and "distinct (map fst (ix_idx i))"
    by (auto simp: ToArray_def index_ok_def gomap_ok_def)
  then show ?thesis by simp
qed

lemma lookup_CE_Add:
  "ce_GetKind e = ix_kind i \<Longrightarrow>
   map_of (ix_idx (CE_Add i (Some e))) n = (if n = ce_GetName e then Some e else map_of (ix_idx i) n)"
  by (simp add: CE_Add_def gomap_simps)

lemma set_ToArray_Add:
  assumes "index_ok i" and "ce_GetKind e = ix_kind i" and "ce_GetName e \<notin> keys (ix_idx i)"
  shows "set (ToArray (CE_Add i (Some e))) = insert e (set (ToArray i))"
proof (rule set_eqI)
  fix x
  have "map_of (ix_idx i) (ce_GetName e) = None"
    using assms(3) by (simp add: map_of_eq_None_iff)
  then show "x \<in> set (ToArray (CE_Add i (Some e))) \<longleftrightarrow> x \<in> insert e (set (ToArray i))"
    using assms by (cases "ce_GetName x = ce_GetName e") (auto simp: set_ToArray lookup_CE_Add)
qed

lemma lookup_CE_Merge:
  "index_ok other \<Longrightarrow> ix_kind other = ix_kind i \<Longrightarrow>
   map_of (ix_idx (CE_Merge i (Some other))) n =
     (case map_of (ix_idx other) n of None \<Rightarrow> map_of (ix_idx i) n | Some e \<Rightarrow> Some e)"
  by (simp add: CE_Merge_def index_ok_def gomap_simps)

lemma insert_disjoint_mono: "A \<subseteq> insert x B \<Longrightarrow> x \<notin> C \<Longrightarrow> B \<inter> C = {} \<Longrightarrow> A \<inter> C = {}"
  by blast

lemma filter_entries_spec:
  assumes "index_ok r" and "\<forall>c \<in> set cs. ce_GetKind c = ix_kind r" and "distinct (map ce_GetName cs)"
    and "keys (ix_idx r) \<inter> ce_GetName ` set cs = {}"
  shows "index_ok (filter_entries i incl cs r) \<and> ix_kind (filter_entries i incl cs r) = ix_kind r \<and>
    set (ToArray (filter_entries i incl cs r)) =
      set (ToArray r) \<union> {c \<in> set cs. has_key (ix_idx i) (ce_GetName c) = incl}"
  using assms
proof (induction cs arbitrary: r)
  case Nil
  then show ?case by simp
next
  case (Cons c cs)
  define r' where "r' = (if has_key (ix_idx i) (ce_GetName c) = incl then CE_Add r (Some c) else r)"
  have step: "filter_entries i incl (c # cs) r = filter_entries i incl cs r'"
    by (auto simp: r'_def)
  have new: "ce_GetName c \<notin> keys (ix_idx r)"
    using Cons.prems(4) by auto
  have r'_arr: "set (ToArray r') =
      set (ToArray r) \<union> (if has_key (ix_idx i) (ce_GetName c) = incl then {c} else {})"
    using set_ToArray_Add [OF Cons.prems(1) _ new] Cons.prems(2) by (simp add: r'_def)
  have "keys (ix_idx r') \<subseteq> insert (ce_GetName c) (keys (ix_idx r))"
    by (auto simp: r'_def CE_Add_def gomap_simps)
  moreover have "ce_GetName c \<notin> ce_GetName ` set cs" and "keys (ix_idx r) \<inter> ce_GetName ` set cs = {}"
    using Cons.prems(3,4) by auto
  ultimately have disj: "keys (ix_idx r') \<inter> ce_GetName ` set cs = {}"
    by (rule insert_disjoint_mono)
  have ok: "index_ok r'" and kind: "ix_kind r' = ix_kind r"
    using Cons.prems(1) by (auto simp: r'_def)
  have "\<forall>c \<in> set cs. ce_GetKind c = ix_kind r'" and "distinct (map ce_GetName cs)"
    using Cons.prems(2,3) kind by simp_all
  from Cons.IH [OF ok this disj] show ?case
    by (simp only: step r'_arr kind) auto
qed

text \<open>The difference is the entries of the other index whose name this index does not hold.\<close>

lemma Difference_spec:
  assumes "index_ok i" and "index_ok other" and "ix_kind other = ix_kind i"
  shows "index_ok (CE_Difference i other)"
    and "set (ToArray (CE_Difference i other)) =
      {e \<in> set (ToArray other). ce_GetName e \<notin> ce_GetName ` set (ToArray i)}"
proof -
  have k: "\<forall>c \<in> set (map snd (ix_idx other)). ce_GetKind c = ix_kind (NewConfigEntryIndex (ix_kind i))"
    using assms(2,3) by (auto simp: index_ok_def)
  have d: "distinct (map ce_GetName (map snd (ix_idx other)))"
    using distinct_names_ToArray [OF assms(2)] by (simp add: ToArray_def)
  have n: "keys (ix_idx (NewConfigEntryIndex (ix_kind i))) \<inter> ce_GetName ` set (map snd (ix_idx other)) = {}"
    and e: "ToArray (NewConfigEntryIndex (ix_kind i)) = []"
    by (simp_all add: NewConfigEntryIndex_def ToArray_def)
  note spec = filter_entries_spec [OF index_ok_New k d n, of i False, unfolded e, folded CE_filter_def CE_Difference_def]
  show "index_ok (CE_Difference i other)"
    using spec by simp
  have "keys (ix_idx i) = ce_GetName ` set (ToArray i)"
  proof -
    have "map fst (ix_idx i) = map ce_GetName (ToArray i)"
      using assms(1) by (auto simp: index_ok_def ToArray_def)
    then show ?thesis by (metis set_map)
  qed
  then show "set (ToArray (CE_Difference i other)) =
      {e \<in> set (ToArray other). ce_GetName e \<notin> ce_GetName ` set (ToArray i)}"
    using spec by (simp add: has_key_iff ToArray_def [of other])
qed

lemma ix_kind_Difference [simp]: "ix_kind (CE_Difference i other) = ix_kind i"
proof -
  have "ix_kind (filter_entries i b cs r) = ix_kind r" for b cs r
    by (induction cs arbitrary: r) auto
  then show ?thesis by (simp add: CE_Difference_def CE_filter_def)
qed

section \<open>Properties of all entries\<close>

definition index_all :: "(ConfigEntry \<Rightarrow> bool) \<Rightarrow> ConfigEntryIndex \<Rightarrow> bool" where
  "index_all P i \<longleftrightarrow> (\<forall>e \<in> set (ToArray i). P e)"

definition index_names :: "ConfigEntryIndex \<Rightarrow> string set" where
  "index_names i = keys (ix_idx i)"

lemma index_all_New [simp]: "index_all P (NewConfigEntryIndex k)"
  by (simp add: index_all_def ToArray_def NewConfigEntryIndex_def)

lemma index_all_Add [intro]: "index_all P i \<Longrightarrow> (\<And>x. e = Some x \<Longrightarrow> P x) \<Longrightarrow> index_all P (CE_Add i e)"
  using set_update_subset by (fastforce simp: index_all_def ToArray_def CE_Add_def split: option.splits)

lemma index_all_Merge [intro]:
  "index_all P i \<Longrightarrow> (\<And>x. other = Some x \<Longrightarrow> index_all P x) \<Longrightarrow> index_all P (CE_Merge i other)"
  using set_put_all_subset by (fastforce simp: index_all_def ToArray_def CE_Merge_def split: option.splits)

lemma index_names_New [simp]: "index_names (NewConfigEntryIndex k) = {}"
  by (simp add: index_names_def NewConfigEntryIndex_def)

lemma index_names_Add:
  "index_names (CE_Add i (Some e)) = (if ce_GetKind e = ix_kind i then insert (ce_GetName e) (index_names i) else index_names i)"
  by (simp add: index_names_def CE_Add_def gomap_simps)

lemma index_names_Merge:
  "index_names (CE_Merge i (Some o')) = (if ix_kind i = ix_kind o' then index_names i \<union> index_names o' else index_names i)"
  by (simp add: index_names_def CE_Merge_def gomap_simps)

lemma CE_Get_Some:
  "index_ok i \<Longrightarrow> n \<in> index_names i \<longleftrightarrow> (\<exists>e. CE_Get i n = Some e \<and> e \<in> set (ToArray i) \<and> ce_GetName e = n)"
  by (metis CE_Get_def index_names_def index_lookup_kind keys_lookup lookup_keys set_ToArray)

lemma names_ToArray: "index_ok i \<Longrightarrow> ce_GetName ` set (ToArray i) = index_names i"
  unfolding index_names_def by (force simp: index_ok_def ToArray_def)

lemma CE_Get_ToArray: "CE_Get i n = Some e \<Longrightarrow> e \<in> set (ToArray i)"
  by (force simp: CE_Get_def ToArray_def dest: map_of_SomeD)

end
