(* ===== verification/HTTP_Discovery.thy ===== *)
theory HTTP_Discovery
  imports Core_Model Config_Entries "HOL-Library.Product_Lexorder"
begin

text \<open>
  \<open>internal/adapters/consul/http.go\<close>: from a resolved HTTP route to a service-router and its
  service-splitters, and the consolidation of all routes of a listener into one route per
  hostname. The lemmas give the reference meaning of the consolidation: the rules of a hostname
  are the stable sort, by the precedence triple of the Gateway API, of every match any route
  gives that hostname.
\<close>

section \<open>Filters and matches\<close>

definition mergeMaps :: "(string, string) gomap \<Rightarrow> (string, string) gomap \<Rightarrow> (string, string) gomap" where
  "mergeMaps a b = put_all a b"

fun header_modifier_loop :: "HTTPFilter list \<Rightarrow> HTTPHeaderModifiers \<Rightarrow> HTTPHeaderModifiers" where
  "header_modifier_loop [] modifier = modifier"
| "header_modifier_loop (filt # filters) modifier =
     header_modifier_loop filters
       (case fl_Type filt of
          HTTPHeaderFilterType \<Rightarrow>
            \<lparr>md_Add = mergeMaps (md_Add modifier) (hf_Add (fl_Header filt)),
             md_Set = mergeMaps (md_Set modifier) (hf_Set (fl_Header filt)),
             md_Remove = md_Remove modifier @ hf_Remove (fl_Header filt)\<rparr>
        | _ \<Rightarrow> modifier)"

definition httpRouteFiltersToServiceRouteHeaderModifier :: "HTTPFilter list \<Rightarrow> HTTPHeaderModifiers" where
  "httpRouteFiltersToServiceRouteHeaderModifier filters =
     header_modifier_loop filters \<lparr>md_Add = [], md_Set = [], md_Remove = []\<rparr>"

fun httpRouteFiltersToDestinationPrefixRewrite :: "HTTPFilter list \<Rightarrow> string" where
  "httpRouteFiltersToDestinationPrefixRewrite [] = ''''"
| "httpRouteFiltersToDestinationPrefixRewrite (filt # filters) =
     (if fl_Type filt = HTTPURLRewriteFilterType \<and>
         ur_Type (fl_URLRewrite filt) = URLRewriteReplacePrefixMatchType
      then ur_ReplacePrefixMatch (fl_URLRewrite filt)
      else httpRouteFiltersToDestinationPrefixRewrite filters)"

definition zero_MatchHeader :: "string \<Rightarrow> ServiceRouteHTTPMatchHeader" where
  "zero_MatchHeader name =
     \<lparr>mh_Name = name, mh_Present = False, mh_Exact = '''', mh_Prefix = '''', mh_Suffix = '''', mh_Regex = ''''\<rparr>"

fun header_matches :: "HTTPHeaderMatch list \<Rightarrow> ServiceRouteHTTPMatchHeader list" where
  "header_matches [] = []"
| "header_matches (h # hs) =
     (case hm_Type h of
        HTTPHeaderMatchExactType \<Rightarrow> [(zero_MatchHeader (hm_Name h))\<lparr>mh_Exact := hm_Value h\<rparr>]
      | HTTPHeaderMatchPrefixType \<Rightarrow> [(zero_MatchHeader (hm_Name h))\<lparr>mh_Prefix := hm_Value h\<rparr>]
      | HTTPHeaderMatchSuffixType \<Rightarrow> [(zero_MatchHeader (hm_Name h))\<lparr>mh_Suffix := hm_Value h\<rparr>]
      | HTTPHeaderMatchPresentType \<Rightarrow> [(zero_MatchHeader (hm_Name h))\<lparr>mh_Present := True\<rparr>]
      | HTTPHeaderMatchRegularExpressionType \<Rightarrow> [(zero_MatchHeader (hm_Name h))\<lparr>mh_Regex := hm_Value h\<rparr>]
      | HTTPHeaderMatchNoneType \<Rightarrow> []) @ header_matches hs"

definition zero_MatchQueryParam :: "string \<Rightarrow> ServiceRouteHTTPMatchQueryParam" where
  "zero_MatchQueryParam name = \<lparr>mq_Name = name, mq_Present = False, mq_Exact = '''', mq_Regex = ''''\<rparr>"

fun query_matches :: "HTTPQueryMatch list \<Rightarrow> ServiceRouteHTTPMatchQueryParam list" where
  "query_matches [] = []"
| "query_matches (q # qs) =
     (case qm_Type q of
        HTTPQueryMatchExactType \<Rightarrow> [(zero_MatchQueryParam (qm_Name q))\<lparr>mq_Exact := qm_Value q\<rparr>]
      | HTTPQueryMatchPresentType \<Rightarrow> [(zero_MatchQueryParam (qm_Name q))\<lparr>mq_Present := True\<rparr>]
      | HTTPQueryMatchRegularExpressionType \<Rightarrow> [(zero_MatchQueryParam (qm_Name q))\<lparr>mq_Regex := qm_Value q\<rparr>]
      | HTTPQueryMatchNoneType \<Rightarrow> []) @ query_matches qs"

fun match_methods :: "HTTPMethod \<Rightarrow> string list" where
  "match_methods HTTPMethodConnect = [''CONNECT'']"
| "match_methods HTTPMethodDelete = [''DELETE'']"
| "match_methods HTTPMethodGet = [''GET'']"
| "match_methods HTTPMethodHead = [''HEAD'']"
| "match_methods HTTPMethodOptions = [''OPTIONS'']"
| "match_methods HTTPMethodPatch = [''PATCH'']"
| "match_methods HTTPMethodPost = [''POST'']"
| "match_methods HTTPMethodPut = [''PUT'']"
| "match_methods HTTPMethodTrace = [''TRACE'']"
| "match_methods HTTPMethodNone = []"

definition httpRouteMatchToServiceRouteHTTPMatch :: "HTTPMatch \<Rightarrow> ServiceRouteHTTPMatch" where
  "httpRouteMatchToServiceRouteHTTPMatch m =
     \<lparr>sm_PathExact = (if pm_Type (mt_Path m) = HTTPPathMatchExactType then pm_Value (mt_Path m) else ''''),
      sm_PathPrefix = (if pm_Type (mt_Path m) = HTTPPathMatchPrefixType then pm_Value (mt_Path m) else ''''),
      sm_PathRegex = (if pm_Type (mt_Path m) = HTTPPathMatchRegularExpressionType
                      then pm_Value (mt_Path m) else ''''),
      sm_Header = header_matches (mt_Headers m),
      sm_QueryParam = query_matches (mt_Query m),
      sm_Methods = match_methods (mt_Method m)\<rparr>"

section \<open>httpRouteDiscoveryChain\<close>

definition total_weight :: "HTTPService list \<Rightarrow> 32 word" where
  "total_weight services = foldl (\<lambda>totalWeight service. totalWeight + hs_Weight service) 0 services"

definition service_split :: "32 word \<Rightarrow> HTTPService \<Rightarrow> ServiceSplit" where
  "service_split totalWeight service =
     \<lparr>sp_Weight = f32_percent (sint (hs_Weight service)) (sint totalWeight),
      sp_Service = rs_Service (hs_Service service),
      sp_Namespace = rs_ConsulNamespace (hs_Service service),
      sp_RequestHeaders = httpRouteFiltersToServiceRouteHeaderModifier (hs_Filters service)\<rparr>"

fun split_loop :: "32 word \<Rightarrow> HTTPService list \<Rightarrow> ServiceSplit list" where
  "split_loop totalWeight [] = []"
| "split_loop totalWeight (service # services) =
     (if hs_Weight service = 0 then split_loop totalWeight services
      else service_split totalWeight service # split_loop totalWeight services)"

definition virtual_service :: "string \<Rightarrow> nat \<Rightarrow> string" where
  "virtual_service name idx = name @ ''-'' @ format_uint 10 idx"

definition rule_destination :: "HTTPRoute \<Rightarrow> nat \<Rightarrow> HTTPRouteRule \<Rightarrow> ResolvedService" where
  "rule_destination route idx rule =
     (case rr_Services rule of
        [service] \<Rightarrow> hs_Service service
      | _ \<Rightarrow> \<lparr>rs_ConsulNamespace = cr_Namespace route, rs_Service = virtual_service (cr_Name route) idx\<rparr>)"

definition rule_modifier :: "HTTPRouteRule \<Rightarrow> HTTPHeaderModifiers" where
  "rule_modifier rule =
     (let modifier = httpRouteFiltersToServiceRouteHeaderModifier (rr_Filters rule) in
      case rr_Services rule of
        [service] \<Rightarrow>
          (let serviceModifier = httpRouteFiltersToServiceRouteHeaderModifier (hs_Filters service) in
           \<lparr>md_Add = mergeMaps (md_Add modifier) (md_Add serviceModifier),
            md_Set = mergeMaps (md_Set modifier) (md_Set serviceModifier),
            md_Remove = md_Remove modifier @ md_Remove serviceModifier\<rparr>)
      | _ \<Rightarrow> modifier)"

definition rule_splitters :: "HTTPRoute \<Rightarrow> nat \<Rightarrow> HTTPRouteRule \<Rightarrow> ServiceSplitterConfigEntry list" where
  "rule_splitters route idx rule =
     (if length (rr_Services rule) = 1 then []
      else let splits = split_loop (total_weight (rr_Services rule)) (rr_Services rule);
               destination = rule_destination route idx rule in
        if length splits > 0
        then [\<lparr>ss_Name = rs_Service destination, ss_Namespace = rs_ConsulNamespace destination,
               ss_Meta = cr_Meta route, ss_Splits = splits\<rparr>]
        else [])"

definition rule_routes :: "HTTPRoute \<Rightarrow> nat \<Rightarrow> HTTPRouteRule \<Rightarrow> ServiceRoute list" where
  "rule_routes route idx rule =
     (let destination = rule_destination route idx rule;
          routeDestination =
            \<lparr>sd_Service = rs_Service destination, sd_Namespace = rs_ConsulNamespace destination,
             sd_PrefixRewrite = httpRouteFiltersToDestinationPrefixRewrite (rr_Filters rule),
             sd_RequestHeaders = rule_modifier rule\<rparr> in
      if rr_Matches rule = [] then [\<lparr>sr_Match = None, sr_Destination = routeDestination\<rparr>]
      else map (\<lambda>m. \<lparr>sr_Match = Some (httpRouteMatchToServiceRouteHTTPMatch m),
                       sr_Destination = routeDestination\<rparr>) (rr_Matches rule))"

fun rules_loop ::
  "HTTPRoute \<Rightarrow> nat \<Rightarrow> HTTPRouteRule list \<Rightarrow> ServiceRoute list \<Rightarrow> ServiceSplitterConfigEntry list
   \<Rightarrow> ServiceRoute list \<times> ServiceSplitterConfigEntry list" where
  "rules_loop route idx [] routes splitters = (routes, splitters)"
| "rules_loop route idx (rule # rules) routes splitters =
     rules_loop route (Suc idx) rules
       (routes @ rule_routes route idx rule) (splitters @ rule_splitters route idx rule)"

definition httpRouteDiscoveryChain ::
  "HTTPRoute \<Rightarrow> ServiceRouterConfigEntry \<times> ServiceSplitterConfigEntry list" where
  "httpRouteDiscoveryChain route =
     (case rules_loop route 0 (ht_Rules route) [] [] of (routes, splitters) \<Rightarrow>
        (\<lparr>ro_Name = cr_Name route, ro_Namespace = cr_Namespace route, ro_Meta = cr_Meta route,
          ro_Routes = routes\<rparr>, splitters))"

section \<open>Consolidation\<close>

definition hostsKey :: "string list \<Rightarrow> string" where
  "hostsKey hosts = format_uint 16 (unat (crc32_ieee (concat (sort hosts))))"

definition compareHTTPRules :: "HTTPMatch \<Rightarrow> HTTPMatch \<Rightarrow> bool" where
  "compareHTTPRules ruleA ruleB =
     (if length (pm_Value (mt_Path ruleA)) \<noteq> length (pm_Value (mt_Path ruleB))
      then length (pm_Value (mt_Path ruleA)) > length (pm_Value (mt_Path ruleB))
      else if length (mt_Headers ruleA) \<noteq> length (mt_Headers ruleB)
      then length (mt_Headers ruleA) > length (mt_Headers ruleB)
      else length (mt_Query ruleA) > length (mt_Query ruleB))"

definition httpServiceDefault :: "ConfigEntry \<Rightarrow> (string, string) gomap \<Rightarrow> ServiceConfigEntry" where
  "httpServiceDefault entry meta =
     \<lparr>sc_Name = ce_GetName entry, sc_Namespace = ce_GetNamespace entry, sc_Meta = meta, sc_Protocol = ''http''\<rparr>"

record hostnameMatch =
  hn_match :: HTTPMatch
  hn_filters :: "HTTPFilter list"
  hn_services :: "HTTPService list"

type_synonym routeConsolidator = "(string, hostnameMatch list) gomap"

definition newRouteConsolidator :: routeConsolidator where
  "newRouteConsolidator = []"

definition default_match :: HTTPMatch where
  "default_match = zero_HTTPMatch\<lparr>mt_Path := \<lparr>pm_Type = HTTPPathMatchPrefixType, pm_Value = ''/''\<rparr>\<rparr>"

fun add_rules :: "HTTPRouteRule list \<Rightarrow> hostnameMatch list \<Rightarrow> hostnameMatch list" where
  "add_rules [] matches = matches"
| "add_rules (rule # rules) matches =
     add_rules rules
       (matches @ map (\<lambda>m. \<lparr>hn_match = m, hn_filters = rr_Filters rule, hn_services = rr_Services rule\<rparr>)
          (if length (rr_Matches rule) = 0 then [default_match] else rr_Matches rule))"

fun add_hosts :: "string list \<Rightarrow> HTTPRouteRule list \<Rightarrow> routeConsolidator \<Rightarrow> routeConsolidator" where
  "add_hosts [] rules f = f"
| "add_hosts (host # hosts) rules f =
     add_hosts hosts rules
       (AList.update host
          (add_rules rules (case map_of f host of None \<Rightarrow> [] | Some matches \<Rightarrow> matches)) f)"

definition consolidator_add :: "routeConsolidator \<Rightarrow> HTTPRoute \<Rightarrow> routeConsolidator" where
  "consolidator_add f route = add_hosts (ht_Hostnames route) (ht_Rules route) f"

definition consolidated_rule :: "hostnameMatch \<Rightarrow> HTTPRouteRule" where
  "consolidated_rule rule =
     \<lparr>rr_Matches = [hn_match rule], rr_Filters = hn_filters rule, rr_Services = hn_services rule\<rparr>"

definition hostname_route :: "ResolvedGateway \<Rightarrow> string \<Rightarrow> hostnameMatch list \<Rightarrow> HTTPRoute" where
  "hostname_route gateway hostname rules =
     \<lparr>cr_Meta = rg_Meta gateway,
      cr_Name = gid_Service (rg_ID gateway) @ ''-'' @ hostsKey [hostname],
      cr_Namespace = gid_ConsulNamespace (rg_ID gateway),
      ht_Hostnames = [hostname],
      ht_Rules = map consolidated_rule
        (slice_stable (\<lambda>a b. compareHTTPRules (hn_match a) (hn_match b)) rules)\<rparr>"

text \<open>\<open>consolidate\<close> ranges over a map, in an order that is an argument here.\<close>

definition consolidate :: "(routeConsolidator \<Rightarrow> routeConsolidator) \<Rightarrow> routeConsolidator \<Rightarrow> ResolvedGateway \<Rightarrow> HTTPRoute list" where
  "consolidate ord f gateway = map (\<lambda>(hostname, rules). hostname_route gateway hostname rules) (go_range ord f)"

section \<open>Reference meaning of the consolidation\<close>

text \<open>The precedence of a match: longest path first, then most headers, then most query parameters.\<close>

definition precedence :: "HTTPMatch \<Rightarrow> int \<times> int \<times> int" where
  "precedence m = (- int (length (pm_Value (mt_Path m))), - int (length (mt_Headers m)), - int (length (mt_Query m)))"

lemma compareHTTPRules_precedence: "compareHTTPRules a b \<longleftrightarrow> precedence a < precedence b"
  by (auto simp: compareHTTPRules_def precedence_def)

definition rule_entries :: "HTTPRouteRule \<Rightarrow> hostnameMatch list" where
  "rule_entries rule =
     map (\<lambda>m. \<lparr>hn_match = m, hn_filters = rr_Filters rule, hn_services = rr_Services rule\<rparr>)
       (if rr_Matches rule = [] then [default_match] else rr_Matches rule)"

text \<open>All that the given routes say about one hostname, in the order of the routes.\<close>

definition host_entries :: "string \<Rightarrow> HTTPRoute list \<Rightarrow> hostnameMatch list" where
  "host_entries h routes =
     concat (map (\<lambda>r. concat (map (\<lambda>h'. if h' = h then concat (map rule_entries (ht_Rules r)) else [])
       (ht_Hostnames r))) routes)"

lemma add_rules_eq: "add_rules rules ms = ms @ concat (map rule_entries rules)"
  by (induction rules arbitrary: ms) (auto simp: rule_entries_def)

lemma gomap_ok_add_hosts: "gomap_ok f \<Longrightarrow> gomap_ok (add_hosts hs rules f)"
  by (induction hs arbitrary: f) auto

lemma keys_add_hosts: "keys (add_hosts hs rules f) = keys f \<union> set hs"
  by (induction hs arbitrary: f) (auto simp: gomap_simps)

lemma other_host_entries: "h \<notin> set hs \<Longrightarrow> concat (map (\<lambda>h'. if h' = h then es else []) hs) = []"
  by (induction hs) auto

lemma lookup_add_hosts:
  "map_of (add_hosts hs rules f) h =
     (if h \<in> set hs
      then Some ((case map_of f h of None \<Rightarrow> [] | Some ms \<Rightarrow> ms) @
        concat (map (\<lambda>h'. if h' = h then concat (map rule_entries rules) else []) hs))
      else map_of f h)"
  by (induction hs arbitrary: f) (auto simp: gomap_simps add_rules_eq other_host_entries)

lemma consolidator_lookup:
  "map_of (foldl consolidator_add f routes) h =
     (if h \<in> keys f \<union> (\<Union>r \<in> set routes. set (ht_Hostnames r))
      then Some ((case map_of f h of None \<Rightarrow> [] | Some ms \<Rightarrow> ms) @ host_entries h routes)
      else None)"
proof (induction routes arbitrary: f)
  case Nil
  then show ?case
    by (cases "map_of f h") (auto simp: host_entries_def map_of_eq_None_iff dest: lookup_keys)
next
  case (Cons r routes)
  define f' where "f' = consolidator_add f r"
  have k: "h \<in> keys f' \<longleftrightarrow> h \<in> keys f \<or> h \<in> set (ht_Hostnames r)"
    using keys_add_hosts [of "ht_Hostnames r" "ht_Rules r" f] by (simp add: f'_def consolidator_add_def)
  have "(case map_of f' h of None \<Rightarrow> [] | Some ms \<Rightarrow> ms) =
      (case map_of f h of None \<Rightarrow> [] | Some ms \<Rightarrow> ms) @ host_entries h [r]"
    by (simp add: f'_def consolidator_add_def lookup_add_hosts host_entries_def other_host_entries)
  moreover have "host_entries h (r # routes) = host_entries h [r] @ host_entries h routes"
    by (simp add: host_entries_def)
  ultimately show ?case
    using k by (simp add: f'_def [symmetric] Cons.IH)
qed

lemma gomap_ok_consolidator: "gomap_ok f \<Longrightarrow> gomap_ok (foldl consolidator_add f routes)"
  by (induction routes arbitrary: f) (auto simp: consolidator_add_def gomap_ok_add_hosts)

lemma keys_consolidator:
  "keys (foldl consolidator_add f routes) = keys f \<union> (\<Union>r \<in> set routes. set (ht_Hostnames r))"
  by (induction routes arbitrary: f) (auto simp: consolidator_add_def keys_add_hosts)

lemma hostname_route_rules:
  "ht_Rules (hostname_route g h es) = map consolidated_rule (sort_key (\<lambda>e. precedence (hn_match e)) es)"
  by (simp add: hostname_route_def slice_stable_sort_key [where f = "\<lambda>e. precedence (hn_match e)"]
      compareHTTPRules_precedence)

lemma consolidate_entries:
  "set (consolidate ord (foldl consolidator_add newRouteConsolidator routes) g) =
     (\<lambda>h. hostname_route g h (host_entries h routes)) ` (\<Union>r \<in> set routes. set (ht_Hostnames r))"
proof -
  define f where "f = foldl consolidator_add newRouteConsolidator routes"
  have ok: "gomap_ok f"
    by (simp add: f_def gomap_ok_consolidator newRouteConsolidator_def)
  have "(h, es) \<in> set f \<longleftrightarrow> h \<in> (\<Union>r \<in> set routes. set (ht_Hostnames r)) \<and> es = host_entries h routes" for h es
    unfolding entry_lookup [OF ok] by (auto simp: f_def consolidator_lookup newRouteConsolidator_def)
  then show ?thesis
    by (force simp: consolidate_def f_def [symmetric])
qed

lemma consolidate_hostnames:
  "map ht_Hostnames (consolidate ord f g) = map (\<lambda>h. [h]) (map fst (go_range ord f))"
  by (auto simp: consolidate_def hostname_route_def)

text \<open>C5: the routes a listener serves are exactly one per hostname that some route of the listener names,
  and the rules of a hostname's route are the stable sort, by the precedence triple, of all
  matches any route gives the hostname.\<close>

theorem consolidate_spec:
  "distinct (map ht_Hostnames (consolidate ord (foldl consolidator_add newRouteConsolidator routes) g)) \<and>
   ht_Hostnames ` set (consolidate ord (foldl consolidator_add newRouteConsolidator routes) g) =
     (\<lambda>h. [h]) ` (\<Union>r \<in> set routes. set (ht_Hostnames r)) \<and>
   (\<lambda>r. (ht_Hostnames r, ht_Rules r)) ` set (consolidate ord (foldl consolidator_add newRouteConsolidator routes) g) =
     (\<lambda>h. ([h], map consolidated_rule (sort_key (\<lambda>e. precedence (hn_match e)) (host_entries h routes)))) `
       (\<Union>r \<in> set routes. set (ht_Hostnames r))"
proof (intro conjI)
  have "gomap_ok (go_range ord (foldl consolidator_add newRouteConsolidator routes))"
    by (simp add: gomap_ok_consolidator newRouteConsolidator_def)
  then show "distinct (map ht_Hostnames (consolidate ord (foldl consolidator_add newRouteConsolidator routes) g))"
    unfolding consolidate_hostnames by (simp add: gomap_ok_def distinct_map inj_on_def)
qed (simp_all add: consolidate_entries image_image hostname_route_rules, simp_all add: hostname_route_def)

text \<open>C6: whatever requests a predicate on matches describes, the first rule of a hostname's route that
  accepts has the highest precedence among all accepting matches of all routes for that
  hostname, and among those of equal precedence it is the earliest.\<close>

theorem consolidate_first_match:
  assumes "r \<in> set (consolidate ord (foldl consolidator_add newRouteConsolidator routes) g)"
    and "ht_Hostnames r = [h]"
    and "find (\<lambda>rule. P (hd (rr_Matches rule))) (ht_Rules r) = Some rule"
  shows "\<exists>e rest. rule = consolidated_rule e \<and>
    filter (\<lambda>e'. P (hn_match e') \<and> precedence (hn_match e') = precedence (hn_match e)) (host_entries h routes) = e # rest \<and>
    (\<forall>e' \<in> set (host_entries h routes). P (hn_match e') \<longrightarrow> precedence (hn_match e) \<le> precedence (hn_match e'))"
proof -
  obtain es where es: "es = host_entries h routes" and r: "r = hostname_route g h es"
    using assms(1,2) by (auto simp: consolidate_entries hostname_route_def)
  have "find (\<lambda>rule. P (hd (rr_Matches rule))) (map consolidated_rule xs) =
      map_option consolidated_rule (find (\<lambda>e. P (hn_match e)) xs)" for xs
    by (induction xs) (auto simp: consolidated_rule_def)
  then obtain e where e: "find (\<lambda>e. P (hn_match e)) (sort_key (\<lambda>e. precedence (hn_match e)) es) = Some e"
    and rule: "rule = consolidated_rule e"
    using assms(3) by (auto simp: r hostname_route_rules)
  show ?thesis
    using find_sort_key(3,4) [OF e] rule unfolding es by blast
qed

section \<open>Weighted splits\<close>

lemma split_loop_filter:
  "split_loop t services = map (service_split t) (filter (\<lambda>s. hs_Weight s \<noteq> 0) services)"
  by (induction services) auto

lemma sint_add_nonneg:
  "0 \<le> sint (a :: 32 word) \<Longrightarrow> 0 \<le> sint b \<Longrightarrow> sint a + sint b < 2 ^ 31 \<Longrightarrow> sint (a + b) = sint a + sint b"
  by (simp add: sint_word_ariths signed_take_bit_int_eq_self)

lemma total_weight_sum:
  assumes "\<forall>s \<in> set services. 0 \<le> sint (hs_Weight s)" and "(\<Sum>s \<leftarrow> services. sint (hs_Weight s)) < 2 ^ 31"
  shows "sint (total_weight services) = (\<Sum>s \<leftarrow> services. sint (hs_Weight s))"
proof -
  have "sint (foldl (\<lambda>t s. t + hs_Weight s) a services) = sint a + (\<Sum>s \<leftarrow> services. sint (hs_Weight s))"
    if "0 \<le> sint a" and "sint a + (\<Sum>s \<leftarrow> services. sint (hs_Weight s)) < 2 ^ 31" for a
    using assms(1) that
  proof (induction services arbitrary: a)
    case Nil
    then show ?case by simp
  next
    case (Cons s services)
    have "0 \<le> (\<Sum>s \<leftarrow> services. sint (hs_Weight s))"
      using Cons.prems(1) by (intro sum_list_nonneg) auto
    then have "sint (a + hs_Weight s) = sint a + sint (hs_Weight s)"
      using Cons.prems by (intro sint_add_nonneg) auto
    then show ?case
      using Cons.IH [of "a + hs_Weight s"] Cons.prems by simp
  qed
  from this [of 0] show ?thesis
    using assms(2) by (simp add: total_weight_def)
qed

text \<open>The float32 percentage of a split is within five rounding steps of the exact one.\<close>

lemma service_split_weight:
  assumes "0 < sint (hs_Weight s)" and "0 < sint t"
  shows "\<bar>f32_val (sp_Weight (service_split t s)) - 100 * of_int (sint (hs_Weight s)) / of_int (sint t)\<bar>
    \<le> 100 * of_int (sint (hs_Weight s)) / of_int (sint t) * (5 * f32_eps)"
  using f32_percent_bounds [OF assms] by (auto simp: service_split_def abs_le_iff algebra_simps)

lemma sum_list_abs_diff:
  "(\<And>x. x \<in> set xs \<Longrightarrow> \<bar>f x - g x\<bar> \<le> g x * (c :: rat)) \<Longrightarrow>
   \<bar>sum_list (map f xs) - sum_list (map g xs)\<bar> \<le> sum_list (map g xs) * c"
proof (induction xs)
  case Nil
  then show ?case by simp
next
  case (Cons x xs)
  have "\<bar>f x - g x\<bar> \<le> g x * c" and "\<bar>sum_list (map f xs) - sum_list (map g xs)\<bar> \<le> sum_list (map g xs) * c"
    using Cons by auto
  then show ?case
    by (auto simp: abs_le_iff algebra_simps)
qed

text \<open>C7: a rule with several services becomes a splitter with one split per service of non-zero weight,
  in order, whose percentages are the exact ones up to float32 rounding and add up to 100 up to
  that rounding, whenever the weights are non-negative and their sum is positive and fits an int32.\<close>

theorem split_weights:
  assumes "\<forall>s \<in> set services. 0 \<le> sint (hs_Weight s)"
    and "0 < (\<Sum>s \<leftarrow> services. sint (hs_Weight s))"
    and "(\<Sum>s \<leftarrow> services. sint (hs_Weight s)) < 2 ^ 31"
  shows "map sp_Service (split_loop (total_weight services) services) =
      map (rs_Service \<circ> hs_Service) (filter (\<lambda>s. hs_Weight s \<noteq> 0) services) \<and>
    (\<forall>s \<in> set services. hs_Weight s \<noteq> 0 \<longrightarrow>
      \<bar>f32_val (sp_Weight (service_split (total_weight services) s)) -
        100 * of_int (sint (hs_Weight s)) / of_int (\<Sum>s \<leftarrow> services. sint (hs_Weight s))\<bar> \<le>
      100 * of_int (sint (hs_Weight s)) / of_int (\<Sum>s \<leftarrow> services. sint (hs_Weight s)) * (5 * f32_eps)) \<and>
    \<bar>(\<Sum>sp \<leftarrow> split_loop (total_weight services) services. f32_val (sp_Weight sp)) - 100\<bar> \<le> 500 * f32_eps"
proof (intro conjI)
  let ?w = "\<lambda>s. sint (hs_Weight s)"
  let ?ss = "filter (\<lambda>s. hs_Weight s \<noteq> 0) services"
  define T where "T = (\<Sum>s \<leftarrow> services. ?w s)"
  have t: "sint (total_weight services) = T"
    using assms(1,3) by (simp add: total_weight_sum T_def)
  have pos: "0 < ?w s" if "s \<in> set services" "hs_Weight s \<noteq> 0" for s
    using assms(1) that by (metis order_le_imp_less_or_eq signed_0 signed_word_eqI)
  show "map sp_Service (split_loop (total_weight services) services) = map (rs_Service \<circ> hs_Service) ?ss"
    by (simp add: split_loop_filter service_split_def)
  have err: "\<bar>f32_val (sp_Weight (service_split (total_weight services) s)) - 100 * of_int (?w s) / of_int T\<bar>
      \<le> 100 * of_int (?w s) / of_int T * (5 * f32_eps)" if "s \<in> set services" "hs_Weight s \<noteq> 0" for s
    using service_split_weight [OF pos [OF that], of "total_weight services"] assms(2) by (simp add: t T_def)
  then show "\<forall>s \<in> set services. hs_Weight s \<noteq> 0 \<longrightarrow>
      \<bar>f32_val (sp_Weight (service_split (total_weight services) s)) - 100 * of_int (?w s) / of_int (\<Sum>s \<leftarrow> services. ?w s)\<bar>
      \<le> 100 * of_int (?w s) / of_int (\<Sum>s \<leftarrow> services. ?w s) * (5 * f32_eps)"
    by (simp add: T_def)
  define G :: "HTTPService \<Rightarrow> rat" where "G s = 100 * of_int (?w s) / of_int T" for s
  have "sum_list (map G xs) = 100 * of_int (\<Sum>s \<leftarrow> xs. ?w s) / of_int T" for xs
    by (induction xs) (simp_all add: G_def add_divide_distrib distrib_left)
  moreover have "(\<Sum>s \<leftarrow> filter (\<lambda>s. hs_Weight s \<noteq> 0) xs. ?w s) = (\<Sum>s \<leftarrow> xs. ?w s)" for xs :: "HTTPService list"
    by (induction xs) auto
  ultimately have exact: "sum_list (map G ?ss) = 100"
    using assms(2) by (simp add: T_def [symmetric])
  have "\<bar>(\<Sum>s \<leftarrow> ?ss. f32_val (sp_Weight (service_split (total_weight services) s))) - sum_list (map G ?ss)\<bar>
      \<le> sum_list (map G ?ss) * (5 * f32_eps)"
    using err by (intro sum_list_abs_diff) (simp add: G_def)
  then show "\<bar>(\<Sum>sp \<leftarrow> split_loop (total_weight services) services. f32_val (sp_Weight sp)) - 100\<bar> \<le> 500 * f32_eps"
    by (simp add: exact split_loop_filter comp_def)
qed

text \<open>A canary rule: nine parts to one service, one part to the other, none to a third.\<close>

definition example_service :: "string \<Rightarrow> 32 word \<Rightarrow> HTTPService" where
  "example_service name w =
     \<lparr>hs_Service = \<lparr>rs_ConsulNamespace = ''default'', rs_Service = name\<rparr>, hs_Weight = w, hs_Filters = []\<rparr>"

theorem split_weights_witness:
  "\<bar>(\<Sum>sp \<leftarrow> split_loop (total_weight [example_service ''v1'' 9, example_service ''v2'' 1, example_service ''v3'' 0])
        [example_service ''v1'' 9, example_service ''v2'' 1, example_service ''v3'' 0]. f32_val (sp_Weight sp)) - 100\<bar>
     \<le> 500 * f32_eps \<and>
   map sp_Service (split_loop (total_weight [example_service ''v1'' 9, example_service ''v2'' 1, example_service ''v3'' 0])
        [example_service ''v1'' 9, example_service ''v2'' 1, example_service ''v3'' 0]) = [''v1'', ''v2'']"
  using split_weights [of "[example_service ''v1'' 9, example_service ''v2'' 1, example_service ''v3'' 0]"]
  by (simp add: example_service_def)

text \<open>Two routes for one hostname: a catch-all and a longer prefix.\<close>

definition example_rule :: "string \<Rightarrow> string \<Rightarrow> HTTPRouteRule" where
  "example_rule path service =
     \<lparr>rr_Matches = [default_match\<lparr>mt_Path := \<lparr>pm_Type = HTTPPathMatchPrefixType, pm_Value = path\<rparr>\<rparr>],
      rr_Filters = [], rr_Services = [example_service service 1]\<rparr>"

definition example_route :: "string \<Rightarrow> string \<Rightarrow> string \<Rightarrow> HTTPRoute" where
  "example_route host path service =
     \<lparr>cr_Meta = [], cr_Name = service, cr_Namespace = ''default'', ht_Hostnames = [host],
      ht_Rules = [example_rule path service]\<rparr>"

definition example_gateway :: "ResolvedListener list \<Rightarrow> ResolvedGateway" where
  "example_gateway listeners =
     \<lparr>rg_ID = \<lparr>gid_ConsulNamespace = ''default'', gid_Service = ''gw''\<rparr>, rg_Meta = [],
      rg_Listeners = listeners, rg_MaxConnections = None\<rparr>"

theorem consolidate_first_match_witness:
  "\<exists>e rest. example_rule ''/api'' ''b'' = consolidated_rule e \<and>
    filter (\<lambda>e'. True \<and> precedence (hn_match e') = precedence (hn_match e))
      (host_entries ''h'' [example_route ''h'' ''/'' ''a'', example_route ''h'' ''/api'' ''b'']) = e # rest \<and>
    (\<forall>e' \<in> set (host_entries ''h'' [example_route ''h'' ''/'' ''a'', example_route ''h'' ''/api'' ''b'']).
      True \<longrightarrow> precedence (hn_match e) \<le> precedence (hn_match e'))"
proof -
  let ?routes = "[example_route ''h'' ''/'' ''a'', example_route ''h'' ''/api'' ''b'']"
  let ?g = "example_gateway []"
  let ?r = "hostname_route ?g ''h'' (host_entries ''h'' ?routes)"
  have 1: "?r \<in> set (consolidate ord (foldl consolidator_add newRouteConsolidator ?routes) ?g)"
    unfolding consolidate_entries by (simp add: example_route_def)
  have 2: "ht_Hostnames ?r = [''h'']"
    by (simp add: hostname_route_def)
  have 3: "find (\<lambda>rule. True) (ht_Rules ?r) = Some (example_rule ''/api'' ''b'')"
    by (simp add: hostname_route_rules host_entries_def example_route_def example_rule_def rule_entries_def
        precedence_def consolidated_rule_def)
  show ?thesis
    by (rule consolidate_first_match [OF 1 2 3])
qed

end
