(* ===== verification/Service_Names.thy ===== *)
theory Service_Names
  imports Go_Prelude
begin

text \<open>
  Package \<open>internal/common\<close>: the set of Consul service names (\<open>service_names.go\<close>) and the table of
  TLS versions and cipher suites (\<open>tls.go\<close>). A \<open>ServiceNameIndex\<close> is a map to the empty struct, so
  a set; it is refined to the mathematical set of its keys by \<open>names_of\<close>.
\<close>

section \<open>ServiceNameIndex\<close>

record CompoundServiceName =
  csn_Name :: string
  csn_Namespace :: string

type_synonym ServiceNameIndex = "(CompoundServiceName, unit) gomap"

definition NewServiceNameIndex :: ServiceNameIndex where
  "NewServiceNameIndex = []"

definition Exists :: "ServiceNameIndex \<Rightarrow> CompoundServiceName \<Rightarrow> bool" where
  "Exists i name \<longleftrightarrow> has_key i name"

fun Add :: "ServiceNameIndex \<Rightarrow> CompoundServiceName list \<Rightarrow> ServiceNameIndex" where
  "Add i [] = i"
| "Add i (name # names) = Add (AList.update name () i) names"

fun Remove :: "ServiceNameIndex \<Rightarrow> CompoundServiceName list \<Rightarrow> ServiceNameIndex" where
  "Remove i [] = i"
| "Remove i (name # names) = Remove (AList.delete name i) names"

definition All :: "ServiceNameIndex \<Rightarrow> CompoundServiceName list" where
  "All i = map fst i"

definition Diff ::
  "ServiceNameIndex \<Rightarrow> ServiceNameIndex \<Rightarrow> CompoundServiceName list \<times> CompoundServiceName list" where
  "Diff i other = (filter (\<lambda>n. \<not> has_key i n) (map fst other), filter (\<lambda>n. \<not> has_key other n) (map fst i))"

text \<open>The set of names an index stands for; the operations refine the set operations.\<close>

definition names_of :: "ServiceNameIndex \<Rightarrow> CompoundServiceName set" where
  "names_of i = keys i"

lemma names_of_New [simp]: "names_of NewServiceNameIndex = {}"
  by (simp add: NewServiceNameIndex_def names_of_def)

lemma names_of_Nil [simp]: "names_of [] = {}"
  by (simp add: names_of_def)

lemma gomap_ok_New [simp]: "gomap_ok NewServiceNameIndex"
  by (simp add: NewServiceNameIndex_def)

lemma Exists_iff [simp]: "Exists i n \<longleftrightarrow> n \<in> names_of i"
  by (simp add: Exists_def has_key_iff names_of_def)

lemma names_of_update [simp]: "names_of (AList.update n u i) = insert n (names_of i)"
  and names_of_delete [simp]: "names_of (AList.delete n i) = names_of i - {n}"
  by (simp_all add: names_of_def gomap_simps)

lemma names_of_Add [simp]: "names_of (Add i ns) = names_of i \<union> set ns"
  by (induction i ns rule: Add.induct) auto

lemma names_of_Remove [simp]: "names_of (Remove i ns) = names_of i - set ns"
  by (induction i ns rule: Remove.induct) auto

lemma gomap_ok_Add [simp, intro]: "gomap_ok i \<Longrightarrow> gomap_ok (Add i ns)"
  by (induction i ns rule: Add.induct) auto

lemma gomap_ok_Remove [simp, intro]: "gomap_ok i \<Longrightarrow> gomap_ok (Remove i ns)"
  by (induction i ns rule: Remove.induct) auto

lemma set_All [simp]: "set (All i) = names_of i"
  by (simp add: All_def names_of_def)

lemma All_Nil_iff [simp]: "All i = [] \<longleftrightarrow> names_of i = {}"
  by (simp add: All_def names_of_def)

lemma distinct_All: "gomap_ok i \<Longrightarrow> distinct (All i)"
  by (simp add: All_def gomap_ok_def)

lemma Diff_added: "set (fst (Diff i other)) = names_of other - names_of i"
  by (auto simp: Diff_def has_key_iff names_of_def)

lemma Diff_removed: "set (snd (Diff i other)) = names_of i - names_of other"
  by (auto simp: Diff_def has_key_iff names_of_def)

lemma distinct_Diff:
  "gomap_ok i \<Longrightarrow> gomap_ok other \<Longrightarrow> distinct (fst (Diff i other)) \<and> distinct (snd (Diff i other))"
  by (simp add: Diff_def gomap_ok_def)

section \<open>TLS versions and cipher suites\<close>

definition DefaultTLSCipherSuites :: "string list" where
  "DefaultTLSCipherSuites =
     [''TLS_ECDHE_ECDSA_WITH_AES_128_GCM_SHA256'',
      ''TLS_ECDHE_ECDSA_WITH_CHACHA20_POLY1305_SHA256'',
      ''TLS_ECDHE_RSA_WITH_AES_128_GCM_SHA256'',
      ''TLS_ECDHE_RSA_WITH_CHACHA20_POLY1305_SHA256'',
      ''TLS_ECDHE_ECDSA_WITH_AES_256_GCM_SHA384'',
      ''TLS_ECDHE_RSA_WITH_AES_256_GCM_SHA384'']"

definition extraTLSCipherSuites :: "string list" where
  "extraTLSCipherSuites =
     [''TLS_RSA_WITH_AES_128_GCM_SHA256'',
      ''TLS_RSA_WITH_AES_128_CBC_SHA'',
      ''TLS_RSA_WITH_AES_256_GCM_SHA384'',
      ''TLS_RSA_WITH_AES_256_CBC_SHA'',
      ''TLS_ECDHE_ECDSA_WITH_AES_128_CBC_SHA'',
      ''TLS_ECDHE_RSA_WITH_AES_128_CBC_SHA'',
      ''TLS_ECDHE_ECDSA_WITH_AES_256_CBC_SHA'',
      ''TLS_ECDHE_RSA_WITH_AES_256_CBC_SHA'']"

definition SupportedTLSCipherSuite :: "string \<Rightarrow> bool" where
  "SupportedTLSCipherSuite c \<longleftrightarrow> c \<in> set (DefaultTLSCipherSuites @ extraTLSCipherSuites)"

definition SupportedTLSVersions :: "string list" where
  "SupportedTLSVersions = [''TLS_AUTO'', ''TLSv1_0'', ''TLSv1_1'', ''TLSv1_2'', ''TLSv1_3'']"

definition TLSVersionsWithConfigurableCipherSuites :: "string list" where
  "TLSVersionsWithConfigurableCipherSuites =
     ['''', ''TLS_AUTO'', ''TLSv1_0'', ''TLSv1_1'', ''TLSv1_2'']"

lemma DefaultTLSCipherSuites_supported:
  "c \<in> set DefaultTLSCipherSuites \<Longrightarrow> SupportedTLSCipherSuite c"
  by (simp add: SupportedTLSCipherSuite_def)

lemma DefaultTLSCipherSuites_not_Nil [simp]: "DefaultTLSCipherSuites \<noteq> []"
  by (simp add: DefaultTLSCipherSuites_def)

end
