(* ===== verification/Discovery_Chain.thy ===== *)
theory Discovery_Chain
  imports HTTP_Discovery Service_Names
begin

text \<open>
  The pure part of \<open>internal/adapters/consul/sync.go\<close>: from a resolved gateway to its
  ingress-gateway entry and the service-routers, service-splitters and service-defaults it
  needs. The lemmas show that the four results fit together: every index is well formed, every
  HTTP service of the ingress has a router, every router and splitter has its HTTP
  service-defaults, all in the namespace of the gateway.
\<close>

section \<open>One route\<close>

fun add_splits ::
  "ServiceSplitterConfigEntry list \<Rightarrow> ServiceConfigEntry \<Rightarrow> (string, string) gomap
   \<Rightarrow> ConfigEntryIndex \<Rightarrow> ConfigEntryIndex \<Rightarrow> ConfigEntryIndex \<times> ConfigEntryIndex" where
  "add_splits [] serviceDefault meta splitters defaults = (splitters, defaults)"
| "add_splits (sp # splits) serviceDefault meta splitters defaults =
     add_splits splits serviceDefault meta
       (CE_Add splitters (Some (SplitterEntry sp)))
       (if ss_Name sp \<noteq> sc_Name serviceDefault
        then CE_Add defaults (Some (DefaultsEntry (httpServiceDefault (SplitterEntry sp) meta)))
        else defaults)"

fun routeDiscoveryChain ::
  "ResolvedRoute \<Rightarrow> IngressService \<times> ServiceRouterConfigEntry option
     \<times> ConfigEntryIndex option \<times> ConfigEntryIndex option" where
  "routeDiscoveryChain (RHTTPRoute httpRoute) =
     (let meta = cr_Meta httpRoute;
          (router, splits) = httpRouteDiscoveryChain httpRoute;
          serviceDefault = httpServiceDefault (RouterEntry router) meta;
          (splitters, defaults) =
            add_splits splits serviceDefault meta (NewConfigEntryIndex ServiceSplitter)
              (CE_Add (NewConfigEntryIndex ServiceDefaults) (Some (DefaultsEntry serviceDefault))) in
      (\<lparr>is_Name = ro_Name router, is_Hosts = ht_Hostnames httpRoute, is_Namespace = cr_Namespace httpRoute\<rparr>,
       Some router, Some splitters, Some defaults))"
| "routeDiscoveryChain (RTCPRoute tcpRoute) =
     (\<lparr>is_Name = rs_Service (tc_Service tcpRoute), is_Hosts = [],
       is_Namespace = rs_ConsulNamespace (tc_Service tcpRoute)\<rparr>, None, None, None)"

section \<open>Merging the routes of a listener\<close>

fun flatten_loop ::
  "ResolvedRoute list \<Rightarrow> routeConsolidator \<Rightarrow> ResolvedRoute list \<Rightarrow> routeConsolidator \<times> ResolvedRoute list" where
  "flatten_loop [] consolidator unmerged = (consolidator, unmerged)"
| "flatten_loop (RHTTPRoute r # routes) consolidator unmerged =
     flatten_loop routes (consolidator_add consolidator r) unmerged"
| "flatten_loop (RTCPRoute r # routes) consolidator unmerged =
     flatten_loop routes consolidator (unmerged @ [RTCPRoute r])"

definition flattenHTTPRoutes :: "(routeConsolidator \<Rightarrow> routeConsolidator) \<Rightarrow> ResolvedGateway \<Rightarrow> ResolvedRoute list \<Rightarrow> ResolvedRoute list" where
  "flattenHTTPRoutes ord gateway resolved =
     (case flatten_loop resolved newRouteConsolidator [] of (consolidator, unmerged) \<Rightarrow>
        unmerged @ map RHTTPRoute (consolidate ord consolidator gateway))"

fun filter_tcp_loop :: "bool \<Rightarrow> ResolvedRoute list \<Rightarrow> ResolvedRoute list" where
  "filter_tcp_loop found [] = []"
| "filter_tcp_loop found (RTCPRoute r # routes) =
     (if \<not> found then RTCPRoute r # filter_tcp_loop True routes else filter_tcp_loop found routes)"
| "filter_tcp_loop found (RHTTPRoute r # routes) = RHTTPRoute r # filter_tcp_loop found routes"

definition filterTCPRoutes :: "ResolvedRoute list \<Rightarrow> ResolvedRoute list" where
  "filterTCPRoutes routes = filter_tcp_loop False routes"

definition mergeRoutes :: "(routeConsolidator \<Rightarrow> routeConsolidator) \<Rightarrow> ResolvedGateway \<Rightarrow> ResolvedRoute list \<Rightarrow> ResolvedRoute list" where
  "mergeRoutes ord gateway routes = filterTCPRoutes (flattenHTTPRoutes ord gateway routes)"

section \<open>The whole gateway\<close>

record chain =
  dc_services :: "IngressService list"
  dc_routers :: ConfigEntryIndex
  dc_splitters :: ConfigEntryIndex
  dc_defaults :: ConfigEntryIndex

fun routes_loop :: "ResolvedRoute list \<Rightarrow> chain \<Rightarrow> chain" where
  "routes_loop [] c = c"
| "routes_loop (route # routes) c =
     (case routeDiscoveryChain route of (service, router, splits, serviceDefaults) \<Rightarrow>
        routes_loop routes
          \<lparr>dc_services = dc_services c @ [service],
           dc_routers = (case router of None \<Rightarrow> dc_routers c
                         | Some r \<Rightarrow> CE_Add (dc_routers c) (Some (RouterEntry r))),
           dc_splitters = CE_Merge (dc_splitters c) splits,
           dc_defaults = CE_Merge (dc_defaults c) serviceDefaults\<rparr>)"

definition listener_tls :: "TLSParams \<Rightarrow> GatewayTLSConfig" where
  "listener_tls t =
     \<lparr>gt_TLSMinVersion = (if tls_MinVersion t \<noteq> '''' then tls_MinVersion t else ''TLSv1_2''),
      gt_TLSMaxVersion = (if tls_MaxVersion t \<noteq> '''' then tls_MaxVersion t else ''''),
      gt_CipherSuites = (if length (tls_CipherSuites t) > 0 then tls_CipherSuites t
                         else DefaultTLSCipherSuites),
      gt_SDS = (case tls_Certificates t of [] \<Rightarrow> None
                | c # _ \<Rightarrow> Some \<lparr>sds_ClusterName = ''sds-cluster'', sds_CertResource = c\<rparr>)\<rparr>"

text \<open>The order in which the hostnames of each listener are visited.\<close>

type_synonym host_order = "ResolvedListener \<Rightarrow> routeConsolidator \<Rightarrow> routeConsolidator"

fun listeners_loop ::
  "host_order \<Rightarrow> ResolvedGateway \<Rightarrow> ResolvedListener list \<Rightarrow> IngressListener list \<Rightarrow> chain \<Rightarrow> IngressListener list \<times> chain" where
  "listeners_loop ord gateway [] ls c = (ls, c)"
| "listeners_loop ord gateway (listener # listeners) ls c =
     (let c' = routes_loop (mergeRoutes (ord listener) gateway (rl_Routes listener)) (c\<lparr>dc_services := []\<rparr>) in
      listeners_loop ord gateway listeners
        (if length (dc_services c') > 0
         then ls @ [\<lparr>il_Port = rl_Port listener, il_Protocol = rl_Protocol listener,
                      il_Services = dc_services c', il_TLS = listener_tls (rl_TLS listener)\<rparr>]
         else ls) c')"

definition empty_chain :: chain where
  "empty_chain =
     \<lparr>dc_services = [], dc_routers = NewConfigEntryIndex ServiceRouter,
      dc_splitters = NewConfigEntryIndex ServiceSplitter, dc_defaults = NewConfigEntryIndex ServiceDefaults\<rparr>"

definition discoveryChain ::
  "host_order \<Rightarrow> ResolvedGateway \<Rightarrow> IngressGatewayConfigEntry \<times> ConfigEntryIndex \<times> ConfigEntryIndex \<times> ConfigEntryIndex" where
  "discoveryChain ord gateway =
     (case listeners_loop ord gateway (rg_Listeners gateway) [] empty_chain of (ls, c) \<Rightarrow>
        (\<lparr>ig_Name = gid_Service (rg_ID gateway), ig_Namespace = gid_ConsulNamespace (rg_ID gateway),
          ig_Meta = rg_Meta gateway, ig_Defaults_MaxConnections = rg_MaxConnections gateway,
          ig_Listeners = ls\<rparr>, dc_routers c, dc_splitters c, dc_defaults c))"

section \<open>Listeners\<close>

text \<open>What \<^const>\<open>mergeRoutes\<close> returns: the first TCP route, then one route per hostname.\<close>

definition http_routes :: "ResolvedRoute list \<Rightarrow> HTTPRoute list" where
  "http_routes rs = concat (map (\<lambda>r. case r of RHTTPRoute h \<Rightarrow> [h] | RTCPRoute _ \<Rightarrow> []) rs)"

definition tcp_routes :: "ResolvedRoute list \<Rightarrow> TCPRoute list" where
  "tcp_routes rs = concat (map (\<lambda>r. case r of RTCPRoute t \<Rightarrow> [t] | RHTTPRoute _ \<Rightarrow> []) rs)"

lemma flatten_loop_eq:
  "flatten_loop rs f u = (foldl consolidator_add f (http_routes rs), u @ map RTCPRoute (tcp_routes rs))"
  by (induction rs f u rule: flatten_loop.induct) (auto simp: http_routes_def tcp_routes_def)

lemma filter_tcp_loop_http: "filter_tcp_loop b (map RHTTPRoute hs) = map RHTTPRoute hs"
  by (induction hs) auto

lemma filter_tcp_loop_tcp: "filter_tcp_loop True (map RTCPRoute ts @ hs) = filter_tcp_loop True hs"
  by (induction ts) auto

lemma mergeRoutes_eq:
  "mergeRoutes ord g rs = map RTCPRoute (take 1 (tcp_routes rs)) @
     map RHTTPRoute (consolidate ord (foldl consolidator_add newRouteConsolidator (http_routes rs)) g)"
  by (cases "tcp_routes rs")
    (auto simp: mergeRoutes_def flattenHTTPRoutes_def filterTCPRoutes_def flatten_loop_eq
      filter_tcp_loop_http filter_tcp_loop_tcp)

lemma routes_loop_services:
  "dc_services (routes_loop rs c) = dc_services c @ map (\<lambda>r. fst (routeDiscoveryChain r)) rs"
  by (induction rs arbitrary: c) (auto split: prod.splits)

text \<open>The listeners of the ingress entry, as a function of each listener alone.\<close>

definition ingress_listener :: "host_order \<Rightarrow> ResolvedGateway \<Rightarrow> ResolvedListener \<Rightarrow> IngressListener" where
  "ingress_listener ord g l =
     \<lparr>il_Port = rl_Port l, il_Protocol = rl_Protocol l,
      il_Services = map (\<lambda>r. fst (routeDiscoveryChain r)) (mergeRoutes (ord l) g (rl_Routes l)),
      il_TLS = listener_tls (rl_TLS l)\<rparr>"

lemma listeners_loop_listeners:
  "fst (listeners_loop ord g ls acc c) =
     acc @ map (ingress_listener ord g) (filter (\<lambda>l. mergeRoutes (ord l) g (rl_Routes l) \<noteq> []) ls)"
  by (induction ls arbitrary: acc c) (auto simp: Let_def routes_loop_services ingress_listener_def)

text \<open>The three indexes, as folds over the merged routes of all listeners.\<close>

definition add_router :: "ConfigEntryIndex \<Rightarrow> ResolvedRoute \<Rightarrow> ConfigEntryIndex" where
  "add_router i r = (case routeDiscoveryChain r of (_, ro, _, _) \<Rightarrow> CE_Add i (map_option RouterEntry ro))"

definition merge_splitters :: "ConfigEntryIndex \<Rightarrow> ResolvedRoute \<Rightarrow> ConfigEntryIndex" where
  "merge_splitters i r = (case routeDiscoveryChain r of (_, _, sp, _) \<Rightarrow> CE_Merge i sp)"

definition merge_defaults :: "ConfigEntryIndex \<Rightarrow> ResolvedRoute \<Rightarrow> ConfigEntryIndex" where
  "merge_defaults i r = (case routeDiscoveryChain r of (_, _, _, df) \<Rightarrow> CE_Merge i df)"

lemma CE_Add_None [simp]: "CE_Add i None = i"
  by (simp add: CE_Add_def)

lemma CE_Merge_None [simp]: "CE_Merge i None = i"
  by (simp add: CE_Merge_def)

lemma routes_loop_folds:
  "dc_routers (routes_loop rs c) = foldl add_router (dc_routers c) rs"
  "dc_splitters (routes_loop rs c) = foldl merge_splitters (dc_splitters c) rs"
  "dc_defaults (routes_loop rs c) = foldl merge_defaults (dc_defaults c) rs"
  by (induction rs arbitrary: c)
    (auto simp: add_router_def merge_splitters_def merge_defaults_def split: prod.splits option.splits)

definition merged_routes :: "host_order \<Rightarrow> ResolvedGateway \<Rightarrow> ResolvedRoute list" where
  "merged_routes ord g = concat (map (\<lambda>l. mergeRoutes (ord l) g (rl_Routes l)) (rg_Listeners g))"

lemma listeners_loop_folds:
  "dc_routers (snd (listeners_loop ord g ls acc c)) =
     foldl add_router (dc_routers c) (concat (map (\<lambda>l. mergeRoutes (ord l) g (rl_Routes l)) ls))"
  "dc_splitters (snd (listeners_loop ord g ls acc c)) =
     foldl merge_splitters (dc_splitters c) (concat (map (\<lambda>l. mergeRoutes (ord l) g (rl_Routes l)) ls))"
  "dc_defaults (snd (listeners_loop ord g ls acc c)) =
     foldl merge_defaults (dc_defaults c) (concat (map (\<lambda>l. mergeRoutes (ord l) g (rl_Routes l)) ls))"
  by (induction ls arbitrary: acc c) (simp_all add: Let_def routes_loop_folds)

lemma discoveryChain_eq:
  "discoveryChain ord g =
     (\<lparr>ig_Name = gid_Service (rg_ID g), ig_Namespace = gid_ConsulNamespace (rg_ID g),
       ig_Meta = rg_Meta g, ig_Defaults_MaxConnections = rg_MaxConnections g,
       ig_Listeners = map (ingress_listener ord g) (filter (\<lambda>l. mergeRoutes (ord l) g (rl_Routes l) \<noteq> []) (rg_Listeners g))\<rparr>,
      foldl add_router (NewConfigEntryIndex ServiceRouter) (merged_routes ord g),
      foldl merge_splitters (NewConfigEntryIndex ServiceSplitter) (merged_routes ord g),
      foldl merge_defaults (NewConfigEntryIndex ServiceDefaults) (merged_routes ord g))"
proof -
  obtain ls c where r: "listeners_loop ord g (rg_Listeners g) [] empty_chain = (ls, c)"
    by (rule prod.exhaust)
  have "ls = map (ingress_listener ord g) (filter (\<lambda>l. mergeRoutes (ord l) g (rl_Routes l) \<noteq> []) (rg_Listeners g))"
    using listeners_loop_listeners [of ord g "rg_Listeners g" "[]" empty_chain] by (simp add: r)
  moreover have "dc_routers c = foldl add_router (NewConfigEntryIndex ServiceRouter) (merged_routes ord g)"
    and "dc_splitters c = foldl merge_splitters (NewConfigEntryIndex ServiceSplitter) (merged_routes ord g)"
    and "dc_defaults c = foldl merge_defaults (NewConfigEntryIndex ServiceDefaults) (merged_routes ord g)"
    using listeners_loop_folds [of ord g "rg_Listeners g" "[]" empty_chain] unfolding r
    by (simp_all add: empty_chain_def merged_routes_def)
  ultimately show ?thesis
    by (simp add: discoveryChain_def r)
qed

section \<open>The results fit together\<close>

lemma ce_kinds [simp]:
  "ce_GetKind e = ServiceRouter \<longleftrightarrow> (\<exists>r. e = RouterEntry r)"
  "ce_GetKind e = ServiceSplitter \<longleftrightarrow> (\<exists>r. e = SplitterEntry r)"
  "ce_GetKind e = ServiceDefaults \<longleftrightarrow> (\<exists>r. e = DefaultsEntry r)"
  by (cases e; simp)+

definition in_namespace :: "string \<Rightarrow> ConfigEntry \<Rightarrow> bool" where
  "in_namespace ns e \<longleftrightarrow> ce_GetNamespace e = ns"

definition http_default :: "string \<Rightarrow> ConfigEntry \<Rightarrow> bool" where
  "http_default ns e \<longleftrightarrow> (\<exists>d. e = DefaultsEntry d \<and> sc_Namespace d = ns \<and> sc_Protocol d = ''http'')"

definition index_in :: "Kind \<Rightarrow> (ConfigEntry \<Rightarrow> bool) \<Rightarrow> ConfigEntryIndex \<Rightarrow> bool" where
  "index_in k P i \<longleftrightarrow> index_ok i \<and> ix_kind i = k \<and> index_all P i"

lemma in_namespace_simps [simp]:
  "in_namespace ns (RouterEntry r) \<longleftrightarrow> ro_Namespace r = ns"
  "in_namespace ns (SplitterEntry sp) \<longleftrightarrow> ss_Namespace sp = ns"
  by (simp_all add: in_namespace_def)

lemma http_default_simps [simp]:
  "http_default ns (DefaultsEntry (httpServiceDefault e meta)) \<longleftrightarrow> ce_GetNamespace e = ns"
  by (simp add: http_default_def httpServiceDefault_def)

lemma index_in_New [simp]: "index_in k P (NewConfigEntryIndex k)"
  by (simp add: index_in_def)

lemma index_in_Add [intro]: "index_in k P i \<Longrightarrow> P e \<Longrightarrow> index_in k P (CE_Add i (Some e))"
  by (auto simp: index_in_def)

lemma index_in_Merge [intro]: "index_in k P i \<Longrightarrow> index_in k P j \<Longrightarrow> index_in k P (CE_Merge i (Some j))"
  by (auto simp: index_in_def)

lemma add_splits_ok:
  assumes "add_splits splits sd meta S D = (S', D')"
    and "index_in ServiceSplitter (in_namespace ns) S" and "index_in ServiceDefaults (http_default ns) D"
    and "\<forall>sp \<in> set splits. ss_Namespace sp = ns"
    and "index_names S \<subseteq> index_names D" and "sc_Name sd \<in> index_names D"
  shows "index_in ServiceSplitter (in_namespace ns) S' \<and> index_in ServiceDefaults (http_default ns) D' \<and>
    index_names S' \<subseteq> index_names D' \<and> sc_Name sd \<in> index_names D'"
  using assms
proof (induction splits sd meta S D rule: add_splits.induct)
  case 1
  then show ?case by simp
next
  case (2 sp splits sd meta S D)
  let ?S = "CE_Add S (Some (SplitterEntry sp))"
  let ?d = "DefaultsEntry (httpServiceDefault (SplitterEntry sp) meta)"
  let ?D = "if ss_Name sp \<noteq> sc_Name sd then CE_Add D (Some ?d) else D"
  have nS: "index_names ?S = insert (ss_Name sp) (index_names S)"
    using "2.prems"(2) by (simp add: index_names_Add index_in_def)
  have nD: "index_names ?D = insert (ss_Name sp) (index_names D)"
    using "2.prems"(3,6) by (auto simp: index_names_Add index_in_def httpServiceDefault_def)
  show ?case
  proof (rule "2.IH")
    show "add_splits splits sd meta ?S ?D = (S', D')"
      using "2.prems"(1) by simp
    show "index_in ServiceSplitter (in_namespace ns) ?S"
      using "2.prems"(2,4) by (intro index_in_Add) simp_all
    show "index_in ServiceDefaults (http_default ns) ?D"
      using "2.prems"(3,4) by auto
    show "index_names ?S \<subseteq> index_names ?D" and "sc_Name sd \<in> index_names ?D"
      unfolding nS nD using "2.prems"(5,6) by auto
  qed (use "2.prems"(4) in simp)
qed

lemma rules_loop_splitters:
  assumes "rules_loop route idx rules rs sps = (rs', sps')" and "\<forall>sp \<in> set sps. ss_Namespace sp = cr_Namespace route"
  shows "\<forall>sp \<in> set sps'. ss_Namespace sp = cr_Namespace route"
  using assms
proof (induction rules arbitrary: idx rs sps)
  case Nil
  then show ?case by simp
next
  case (Cons rule rules)
  have "\<forall>sp \<in> set (rule_splitters route idx rule). ss_Namespace sp = cr_Namespace route"
    by (auto simp: rule_splitters_def rule_destination_def Let_def split: list.splits)
  then show ?case
    using Cons.IH [of "Suc idx" _ "sps @ rule_splitters route idx rule"] Cons.prems by auto
qed

lemma routeDiscoveryChain_http:
  obtains router S D where
    "routeDiscoveryChain (RHTTPRoute h) =
       (\<lparr>is_Name = cr_Name h, is_Hosts = ht_Hostnames h, is_Namespace = cr_Namespace h\<rparr>,
        Some router, Some S, Some D)"
    and "router = fst (httpRouteDiscoveryChain h)"
    and "ro_Name router = cr_Name h" and "ro_Namespace router = cr_Namespace h"
    and "index_in ServiceSplitter (in_namespace (cr_Namespace h)) S"
    and "index_in ServiceDefaults (http_default (cr_Namespace h)) D"
    and "index_names S \<subseteq> index_names D" and "cr_Name h \<in> index_names D"
proof -
  obtain rs sps where loop: "rules_loop h 0 (ht_Rules h) [] [] = (rs, sps)"
    by (rule prod.exhaust)
  define router where "router = \<lparr>ro_Name = cr_Name h, ro_Namespace = cr_Namespace h, ro_Meta = cr_Meta h, ro_Routes = rs\<rparr>"
  have chain: "httpRouteDiscoveryChain h = (router, sps)"
    by (simp add: httpRouteDiscoveryChain_def loop router_def)
  define sd where "sd = httpServiceDefault (RouterEntry router) (cr_Meta h)"
  define D0 where "D0 = CE_Add (NewConfigEntryIndex ServiceDefaults) (Some (DefaultsEntry sd))"
  obtain S D where S: "add_splits sps sd (cr_Meta h) (NewConfigEntryIndex ServiceSplitter) D0 = (S, D)"
    by (rule prod.exhaust)
  have "\<forall>sp \<in> set sps. ss_Namespace sp = cr_Namespace h"
    using rules_loop_splitters [OF loop] by simp
  moreover have "index_in ServiceDefaults (http_default (cr_Namespace h)) D0"
    unfolding D0_def sd_def by (intro index_in_Add) (simp_all add: router_def)
  moreover have "sc_Name sd \<in> index_names D0" and name: "sc_Name sd = cr_Name h"
    by (simp_all add: D0_def index_names_Add sd_def httpServiceDefault_def router_def)
  ultimately have "index_in ServiceSplitter (in_namespace (cr_Namespace h)) S \<and>
      index_in ServiceDefaults (http_default (cr_Namespace h)) D \<and>
      index_names S \<subseteq> index_names D \<and> cr_Name h \<in> index_names D"
    using add_splits_ok [OF S, of "cr_Namespace h"] by simp
  then show ?thesis
    by (intro that [of router S D]) (simp_all add: chain sd_def [symmetric] D0_def [symmetric] S Let_def, simp_all add: router_def)
qed

lemma index_in_folds:
  assumes "\<forall>h. RHTTPRoute h \<in> set rs \<longrightarrow> cr_Namespace h = ns"
    and "index_in ServiceRouter (in_namespace ns) R" and "index_in ServiceSplitter (in_namespace ns) S"
    and "index_in ServiceDefaults (http_default ns) D" and "index_names R \<union> index_names S \<subseteq> index_names D"
  shows "index_in ServiceRouter (in_namespace ns) (foldl add_router R rs) \<and>
    index_in ServiceSplitter (in_namespace ns) (foldl merge_splitters S rs) \<and>
    index_in ServiceDefaults (http_default ns) (foldl merge_defaults D rs) \<and>
    index_names (foldl add_router R rs) \<union> index_names (foldl merge_splitters S rs)
      \<subseteq> index_names (foldl merge_defaults D rs)"
  using assms
proof (induction rs arbitrary: R S D)
  case Nil
  then show ?case by simp
next
  case (Cons r rs)
  show ?case
  proof (cases r)
    case (RTCPRoute t)
    then have "add_router R r = R" "merge_splitters S r = S" "merge_defaults D r = D"
      by (simp_all add: add_router_def merge_splitters_def merge_defaults_def)
    then show ?thesis
      using Cons.IH [of R S D] Cons.prems RTCPRoute by simp
  next
    case (RHTTPRoute h)
    obtain router Sh Dh where h: "routeDiscoveryChain (RHTTPRoute h) =
         (\<lparr>is_Name = cr_Name h, is_Hosts = ht_Hostnames h, is_Namespace = cr_Namespace h\<rparr>,
          Some router, Some Sh, Some Dh)"
      and "router = fst (httpRouteDiscoveryChain h)"
      and name: "ro_Name router = cr_Name h" "ro_Namespace router = cr_Namespace h"
      and Sh: "index_in ServiceSplitter (in_namespace (cr_Namespace h)) Sh"
      and Dh: "index_in ServiceDefaults (http_default (cr_Namespace h)) Dh"
      and sub: "index_names Sh \<subseteq> index_names Dh" "cr_Name h \<in> index_names Dh"
      by (rule routeDiscoveryChain_http [of h])
    have "RHTTPRoute h \<in> set (r # rs)"
      by (simp add: RHTTPRoute)
    then have ns: "cr_Namespace h = ns"
      using Cons.prems(1) by blast
    have steps: "add_router R r = CE_Add R (Some (RouterEntry router))"
      "merge_splitters S r = CE_Merge S (Some Sh)" "merge_defaults D r = CE_Merge D (Some Dh)"
      using h RHTTPRoute by (simp_all add: add_router_def merge_splitters_def merge_defaults_def)
    have ok: "index_in ServiceRouter (in_namespace ns) (add_router R r)"
      "index_in ServiceSplitter (in_namespace ns) (merge_splitters S r)"
      "index_in ServiceDefaults (http_default ns) (merge_defaults D r)"
      unfolding steps using Cons.prems Sh Dh name ns by auto
    have names: "index_names (add_router R r) = insert (cr_Name h) (index_names R)"
      "index_names (merge_splitters S r) = index_names S \<union> index_names Sh"
      "index_names (merge_defaults D r) = index_names D \<union> index_names Dh"
      using Cons.prems Sh Dh name by (simp_all add: steps index_names_Add index_names_Merge index_in_def)
    have "index_names (add_router R r) \<union> index_names (merge_splitters S r) \<subseteq> index_names (merge_defaults D r)"
      using names sub Cons.prems(5) by auto
    moreover have "\<forall>h. RHTTPRoute h \<in> set rs \<longrightarrow> cr_Namespace h = ns"
      using Cons.prems(1) by simp
    ultimately show ?thesis
      using Cons.IH [OF _ ok] by simp
  qed
qed

lemma http_routes_append: "http_routes (xs @ ys) = http_routes xs @ http_routes ys"
  by (simp add: http_routes_def)

lemma set_http_routes: "h \<in> set (http_routes rs) \<longleftrightarrow> RHTTPRoute h \<in> set rs"
  by (induction rs) (auto simp: http_routes_def split: ResolvedRoute.splits)

lemma http_routes_merge:
  "http_routes (mergeRoutes ord g rs) = consolidate ord (foldl consolidator_add newRouteConsolidator (http_routes rs)) g"
proof -
  have "http_routes (map RTCPRoute ts) = []" for ts
    by (simp add: http_routes_def)
  moreover have "http_routes (map RHTTPRoute hs) = hs" for hs
    by (induction hs) (simp_all add: http_routes_def)
  ultimately show ?thesis
    by (simp add: mergeRoutes_eq http_routes_append)
qed

lemma merged_http_route:
  assumes "h \<in> set (http_routes (mergeRoutes ord g rs))"
  obtains host where "h = hostname_route g host (host_entries host (http_routes rs))"
    and "\<exists>r \<in> set (http_routes rs). host \<in> set (ht_Hostnames r)"
  using assms unfolding http_routes_merge consolidate_entries by blast

lemma hostname_route_simps [simp]:
  "cr_Namespace (hostname_route g host es) = gid_ConsulNamespace (rg_ID g)"
  "cr_Name (hostname_route g host es) = gid_Service (rg_ID g) @ ''-'' @ hostsKey [host]"
  "cr_Meta (hostname_route g host es) = rg_Meta g"
  "ht_Hostnames (hostname_route g host es) = [host]"
  by (simp_all add: hostname_route_def)

lemma merged_routes_namespace:
  "RHTTPRoute h \<in> set (merged_routes ord g) \<Longrightarrow> cr_Namespace h = gid_ConsulNamespace (rg_ID g)"
proof -
  assume "RHTTPRoute h \<in> set (merged_routes ord g)"
  then obtain l :: ResolvedListener where "h \<in> set (http_routes (mergeRoutes (ord l) g (rl_Routes l)))"
    by (auto simp: merged_routes_def set_http_routes)
  then show ?thesis
    by (rule merged_http_route) simp
qed

text \<open>The router stored under a name is that of the last merged route with the name.\<close>

lemma lookup_foldl_add_router:
  "ix_kind R = ServiceRouter \<Longrightarrow>
   CE_Get (foldl add_router R rs) n =
     (case find (\<lambda>h. cr_Name h = n) (rev (http_routes rs)) of
        None \<Rightarrow> CE_Get R n
      | Some h \<Rightarrow> Some (RouterEntry (fst (httpRouteDiscoveryChain h))))"
proof (induction rs rule: rev_induct)
  case Nil
  then show ?case by (simp add: http_routes_def)
next
  case (snoc r rs)
  have kind: "ix_kind (foldl add_router R rs) = ServiceRouter"
    using snoc.prems by (induction rs rule: rev_induct) (simp_all add: add_router_def split: prod.splits)
  show ?case
  proof (cases r)
    case (RTCPRoute t)
    then show ?thesis
      using snoc by (simp add: add_router_def http_routes_append) (simp add: http_routes_def)
  next
    case (RHTTPRoute h)
    obtain router S D where h: "routeDiscoveryChain (RHTTPRoute h) =
         (\<lparr>is_Name = cr_Name h, is_Hosts = ht_Hostnames h, is_Namespace = cr_Namespace h\<rparr>,
          Some router, Some S, Some D)"
      and router: "router = fst (httpRouteDiscoveryChain h)" and name: "ro_Name router = cr_Name h"
      using routeDiscoveryChain_http [of h] .
    have "foldl add_router R (rs @ [r]) = CE_Add (foldl add_router R rs) (Some (RouterEntry router))"
      using h by (simp add: add_router_def RHTTPRoute)
    moreover have "http_routes (rs @ [r]) = http_routes rs @ [h]"
      by (simp add: http_routes_def RHTTPRoute)
    ultimately show ?thesis
      using snoc.IH [OF snoc.prems] kind name router by (simp add: CE_Get_def lookup_CE_Add)
  qed
qed

lemma CE_Get_New [simp]: "CE_Get (NewConfigEntryIndex k) n = None"
  by (simp add: CE_Get_def NewConfigEntryIndex_def)

lemma discoveryChain_router:
  assumes "discoveryChain ord g = (ingress, routers, splitters, defaults)"
  shows "CE_Get routers n =
    map_option (\<lambda>h. RouterEntry (fst (httpRouteDiscoveryChain h)))
      (find (\<lambda>h. cr_Name h = n) (rev (http_routes (merged_routes ord g))))"
proof -
  have "routers = foldl add_router (NewConfigEntryIndex ServiceRouter) (merged_routes ord g)"
    using assms by (simp add: discoveryChain_eq)
  then show ?thesis
    by (simp add: lookup_foldl_add_router split: option.split)
qed

lemma fst_routeDiscoveryChain_http:
  "fst (routeDiscoveryChain (RHTTPRoute h)) =
     \<lparr>is_Name = cr_Name h, is_Hosts = ht_Hostnames h, is_Namespace = cr_Namespace h\<rparr>"
  by (simp add: Let_def httpRouteDiscoveryChain_def split: prod.splits)

lemma discoveryChain_indexes:
  assumes "discoveryChain ord g = (ingress, routers, splitters, defaults)"
  shows "index_in ServiceRouter (in_namespace (gid_ConsulNamespace (rg_ID g))) routers"
    and "index_in ServiceSplitter (in_namespace (gid_ConsulNamespace (rg_ID g))) splitters"
    and "index_in ServiceDefaults (http_default (gid_ConsulNamespace (rg_ID g))) defaults"
    and "index_names routers \<union> index_names splitters \<subseteq> index_names defaults"
proof -
  have "\<forall>h. RHTTPRoute h \<in> set (merged_routes ord g) \<longrightarrow> cr_Namespace h = gid_ConsulNamespace (rg_ID g)"
    using merged_routes_namespace by blast
  note folds = index_in_folds [OF this index_in_New index_in_New index_in_New]
  have eqs: "routers = foldl add_router (NewConfigEntryIndex ServiceRouter) (merged_routes ord g)"
    "splitters = foldl merge_splitters (NewConfigEntryIndex ServiceSplitter) (merged_routes ord g)"
    "defaults = foldl merge_defaults (NewConfigEntryIndex ServiceDefaults) (merged_routes ord g)"
    using assms by (simp_all add: discoveryChain_eq)
  show "index_in ServiceRouter (in_namespace (gid_ConsulNamespace (rg_ID g))) routers"
    and "index_in ServiceSplitter (in_namespace (gid_ConsulNamespace (rg_ID g))) splitters"
    and "index_in ServiceDefaults (http_default (gid_ConsulNamespace (rg_ID g))) defaults"
    and "index_names routers \<union> index_names splitters \<subseteq> index_names defaults"
    unfolding eqs using folds by simp_all
qed

lemma has_http_default:
  assumes "index_in ServiceDefaults (http_default ns) D" and "n \<in> index_names D"
  shows "\<exists>d. CE_Get D n = Some (DefaultsEntry d) \<and> sc_Namespace d = ns \<and> sc_Protocol d = ''http''"
  using assms CE_Get_Some [of D n] by (fastforce simp: index_in_def index_all_def http_default_def)

text \<open>C1: the four results of the discovery chain refer to each other consistently. Every service of an
  ingress listener that has hosts has a router under its name in the gateway's namespace, and
  every router and splitter lies in that namespace and has an HTTP service-default under its name.\<close>

theorem discoveryChain_consistent:
  assumes "discoveryChain ord g = (ingress, routers, splitters, defaults)"
  shows "(\<forall>l \<in> set (ig_Listeners ingress). \<forall>s \<in> set (il_Services l). is_Hosts s \<noteq> [] \<longrightarrow>
      is_Namespace s = ig_Namespace ingress \<and>
      (\<exists>r. CE_Get routers (is_Name s) = Some (RouterEntry r) \<and> ro_Namespace r = ig_Namespace ingress)) \<and>
    (\<forall>e \<in> set (ToArray routers) \<union> set (ToArray splitters).
      ce_GetNamespace e = ig_Namespace ingress \<and>
      (\<exists>d. CE_Get defaults (ce_GetName e) = Some (DefaultsEntry d) \<and>
        sc_Namespace d = ig_Namespace ingress \<and> sc_Protocol d = ''http''))"
proof (intro conjI ballI impI)
  let ?ns = "gid_ConsulNamespace (rg_ID g)"
  note ix = discoveryChain_indexes [OF assms]
  have ns: "ig_Namespace ingress = ?ns"
    using assms by (auto simp: discoveryChain_eq)
  {
    fix l s assume l: "l \<in> set (ig_Listeners ingress)" and s: "s \<in> set (il_Services l)" and hosts: "is_Hosts s \<noteq> []"
    obtain rl r where rl: "rl \<in> set (rg_Listeners g)" "r \<in> set (mergeRoutes (ord rl) g (rl_Routes rl))"
      and sr: "s = fst (routeDiscoveryChain r)"
      using l s assms by (auto simp: discoveryChain_eq ingress_listener_def)
    then obtain h where h: "r = RHTTPRoute h"
      using hosts by (cases r) auto
    have mem: "RHTTPRoute h \<in> set (merged_routes ord g)"
      using rl h by (auto simp: merged_routes_def)
    then show "is_Namespace s = ig_Namespace ingress"
      by (simp add: ns sr h fst_routeDiscoveryChain_http merged_routes_namespace del: routeDiscoveryChain.simps)
    have "find (\<lambda>h'. cr_Name h' = cr_Name h) (rev (http_routes (merged_routes ord g))) \<noteq> None"
      using mem by (auto simp: find_None_iff set_http_routes)
    then obtain h' where "find (\<lambda>h'. cr_Name h' = cr_Name h) (rev (http_routes (merged_routes ord g))) = Some h'"
      by blast
    then have "CE_Get routers (cr_Name h) = Some (RouterEntry (fst (httpRouteDiscoveryChain h')))"
      by (simp add: discoveryChain_router [OF assms])
    moreover from this have "in_namespace ?ns (RouterEntry (fst (httpRouteDiscoveryChain h')))"
      using ix(1) by (auto simp: index_in_def index_all_def CE_Get_def ToArray_def dest!: map_of_SomeD)
    ultimately show "\<exists>r. CE_Get routers (is_Name s) = Some (RouterEntry r) \<and> ro_Namespace r = ig_Namespace ingress"
      by (auto simp: ns sr h fst_routeDiscoveryChain_http simp del: routeDiscoveryChain.simps)
  next
    fix e assume e: "e \<in> set (ToArray routers) \<union> set (ToArray splitters)"
    then show "ce_GetNamespace e = ig_Namespace ingress"
      using ix(1,2) by (auto simp: ns index_in_def index_all_def in_namespace_def)
    have "ce_GetName ` (set (ToArray routers) \<union> set (ToArray splitters)) \<subseteq> index_names defaults"
      using ix by (simp add: image_Un names_ToArray index_in_def)
    then have "ce_GetName e \<in> index_names defaults"
      using e by (simp add: image_subset_iff)
    then show "\<exists>d. CE_Get defaults (ce_GetName e) = Some (DefaultsEntry d) \<and>
        sc_Namespace d = ig_Namespace ingress \<and> sc_Protocol d = ''http''"
      unfolding ns by (rule has_http_default [OF ix(3)])
  }
qed

section \<open>Destinations\<close>

lemma rules_loop_eq:
  "rules_loop route idx rules rs sps =
     (rs @ concat (map (\<lambda>(i, rule). rule_routes route i rule) (enumerate idx rules)),
      sps @ concat (map (\<lambda>(i, rule). rule_splitters route i rule) (enumerate idx rules)))"
  by (induction rules arbitrary: idx rs sps) auto

text \<open>The name of a virtual service determines its route and its rule.\<close>

lemma dash_notin_format_uint: "CHR ''-'' \<notin> set (format_uint 10 n)"
proof (induction n rule: less_induct)
  case (less n)
  have digit: "digit_char d \<noteq> CHR ''-''" if "d < 10" for d
  proof
    assume "digit_char d = CHR ''-''"
    then have "of_char (char_of (48 + d) :: char) = (of_char CHR ''-'' :: nat)"
      using that by (simp add: digit_char_def)
    then show False
      using that by simp
  qed
  show ?case
  proof (cases "n < 10")
    case True
    then show ?thesis
      using digit [of n] by (auto simp: format_uint.simps [of 10 n])
  next
    case False
    then show ?thesis
      using less [of "n div 10"] digit [of "n mod 10"] by (auto simp: format_uint.simps [of 10 n])
  qed
qed

lemma split_at_last:
  assumes "c \<notin> set ds" and "c \<notin> set es" and "xs @ c # ds = ys @ c # es"
  shows "xs = ys \<and> ds = es"
proof -
  have "takeWhile (\<lambda>x. x \<noteq> c) (rev (zs @ c # fs)) = rev fs" if "c \<notin> set fs" for zs fs
  proof -
    have "\<forall>x \<in> set (rev fs). x \<noteq> c"
      using that by auto
    then have "takeWhile (\<lambda>x. x \<noteq> c) (rev fs @ c # rev zs) = rev fs @ takeWhile (\<lambda>x. x \<noteq> c) (c # rev zs)"
      by (intro takeWhile_append2) blast
    then show ?thesis
      by simp
  qed
  then have "rev ds = rev es"
    using assms by metis
  then show ?thesis
    using assms(3) by simp
qed

lemma virtual_service_inject [simp]: "virtual_service a i = virtual_service b j \<longleftrightarrow> a = b \<and> i = j"
proof
  assume "virtual_service a i = virtual_service b j"
  then have "a = b \<and> format_uint 10 i = format_uint 10 j"
    using split_at_last [OF dash_notin_format_uint dash_notin_format_uint, of a i b j] by (simp add: virtual_service_def)
  then show "a = b \<and> i = j"
    by (simp add: format_uint_inject)
qed simp

lemma rule_splitters_cases:
  "rule_splitters route idx rule = [] \<or>
   (\<exists>sp. rule_splitters route idx rule = [sp] \<and> ss_Name sp = virtual_service (cr_Name route) idx)"
  by (auto simp: rule_splitters_def rule_destination_def Let_def split: list.splits)

lemma splitter_names:
  "distinct (map ss_Name (concat (map (\<lambda>(i, rule). rule_splitters route i rule) (enumerate k rules)))) \<and>
   ss_Name ` set (concat (map (\<lambda>(i, rule). rule_splitters route i rule) (enumerate k rules)))
     \<subseteq> virtual_service (cr_Name route) ` {k..}"
proof (induction rules arbitrary: k)
  case (Cons rule rules)
  let ?N = "virtual_service (cr_Name route)"
  define sps where "sps = concat (map (\<lambda>(i, rule). rule_splitters route i rule) (enumerate (Suc k) rules))"
  have IH: "distinct (map ss_Name sps)" "ss_Name ` set sps \<subseteq> ?N ` {Suc k..}"
    unfolding sps_def using Cons.IH [of "Suc k"] by (simp_all only:)
  have step: "concat (map (\<lambda>(i, rule). rule_splitters route i rule) (enumerate k (rule # rules))) =
      rule_splitters route k rule @ sps"
    by (simp add: sps_def)
  have "?N k \<notin> ?N ` {Suc k..}" and "?N ` {Suc k..} \<subseteq> ?N ` {k..}" and "?N k \<in> ?N ` {k..}"
    by auto
  then have "?N k \<notin> ss_Name ` set sps" and "ss_Name ` set sps \<subseteq> ?N ` {k..}" and "?N k \<in> ?N ` {k..}"
    using IH(2) by blast+
  then show ?case
    unfolding step using IH(1) rule_splitters_cases [of route k rule] by auto
qed simp

lemma httpRouteDiscoveryChain_splitters:
  "distinct (map ss_Name (snd (httpRouteDiscoveryChain h)))"
  "sp \<in> set (snd (httpRouteDiscoveryChain h)) \<Longrightarrow> \<exists>i. ss_Name sp = virtual_service (cr_Name h) i"
proof -
  have "snd (httpRouteDiscoveryChain h) = concat (map (\<lambda>(i, rule). rule_splitters h i rule) (enumerate 0 (ht_Rules h)))"
    by (simp add: httpRouteDiscoveryChain_def rules_loop_eq)
  note names = splitter_names [of h 0 "ht_Rules h", folded this]
  show "distinct (map ss_Name (snd (httpRouteDiscoveryChain h)))"
    using names by simp
  show "\<exists>i. ss_Name sp = virtual_service (cr_Name h) i" if "sp \<in> set (snd (httpRouteDiscoveryChain h))"
    using names that by blast
qed

text \<open>The splitter stored under a name is that of the last merged route that defines one.\<close>

lemma ix_kind_add_splits: "ix_kind (fst (add_splits splits sd meta S D)) = ix_kind S"
  by (induction splits sd meta S D rule: add_splits.induct) auto

lemma index_ok_add_splits: "index_ok S \<Longrightarrow> index_ok (fst (add_splits splits sd meta S D))"
  by (induction splits sd meta S D rule: add_splits.induct) auto

lemma add_splits_lookup:
  assumes "ix_kind S = ServiceSplitter" and "distinct (map ss_Name splits)"
  shows "CE_Get (fst (add_splits splits sd meta S D)) n =
    (case find (\<lambda>sp. ss_Name sp = n) splits of None \<Rightarrow> CE_Get S n | Some sp \<Rightarrow> Some (SplitterEntry sp))"
  using assms
proof (induction splits sd meta S D rule: add_splits.induct)
  case (2 sp splits sd meta S D)
  have "find (\<lambda>x. ss_Name x = n) splits = None" if "ss_Name sp = n"
    using that "2.prems"(2) unfolding find_None_iff by (metis distinct.simps(2) image_eqI list.simps(9) set_map)
  then show ?case
    using 2 by (auto simp: CE_Get_def lookup_CE_Add split: option.split)
qed simp

lemma merge_splitters_lookup:
  assumes "ix_kind S = ServiceSplitter"
  shows "CE_Get (merge_splitters S (RHTTPRoute h)) n =
    (case find (\<lambda>sp. ss_Name sp = n) (snd (httpRouteDiscoveryChain h)) of
       None \<Rightarrow> CE_Get S n | Some sp \<Rightarrow> Some (SplitterEntry sp))"
proof -
  obtain router splits where h: "httpRouteDiscoveryChain h = (router, splits)"
    by (rule prod.exhaust)
  define sd where "sd = httpServiceDefault (RouterEntry router) (cr_Meta h)"
  define T where "T = fst (add_splits splits sd (cr_Meta h) (NewConfigEntryIndex ServiceSplitter)
      (CE_Add (NewConfigEntryIndex ServiceDefaults) (Some (DefaultsEntry sd))))"
  have "merge_splitters S (RHTTPRoute h) = CE_Merge S (Some T)"
    by (simp add: merge_splitters_def h Let_def sd_def T_def split: prod.splits)
  moreover have "index_ok T" and "ix_kind T = ServiceSplitter"
    by (simp_all add: T_def index_ok_add_splits ix_kind_add_splits)
  moreover have "CE_Get T n = map_option SplitterEntry (find (\<lambda>sp. ss_Name sp = n) splits)"
    using httpRouteDiscoveryChain_splitters(1) [of h]
    by (simp add: T_def h add_splits_lookup split: option.split)
  ultimately show ?thesis
    using assms by (simp add: CE_Get_def lookup_CE_Merge h split: option.split)
qed

lemma ix_kind_merge_splitters: "ix_kind (merge_splitters S r) = ix_kind S"
  by (simp add: merge_splitters_def split: prod.splits)

lemma ix_kind_foldl_merge: "ix_kind (foldl merge_splitters S rs) = ix_kind S"
  by (induction rs rule: rev_induct) (simp_all add: ix_kind_merge_splitters)

lemma find_key: "x \<in> set xs \<Longrightarrow> distinct (map f xs) \<Longrightarrow> find (\<lambda>y. f y = f x) xs = Some x"
  by (induction xs) (auto simp: image_iff)

lemma merge_splitters_tcp: "merge_splitters S (RTCPRoute t) = S"
  by (simp add: merge_splitters_def)

lemma last_splitter:
  assumes "ix_kind S = ServiceSplitter" and "sp \<in> set (snd (httpRouteDiscoveryChain m))"
    and "\<forall>h \<in> set (http_routes ys). cr_Name h \<noteq> cr_Name m"
  shows "CE_Get (foldl merge_splitters S (xs @ RHTTPRoute m # ys)) (ss_Name sp) = Some (SplitterEntry sp)"
  using assms(3)
proof (induction ys rule: rev_induct)
  case Nil
  have "find (\<lambda>x. ss_Name x = ss_Name sp) (snd (httpRouteDiscoveryChain m)) = Some sp"
    using assms(2) httpRouteDiscoveryChain_splitters(1) [of m] by (rule find_key)
  then show ?case
    using assms(1) by (simp add: merge_splitters_lookup ix_kind_foldl_merge)
next
  case (snoc r ys)
  have IH: "CE_Get (foldl merge_splitters S (xs @ RHTTPRoute m # ys)) (ss_Name sp) = Some (SplitterEntry sp)"
    using snoc by (simp add: http_routes_append)
  show ?case
  proof (cases r)
    case (RTCPRoute t)
    then show ?thesis
      using IH by (simp add: merge_splitters_tcp)
  next
    case (RHTTPRoute h)
    have "cr_Name h \<noteq> cr_Name m"
      using snoc.prems by (simp add: http_routes_append RHTTPRoute) (simp add: http_routes_def)
    then have "find (\<lambda>x. ss_Name x = ss_Name sp) (snd (httpRouteDiscoveryChain h)) = None"
      using httpRouteDiscoveryChain_splitters(2) [of _ h] httpRouteDiscoveryChain_splitters(2) [OF assms(2)]
      by (fastforce simp: find_None_iff)
    then show ?thesis
      using IH assms(1) by (simp add: RHTTPRoute merge_splitters_lookup ix_kind_merge_splitters ix_kind_foldl_merge)
  qed
qed

lemma last_http_route:
  "find (\<lambda>h. cr_Name h = n) (rev (http_routes rs)) = Some m \<Longrightarrow>
   \<exists>xs ys. rs = xs @ RHTTPRoute m # ys \<and> cr_Name m = n \<and> (\<forall>h \<in> set (http_routes ys). cr_Name h \<noteq> n)"
proof (induction rs rule: rev_induct)
  case Nil
  then show ?case by (simp add: http_routes_def)
next
  case (snoc r rs)
  show ?case
  proof (cases "\<exists>h. r = RHTTPRoute h \<and> cr_Name h = n")
    case True
    then show ?thesis
      using snoc.prems by (intro exI [of _ rs] exI [of _ "[]"]) (auto simp: http_routes_def)
  next
    case False
    then have "find (\<lambda>h. cr_Name h = n) (rev (http_routes rs)) = Some m"
      using snoc.prems by (cases r) (auto simp: http_routes_def)
    then obtain xs ys where "rs = xs @ RHTTPRoute m # ys" "cr_Name m = n" "\<forall>h \<in> set (http_routes ys). cr_Name h \<noteq> n"
      using snoc.IH by blast
    then show ?thesis
      using False by (intro exI [of _ xs] exI [of _ "ys @ [r]"]) (cases r; auto simp: http_routes_def)
  qed
qed

text \<open>What a route of a router does for the match it was made from: it matches the same requests and leads to the only
  service of the match's rule, or to the splitter with the weighted services of that rule. A rule with several services
  that all have weight 0, or with none, has no splitter of its own.\<close>

definition route_serves :: "ConfigEntryIndex \<Rightarrow> ServiceRoute \<Rightarrow> hostnameMatch \<Rightarrow> bool" where
  "route_serves splitters sr e \<longleftrightarrow>
     sr_Match sr = Some (httpRouteMatchToServiceRouteHTTPMatch (hn_match e)) \<and>
     (case hn_services e of
        [s] \<Rightarrow> sd_Service (sr_Destination sr) = rs_Service (hs_Service s) \<and>
          sd_Namespace (sr_Destination sr) = rs_ConsulNamespace (hs_Service s)
      | services \<Rightarrow> list_all (\<lambda>s. hs_Weight s = 0) services \<or>
          (\<exists>sp. CE_Get splitters (sd_Service (sr_Destination sr)) = Some (SplitterEntry sp) \<and>
            ss_Splits sp = split_loop (total_weight services) services))"

lemma consolidated_rule_routes:
  assumes "\<forall>sp \<in> set (rule_splitters route idx (consolidated_rule e)). CE_Get splitters (ss_Name sp) = Some (SplitterEntry sp)"
  shows "\<exists>sr. rule_routes route idx (consolidated_rule e) = [sr] \<and> route_serves splitters sr e"
proof -
  obtain sr where sr: "rule_routes route idx (consolidated_rule e) = [sr]"
    and match: "sr_Match sr = Some (httpRouteMatchToServiceRouteHTTPMatch (hn_match e))"
    and dest: "sd_Service (sr_Destination sr) = rs_Service (rule_destination route idx (consolidated_rule e))"
      "sd_Namespace (sr_Destination sr) = rs_ConsulNamespace (rule_destination route idx (consolidated_rule e))"
    by (simp add: rule_routes_def consolidated_rule_def Let_def)
  have "route_serves splitters sr e"
  proof (cases "\<exists>s. hn_services e = [s]")
    case True
    then show ?thesis
      by (auto simp: route_serves_def match dest rule_destination_def consolidated_rule_def)
  next
    case False
    then have len: "length (hn_services e) \<noteq> 1"
      by (auto simp: length_Suc_conv)
    have split: "list_all (\<lambda>s. hs_Weight s = 0) (hn_services e) \<or>
        (\<exists>sp. CE_Get splitters (sd_Service (sr_Destination sr)) = Some (SplitterEntry sp) \<and>
          ss_Splits sp = split_loop (total_weight (hn_services e)) (hn_services e))"
    proof (cases "split_loop (total_weight (hn_services e)) (hn_services e) = []")
      case True
      then show ?thesis
        by (auto simp: split_loop_filter filter_empty_conv list_all_iff)
    next
      case False
      then show ?thesis
        using len assms by (simp add: rule_splitters_def Let_def dest consolidated_rule_def)
    qed
    then show ?thesis
      using False match by (auto simp: route_serves_def split: list.split)
  qed
  with sr show ?thesis by blast
qed

lemma list_all2_enumerate:
  "(\<And>i x. (i, x) \<in> set (enumerate k xs) \<Longrightarrow> \<exists>y. f i x = [y] \<and> P y x) \<Longrightarrow>
   list_all2 P (concat (map (\<lambda>(i, x). f i x) (enumerate k xs))) xs"
proof (induction xs arbitrary: k)
  case (Cons x xs)
  obtain y where "f k x = [y]" "P y x"
    using Cons.prems [of k x] by auto
  moreover have "list_all2 P (concat (map (\<lambda>(i, x). f i x) (enumerate (Suc k) xs))) xs"
    by (rule Cons.IH) (rule Cons.prems, simp)
  ultimately show ?case by simp
qed simp

lemma enumerate_map: "enumerate k (map f xs) = map (\<lambda>(i, x). (i, f x)) (enumerate k xs)"
  by (induction xs arbitrary: k) auto

lemma hostname_router_serves:
  assumes "\<forall>sp \<in> set (snd (httpRouteDiscoveryChain (hostname_route g host es))). CE_Get splitters (ss_Name sp) = Some (SplitterEntry sp)"
  shows "list_all2 (route_serves splitters) (ro_Routes (fst (httpRouteDiscoveryChain (hostname_route g host es))))
    (sort_key (\<lambda>e. precedence (hn_match e)) es)"
proof -
  let ?m = "hostname_route g host es" and ?es = "sort_key (\<lambda>e. precedence (hn_match e)) es"
  have "list_all2 (route_serves splitters)
      (concat (map (\<lambda>(i, e). rule_routes ?m i (consolidated_rule e)) (enumerate 0 ?es))) ?es"
  proof (rule list_all2_enumerate, rule consolidated_rule_routes)
    fix i e assume "(i, e) \<in> set (enumerate 0 ?es)"
    then have "set (rule_splitters ?m i (consolidated_rule e)) \<subseteq> set (snd (httpRouteDiscoveryChain ?m))"
      by (auto simp: httpRouteDiscoveryChain_def rules_loop_eq hostname_route_rules enumerate_map)
    then show "\<forall>sp \<in> set (rule_splitters ?m i (consolidated_rule e)). CE_Get splitters (ss_Name sp) = Some (SplitterEntry sp)"
      using assms by blast
  qed
  then show ?thesis
    by (simp add: httpRouteDiscoveryChain_def rules_loop_eq hostname_route_rules enumerate_map comp_def case_prod_unfold)
qed

text \<open>C8: every router of the discovery chain is that of a hostname of one of the gateway's listeners, and its routes
  are, one for one and in order, those of the matches that the listener's routes give for the hostname, in the order of
  precedence. Each route matches what its match asks for and leads to the only service of the rule the match comes from,
  or to a splitter that the chain defines with the weighted services of that very rule; only a rule without any service
  of non-zero weight (and without exactly one service) is left without a destination of its own.\<close>

theorem discoveryChain_destinations:
  assumes "discoveryChain ord g = (ingress, routers, splitters, defaults)"
    and "RouterEntry r \<in> set (ToArray routers)"
  shows "\<exists>l \<in> set (rg_Listeners g). \<exists>host \<in> (\<Union>h \<in> set (http_routes (rl_Routes l)). set (ht_Hostnames h)).
    ro_Name r = gid_Service (rg_ID g) @ ''-'' @ hostsKey [host] \<and>
    list_all2 (route_serves splitters) (ro_Routes r)
      (sort_key (\<lambda>e. precedence (hn_match e)) (host_entries host (http_routes (rl_Routes l))))"
proof -
  note ix = discoveryChain_indexes [OF assms(1)]
  have "CE_Get routers (ro_Name r) = Some (RouterEntry r)"
    using assms(2) ix(1) set_ToArray [of routers "RouterEntry r"] by (simp add: index_in_def CE_Get_def)
  then obtain m where m: "find (\<lambda>h. cr_Name h = ro_Name r) (rev (http_routes (merged_routes ord g))) = Some m"
    and r: "r = fst (httpRouteDiscoveryChain m)"
    by (auto simp: discoveryChain_router [OF assms(1)])
  obtain xs ys where split: "merged_routes ord g = xs @ RHTTPRoute m # ys" and name: "cr_Name m = ro_Name r"
    and "\<forall>h \<in> set (http_routes ys). cr_Name h \<noteq> ro_Name r"
    using last_http_route [OF m] by (elim exE conjE)
  from this(3) have ys: "\<forall>h \<in> set (http_routes ys). cr_Name h \<noteq> cr_Name m"
    by (simp add: name)
  have "splitters = foldl merge_splitters (NewConfigEntryIndex ServiceSplitter) (xs @ RHTTPRoute m # ys)"
    using assms(1) by (simp add: discoveryChain_eq split)
  then have splitters: "\<forall>sp \<in> set (snd (httpRouteDiscoveryChain m)). CE_Get splitters (ss_Name sp) = Some (SplitterEntry sp)"
    using last_splitter [OF _ _ ys] by simp
  obtain l where l: "l \<in> set (rg_Listeners g)" and "m \<in> set (http_routes (mergeRoutes (ord l) g (rl_Routes l)))"
    using arg_cong [OF split, of "\<lambda>rs. RHTTPRoute m \<in> set rs"] by (auto simp: merged_routes_def set_http_routes)
  from this(2) obtain host where host: "m = hostname_route g host (host_entries host (http_routes (rl_Routes l)))"
    and in_l: "\<exists>h \<in> set (http_routes (rl_Routes l)). host \<in> set (ht_Hostnames h)"
    by (rule merged_http_route)
  show ?thesis
  proof (intro bexI [OF _ l] bexI [of _ host] conjI)
    show "ro_Name r = gid_Service (rg_ID g) @ ''-'' @ hostsKey [host]"
      by (simp add: name [symmetric] host)
    show "list_all2 (route_serves splitters) (ro_Routes r)
        (sort_key (\<lambda>e. precedence (hn_match e)) (host_entries host (http_routes (rl_Routes l))))"
      using splitters unfolding r host by (rule hostname_router_serves)
  qed (use in_l in blast)
qed

section \<open>Ingress listeners\<close>

definition serves :: "ResolvedListener \<Rightarrow> bool" where
  "serves l \<longleftrightarrow> tcp_routes (rl_Routes l) \<noteq> [] \<or> (\<exists>h \<in> set (http_routes (rl_Routes l)). ht_Hostnames h \<noteq> [])"

lemma mergeRoutes_Nil_iff: "mergeRoutes o' g (rl_Routes l) \<noteq> [] \<longleftrightarrow> serves l"
proof -
  have "consolidate o' (foldl consolidator_add newRouteConsolidator hs) g = [] \<longleftrightarrow> (\<forall>h \<in> set hs. ht_Hostnames h = [])" for hs
    using consolidate_entries [of o' hs g] by (auto simp flip: set_empty)
  then show ?thesis
    by (auto simp: mergeRoutes_eq serves_def take_eq_Nil)
qed





text \<open>C10: the router of a hostname is built from the last listener, in the order of the gateway, that
  serves the hostname: earlier listeners' rules for the same hostname are not in it. This needs that the name of the
  router, which holds only a CRC-32 of the hostname, is not also that of another hostname of the same listener or of any
  hostname of a later listener.\<close>

theorem discoveryChain_last_router:
  assumes "discoveryChain ord g = (ingress, routers, splitters, defaults)"
    and "rg_Listeners g = before @ l # after"
    and "\<exists>h \<in> set (http_routes (rl_Routes l)). host \<in> set (ht_Hostnames h)"
    and "\<forall>l' \<in> set after. \<forall>h \<in> set (http_routes (rl_Routes l')). \<forall>host' \<in> set (ht_Hostnames h). hostsKey [host'] \<noteq> hostsKey [host]"
    and "\<forall>h \<in> set (http_routes (rl_Routes l)). \<forall>host' \<in> set (ht_Hostnames h). hostsKey [host'] = hostsKey [host] \<longrightarrow> host' = host"
  shows "CE_Get routers (gid_Service (rg_ID g) @ ''-'' @ hostsKey [host]) =
    Some (RouterEntry (fst (httpRouteDiscoveryChain (hostname_route g host (host_entries host (http_routes (rl_Routes l)))))))"
proof -
  let ?n = "gid_Service (rg_ID g) @ ''-'' @ hostsKey [host]"
  let ?m = "hostname_route g host (host_entries host (http_routes (rl_Routes l)))"
  let ?hs = "\<lambda>ls. concat (map (\<lambda>l. http_routes (mergeRoutes (ord l) g (rl_Routes l))) ls)"
  have "http_routes (concat xss) = concat (map http_routes xss)" for xss
    by (induction xss) (simp_all add: http_routes_def)
  then have split: "http_routes (merged_routes ord g) = ?hs before @ http_routes (mergeRoutes (ord l) g (rl_Routes l)) @ ?hs after"
    by (simp add: merged_routes_def assms(2) comp_def http_routes_append)
  have after: "find (\<lambda>h. cr_Name h = ?n) (rev (?hs after)) = None"
    unfolding find_None_iff using assms(4) by (fastforce elim: merged_http_route)
  have mem: "?m \<in> set (http_routes (mergeRoutes (ord l) g (rl_Routes l)))"
    unfolding http_routes_merge consolidate_entries using assms(3) by blast
  have only: "m = ?m" if "m \<in> set (http_routes (mergeRoutes (ord l) g (rl_Routes l)))" and "cr_Name m = ?n" for m
    using that(1) by (rule merged_http_route) (use that(2) assms(5) in auto)
  have here: "find (\<lambda>h. cr_Name h = ?n) (rev (http_routes (mergeRoutes (ord l) g (rl_Routes l)))) = Some ?m"
  proof (cases "find (\<lambda>h. cr_Name h = ?n) (rev (http_routes (mergeRoutes (ord l) g (rl_Routes l))))")
    case None
    then show ?thesis
      using mem by (simp only: find_None_iff set_rev) (metis hostname_route_simps(2))
  next
    case (Some m)
    then show ?thesis
      using find_SomeD [OF Some] only by simp
  qed
  show ?thesis
    by (simp only: discoveryChain_router [OF assms(1)] split rev_append append_assoc find_append after here
        option.case option.map)
qed

section \<open>Examples\<close>

definition example_listener :: "int \<Rightarrow> HTTPRoute list \<Rightarrow> ResolvedListener" where
  "example_listener port routes =
     \<lparr>rl_Name = ''http'', rl_Hostname = '''', rl_Port = port, rl_Protocol = ''http'', rl_TLS = zero_TLSParams,
      rl_Routes = map RHTTPRoute routes\<rparr>"

lemma http_routes_example [simp]: "http_routes (rl_Routes (example_listener port routes)) = routes"
  by (induction routes) (simp_all add: example_listener_def http_routes_def)

lemma serves_example [simp]:
  "serves (example_listener port routes) \<longleftrightarrow> (\<exists>h \<in> set routes. ht_Hostnames h \<noteq> [])"
proof -
  have "tcp_routes (rl_Routes (example_listener port routes)) = []"
    by (induction routes) (simp_all add: example_listener_def tcp_routes_def)
  then show ?thesis
    by (simp add: serves_def)
qed

lemma example_simps [simp]:
  "rg_Listeners (example_gateway ls) = ls"
  "gid_Service (rg_ID (example_gateway ls)) = ''gw''"
  "ht_Hostnames (example_route host path service) = [host]"
  "rl_Port (example_listener port routes) = port"
  "rl_Protocol (example_listener port routes) = ''http''"
  by (simp_all add: example_gateway_def example_route_def example_listener_def)

text \<open>The order in which the hostnames were added.\<close>

definition insertion_order :: host_order where
  "insertion_order l f = f"

text \<open>The destinations of the router stored under the name of a hostname.\<close>

definition host_destinations :: "host_order \<Rightarrow> ResolvedGateway \<Rightarrow> string \<Rightarrow> string list" where
  "host_destinations ord g host =
     (case discoveryChain ord g of (_, routers, _, _) \<Rightarrow>
        (case CE_Get routers (gid_Service (rg_ID g) @ ''-'' @ hostsKey [host]) of
           Some (RouterEntry r) \<Rightarrow> map (\<lambda>sr. sd_Service (sr_Destination sr)) (ro_Routes r)
         | _ \<Rightarrow> []))"

lemma host_entries_example:
  "host_entries host (example_route host' path service # rs) =
     (if host' = host then rule_entries (example_rule path service) else []) @ host_entries host rs"
  "host_entries host [] = []"
  by (simp_all add: host_entries_def example_route_def)

lemma example_destinations:
  "map (\<lambda>sr. sd_Service (sr_Destination sr))
     (ro_Routes (fst (httpRouteDiscoveryChain (hostname_route g host (rule_entries (example_rule path service)))))) = [service]"
  by (simp add: httpRouteDiscoveryChain_def rules_loop_eq hostname_route_rules rule_entries_def example_rule_def
      rule_routes_def Let_def consolidated_rule_def rule_destination_def example_service_def)

theorem discoveryChain_last_router_witness:
  "CE_Get (fst (snd (discoveryChain insertion_order (example_gateway [example_listener 80 [example_route ''h'' ''/'' ''a'']]))))
     (''gw'' @ ''-'' @ hostsKey [''h'']) =
   Some (RouterEntry (fst (httpRouteDiscoveryChain
     (hostname_route (example_gateway [example_listener 80 [example_route ''h'' ''/'' ''a'']]) ''h''
       (host_entries ''h'' [example_route ''h'' ''/'' ''a''])))))"
proof -
  let ?l = "example_listener 80 [example_route ''h'' ''/'' ''a'']"
  obtain i r s d where "discoveryChain insertion_order (example_gateway [?l]) = (i, r, s, d)"
    by (rule prod_cases4)
  from discoveryChain_last_router [OF this, of "[]" ?l "[]" "''h''"] this show ?thesis
    by simp
qed

theorem discoveryChain_consistent_witness:
  "\<exists>ingress routers splitters defaults.
     discoveryChain insertion_order (example_gateway [example_listener 80 [example_route ''h'' ''/'' ''a'']]) =
       (ingress, routers, splitters, defaults) \<and>
     length (ig_Listeners ingress) = 1 \<and>
     (\<forall>l \<in> set (ig_Listeners ingress). \<forall>s \<in> set (il_Services l). is_Hosts s \<noteq> [] \<longrightarrow>
        is_Namespace s = ig_Namespace ingress \<and>
        (\<exists>r. CE_Get routers (is_Name s) = Some (RouterEntry r) \<and> ro_Namespace r = ig_Namespace ingress))"
proof -
  let ?g = "example_gateway [example_listener 80 [example_route ''h'' ''/'' ''a'']]"
  obtain i r s d where dc: "discoveryChain insertion_order ?g = (i, r, s, d)"
    by (rule prod_cases4)
  have "ig_Listeners (fst (discoveryChain insertion_order ?g)) = map (ingress_listener insertion_order ?g) (rg_Listeners ?g)"
    by (simp add: discoveryChain_eq mergeRoutes_Nil_iff)
  then have len: "length (ig_Listeners i) = 1"
    by (simp add: dc)
  show ?thesis
    by (intro exI conjI) (fact dc, fact len, fact conjunct1 [OF discoveryChain_consistent [OF dc]])
qed

theorem discoveryChain_destinations_witness:
  "\<exists>ingress routers splitters defaults r.
     discoveryChain insertion_order (example_gateway [example_listener 80 [example_route ''h'' ''/'' ''a'']]) =
       (ingress, routers, splitters, defaults) \<and>
     RouterEntry r \<in> set (ToArray routers) \<and> length (ro_Routes r) = 1 \<and>
     (\<exists>l \<in> set (rg_Listeners (example_gateway [example_listener 80 [example_route ''h'' ''/'' ''a'']])).
       \<exists>host \<in> (\<Union>h \<in> set (http_routes (rl_Routes l)). set (ht_Hostnames h)).
        ro_Name r = gid_Service (rg_ID (example_gateway [example_listener 80 [example_route ''h'' ''/'' ''a'']])) @ ''-'' @ hostsKey [host] \<and>
        list_all2 (route_serves splitters) (ro_Routes r)
          (sort_key (\<lambda>e. precedence (hn_match e)) (host_entries host (http_routes (rl_Routes l)))))"
proof -
  let ?g = "example_gateway [example_listener 80 [example_route ''h'' ''/'' ''a'']]"
  let ?m = "hostname_route ?g ''h'' (host_entries ''h'' [example_route ''h'' ''/'' ''a''])"
  let ?r = "fst (httpRouteDiscoveryChain ?m)"
  obtain i r s d where dc: "discoveryChain insertion_order ?g = (i, r, s, d)"
    by (rule prod_cases4)
  have "http_routes (merged_routes insertion_order ?g) = [?m]"
    by (simp add: merged_routes_def http_routes_merge newRouteConsolidator_def consolidator_add_def consolidate_def
        add_rules_eq host_entries_def)
  then have get: "CE_Get r (cr_Name ?m) = Some (RouterEntry ?r)"
    by (simp add: discoveryChain_router [OF dc])
  then have mem: "RouterEntry ?r \<in> set (ToArray r)"
    by (rule CE_Get_ToArray)
  have "map (\<lambda>sr. sd_Service (sr_Destination sr)) (ro_Routes ?r) = [''a'']"
    by (simp add: example_destinations host_entries_example)
  from arg_cong [OF this, of length] have len: "length (ro_Routes ?r) = 1"
    by simp
  show ?thesis
    by (intro exI conjI) (fact dc, fact mem, fact len, fact discoveryChain_destinations [OF dc mem])
qed

section \<open>Where the names collide\<close>

text \<open>C35: two listeners of one gateway that serve the same hostname share a router: whatever services the
  first listener's routes name, requests that arrive at it for the hostname are routed to the
  service of the second listener's route.\<close>

theorem listeners_share_router:
  "host_destinations ord (example_gateway
     [example_listener port1 [example_route host path service1], example_listener port2 [example_route host path service2]]) host =
   [service2]"
proof -
  let ?l1 = "example_listener port1 [example_route host path service1]"
  let ?l2 = "example_listener port2 [example_route host path service2]"
  let ?g = "example_gateway [?l1, ?l2]"
  let ?m = "\<lambda>s. hostname_route ?g host (host_entries host [example_route host path s])"
  obtain i r s d where dc: "discoveryChain ord ?g = (i, r, s, d)"
    by (rule prod_cases4)
  have "http_routes (merged_routes ord ?g) = [?m service1, ?m service2]"
    by (simp add: merged_routes_def http_routes_append http_routes_merge newRouteConsolidator_def
        consolidator_add_def consolidate_def add_rules_eq host_entries_def)
  then have "CE_Get r (''gw'' @ ''-'' @ hostsKey [host]) = Some (RouterEntry (fst (httpRouteDiscoveryChain (?m service2))))"
    by (simp add: discoveryChain_router [OF dc])
  then show ?thesis
    by (simp add: host_destinations_def dc example_destinations host_entries_example)
qed

lemma crc32_collision: "crc32_ieee ''plumless'' = crc32_ieee ''buckeroo''"
  by (simp add: crc32_ieee_def crc_byte_def funpow_8 crc_shift_def)

definition colliding_gateway :: "int \<Rightarrow> string \<Rightarrow> string \<Rightarrow> string \<Rightarrow> ResolvedGateway" where
  "colliding_gateway port path service1 service2 = example_gateway
     [example_listener port [example_route ''plumless'' path service1, example_route ''buckeroo'' path service2]]"

text \<open>C36: two different hostnames can share a router, because the router's name keeps only the CRC-32 of the
  hostname: with a route for each of two colliding hostnames on one listener, both hostnames are
  routed to the service of the same one of the two routes, whichever order the hostnames are visited in. Which of the
  two services is lost depends on that order, which Go leaves open.\<close>

theorem hostnames_share_router:
  "host_destinations ord (colliding_gateway port path service1 service2) ''plumless'' =
     host_destinations ord (colliding_gateway port path service1 service2) ''buckeroo'' \<and>
   host_destinations ord (colliding_gateway port path service1 service2) ''plumless'' \<in> {[service1], [service2]} \<and>
   host_destinations insertion_order (colliding_gateway port path service1 service2) ''plumless'' = [service2] \<and>
   host_destinations (\<lambda>_. rev) (colliding_gateway port path service1 service2) ''plumless'' = [service1]"
proof -
  define g where "g = colliding_gateway port path service1 service2"
  let ?rs = "[example_route ''plumless'' path service1, example_route ''buckeroo'' path service2]"
  let ?l = "example_listener port ?rs"
  let ?m = "\<lambda>h. hostname_route g h (host_entries h ?rs)"
  let ?f = "[(''plumless'', host_entries ''plumless'' ?rs), (''buckeroo'', host_entries ''buckeroo'' ?rs)]"
  have gw: "gid_Service (rg_ID g) = ''gw''"
    by (simp add: g_def colliding_gateway_def)
  have key: "hostsKey [''plumless''] = hostsKey [''buckeroo'']"
    by (simp add: hostsKey_def crc32_collision)
  have "foldl consolidator_add newRouteConsolidator ?rs = ?f"
    by (simp add: newRouteConsolidator_def consolidator_add_def add_rules_eq host_entries_def)
  then have merged: "http_routes (merged_routes ord g) = map (\<lambda>(h, es). hostname_route g h es) (go_range (ord ?l) ?f)" for ord
    by (simp add: g_def colliding_gateway_def merged_routes_def http_routes_append http_routes_merge consolidate_def)
  have dest: "host_destinations ord g h = [if b then service2 else service1]"
    if "go_range (ord ?l) ?f = (if b then ?f else rev ?f)" and "h \<in> {''plumless'', ''buckeroo''}" for ord b h
  proof -
    obtain i r s d where dc: "discoveryChain ord g = (i, r, s, d)"
      by (rule prod_cases4)
    have "CE_Get r (''gw'' @ ''-'' @ hostsKey [h]) =
        Some (RouterEntry (fst (httpRouteDiscoveryChain (?m (if b then ''buckeroo'' else ''plumless'')))))"
      using that by (auto simp: discoveryChain_router [OF dc] merged key gw)
    then show ?thesis
      by (cases b) (simp_all add: host_destinations_def dc gw example_destinations host_entries_example)
  qed
  have "go_range (ord ?l) ?f = ?f \<or> go_range (ord ?l) ?f = rev ?f"
    using go_range_pair [of "ord ?l"] by simp
  then obtain b where "go_range (ord ?l) ?f = (if b then ?f else rev ?f)"
    by metis
  note any = dest [where ord = ord, OF this]
  have "go_range (insertion_order ?l) ?f = ?f" and "go_range rev ?f = rev ?f"
    by (simp_all add: go_range_def insertion_order_def)
  then have "host_destinations insertion_order g ''plumless'' = [service2]"
    and "host_destinations (\<lambda>_. rev) g ''plumless'' = [service1]"
    using dest [of insertion_order True "''plumless''"] dest [of "\<lambda>_. rev" False "''plumless''"] by simp_all
  then show ?thesis
    using any [of "''plumless''"] any [of "''buckeroo''"] unfolding g_def by simp
qed

end
