(* ===== verification/Intentions.thy ===== *)
theory Intentions
  imports Consul_API Service_Names
begin

text \<open>
  \<open>internal/consul/intentions.go\<close> and \<open>internal/consul/disco_chain_watcher.go\<close>: the reconciler that
  keeps, in the intentions of every service behind the gateway, a source that allows the gateway.
  A watcher is an element of a list and its pointer an index into the list, so that a cancelled
  watcher whose goroutine still runs can be told from the watcher that replaced it. The goroutines
  interleave in the step relation \<open>ir_step\<close>.
\<close>

section \<open>The target reference index\<close>

type_synonym intentionTargetReferenceIndex = "(CompoundServiceName, ServiceNameIndex) gomap"

definition addRef ::
  "intentionTargetReferenceIndex \<Rightarrow> CompoundServiceName \<Rightarrow> CompoundServiceName \<Rightarrow> intentionTargetReferenceIndex" where
  "addRef i target source =
     (let i1 = (if has_key i target then i else AList.update target NewServiceNameIndex i) in
      case map_of i1 target of
        Some refs \<Rightarrow> AList.update target (Add refs [source]) i1
      | None \<Rightarrow> i1)"

definition delRef ::
  "intentionTargetReferenceIndex \<Rightarrow> CompoundServiceName \<Rightarrow> CompoundServiceName \<Rightarrow> intentionTargetReferenceIndex" where
  "delRef i target source =
     (case map_of i target of
        None \<Rightarrow> i
      | Some refs \<Rightarrow>
          (let refs' = Remove refs [source]; i' = AList.update target refs' i in
           if length (All refs') = 0 then AList.delete target i' else i'))"

definition listRefs :: "intentionTargetReferenceIndex \<Rightarrow> CompoundServiceName \<Rightarrow> CompoundServiceName list" where
  "listRefs i target = (case map_of i target of None \<Rightarrow> [] | Some refs \<Rightarrow> All refs)"

definition all_targets :: "intentionTargetReferenceIndex \<Rightarrow> CompoundServiceName list" where
  "all_targets i = map fst i"

section \<open>Watchers\<close>

record discoChainWatcher =
  wt_name :: CompoundServiceName
  wt_prevResults :: ServiceNameIndex
  wt_cancelled :: bool
  wt_returned :: bool

record discoChainWatchResult =
  wr_name :: CompoundServiceName
  wr_added :: "CompoundServiceName list"
  wr_removed :: "CompoundServiceName list"

definition newDiscoChainWatcher :: "CompoundServiceName \<Rightarrow> discoChainWatcher" where
  "newDiscoChainWatcher service =
     \<lparr>wt_name = service, wt_prevResults = NewServiceNameIndex, wt_cancelled = False, wt_returned = False\<rparr>"

definition watcher_Cancel :: "discoChainWatcher \<Rightarrow> discoChainWatcher" where
  "watcher_Cancel w = w\<lparr>wt_cancelled := True\<rparr>"

record DiscoveryTarget =
  dt_Service :: string
  dt_Namespace :: string

record CompiledDiscoveryChain =
  ch_ServiceName :: string
  ch_Protocol :: string
  ch_Targets :: "(string, DiscoveryTarget) gomap"

fun chain_targets_loop ::
  "CompiledDiscoveryChain \<Rightarrow> DiscoveryTarget list \<Rightarrow> ServiceNameIndex \<Rightarrow> ServiceNameIndex" where
  "chain_targets_loop chain [] names = names"
| "chain_targets_loop chain (target # targets) names =
     chain_targets_loop chain targets
       (if dt_Service target = ch_ServiceName chain \<and> ch_Protocol chain \<noteq> ''tcp'' then names
        else Add names [\<lparr>csn_Name = dt_Service target, csn_Namespace = dt_Namespace target\<rparr>])"

definition compiledDiscoChainToServiceNames :: "CompiledDiscoveryChain \<Rightarrow> ServiceNameIndex" where
  "compiledDiscoChainToServiceNames chain =
     chain_targets_loop chain (map snd (ch_Targets chain)) NewServiceNameIndex"

text \<open>One turn of \<open>watchLoop\<close> that ends in a successful send: the result it sends and the watcher after it.\<close>

definition watch_result :: "discoChainWatcher \<Rightarrow> ServiceNameIndex \<Rightarrow> discoChainWatchResult" where
  "watch_result w names =
     (case Diff (wt_prevResults w) names of (added, removed) \<Rightarrow>
        \<lparr>wr_name = wt_name w, wr_added = added, wr_removed = removed\<rparr>)"

definition watch_sent :: "discoChainWatcher \<Rightarrow> ServiceNameIndex \<Rightarrow> discoChainWatcher" where
  "watch_sent w names = w\<lparr>wt_prevResults := names, wt_returned := wt_cancelled w\<rparr>"

section \<open>The reconciler\<close>

record IntentionsReconciler =
  ir_gatewayName :: CompoundServiceName
  ir_chainWatchers :: "(CompoundServiceName, nat) gomap"
  ir_watchers :: "discoChainWatcher list"
  ir_ingressServiceIndex :: ServiceNameIndex
  ir_targetIndex :: intentionTargetReferenceIndex
  ir_targetTombstones :: ServiceNameIndex

definition newIntentionsReconciler :: "CompoundServiceName \<Rightarrow> IntentionsReconciler" where
  "newIntentionsReconciler name =
     \<lparr>ir_gatewayName = name, ir_chainWatchers = [], ir_watchers = [],
      ir_ingressServiceIndex = NewServiceNameIndex, ir_targetIndex = [],
      ir_targetTombstones = NewServiceNameIndex\<rparr>"

fun ingress_services_loop :: "IngressService list \<Rightarrow> ServiceNameIndex \<Rightarrow> ServiceNameIndex" where
  "ingress_services_loop [] idx = idx"
| "ingress_services_loop (service # services) idx =
     ingress_services_loop services
       (Add idx [\<lparr>csn_Name = is_Name service, csn_Namespace = is_Namespace service\<rparr>])"

definition ingressToServiceIndex :: "IngressGatewayConfigEntry \<Rightarrow> ServiceNameIndex" where
  "ingressToServiceIndex igw =
     foldl (\<lambda>idx lis. ingress_services_loop (il_Services lis) idx) NewServiceNameIndex (ig_Listeners igw)"

fun cancel_removed :: "CompoundServiceName list \<Rightarrow> IntentionsReconciler \<Rightarrow> IntentionsReconciler" where
  "cancel_removed [] r = r"
| "cancel_removed (service # services) r =
     cancel_removed services
       (case map_of (ir_chainWatchers r) service of
          None \<Rightarrow> r
        | Some i \<Rightarrow> r\<lparr>ir_watchers := (ir_watchers r)[i := watcher_Cancel (ir_watchers r ! i)],
                      ir_chainWatchers := AList.delete service (ir_chainWatchers r)\<rparr>)"

fun start_added :: "CompoundServiceName list \<Rightarrow> IntentionsReconciler \<Rightarrow> IntentionsReconciler" where
  "start_added [] r = r"
| "start_added (service # services) r =
     start_added services
       (if has_key (ir_chainWatchers r) service then r
        else r\<lparr>ir_chainWatchers := AList.update service (length (ir_watchers r)) (ir_chainWatchers r),
               ir_watchers := ir_watchers r @ [newDiscoChainWatcher service]\<rparr>)"

definition updateChainWatchers :: "IngressGatewayConfigEntry \<Rightarrow> IntentionsReconciler \<Rightarrow> IntentionsReconciler" where
  "updateChainWatchers igw r =
     (let newIdx = ingressToServiceIndex igw;
          (added, removed) = Diff (ir_ingressServiceIndex r) newIdx in
      (start_added added (cancel_removed removed r))\<lparr>ir_ingressServiceIndex := newIdx\<rparr>)"

definition NewIntentionsReconciler :: "IngressGatewayConfigEntry \<Rightarrow> IntentionsReconciler" where
  "NewIntentionsReconciler ingress =
     updateChainWatchers ingress
       (newIntentionsReconciler \<lparr>csn_Name = ig_Name ingress, csn_Namespace = ig_Namespace ingress\<rparr>)"

fun handle_added :: "CompoundServiceName \<Rightarrow> CompoundServiceName list \<Rightarrow> IntentionsReconciler \<Rightarrow> IntentionsReconciler" where
  "handle_added name [] r = r"
| "handle_added name (target # targets) r =
     handle_added name targets
       (r\<lparr>ir_targetIndex := addRef (ir_targetIndex r) target name,
          ir_targetTombstones := Remove (ir_targetTombstones r) [target]\<rparr>)"

fun handle_removed :: "CompoundServiceName \<Rightarrow> CompoundServiceName list \<Rightarrow> IntentionsReconciler \<Rightarrow> IntentionsReconciler" where
  "handle_removed name [] r = r"
| "handle_removed name (target # targets) r =
     handle_removed name targets
       (let idx = delRef (ir_targetIndex r) target name in
        if length (listRefs idx target) = 0
        then r\<lparr>ir_targetIndex := idx, ir_targetTombstones := Add (ir_targetTombstones r) [target]\<rparr>
        else r\<lparr>ir_targetIndex := idx\<rparr>)"

definition handleChainResult :: "discoChainWatchResult \<Rightarrow> IntentionsReconciler \<Rightarrow> IntentionsReconciler" where
  "handleChainResult result r =
     handle_removed (wr_name result) (wr_removed result)
       (handle_added (wr_name result) (wr_added result) r)"

section \<open>Writing intentions\<close>

definition IntentionDefaultNamespace :: string where
  "IntentionDefaultNamespace = ''default''"

definition updateIntentionsMaxRetries :: nat where
  "updateIntentionsMaxRetries = 3"

text \<open>The description of the source holds the formatted time, an input of the model.\<close>

definition sourceIntention :: "string \<Rightarrow> IntentionsReconciler \<Rightarrow> SourceIntention" where
  "sourceIntention now r =
     \<lparr>si_Name = csn_Name (ir_gatewayName r), si_Namespace = csn_Namespace (ir_gatewayName r),
      si_Action = IntentionActionAllow,
      si_Description = ''Allow traffic from Consul API Gateway. Reconciled by controller at '' @ now @ ''.''\<rparr>"

definition canonicalizeDefault :: "string \<Rightarrow> string" where
  "canonicalizeDefault s = (if s = '''' then IntentionDefaultNamespace else s)"

definition sourceIntentionMatches :: "SourceIntention \<Rightarrow> SourceIntention \<Rightarrow> bool" where
  "sourceIntentionMatches a b \<longleftrightarrow>
     si_Name a = si_Name b \<and> canonicalizeDefault (si_Namespace a) = canonicalizeDefault (si_Namespace b)"

definition addSourceCB ::
  "SourceIntention \<Rightarrow> ServiceIntentionsConfigEntry \<Rightarrow> bool \<times> ServiceIntentionsConfigEntry" where
  "addSourceCB source intention =
     (if \<exists>src \<in> set (in_Sources intention). sourceIntentionMatches src source then (False, intention)
      else (True, intention\<lparr>in_Sources := in_Sources intention @ [source]\<rparr>))"

fun remove_first_source :: "SourceIntention \<Rightarrow> SourceIntention list \<Rightarrow> SourceIntention list option" where
  "remove_first_source source [] = None"
| "remove_first_source source (src # srcs) =
     (if sourceIntentionMatches src source then Some srcs
      else map_option (\<lambda>rest. src # rest) (remove_first_source source srcs))"

definition delSourceCB ::
  "SourceIntention \<Rightarrow> ServiceIntentionsConfigEntry \<Rightarrow> bool \<times> ServiceIntentionsConfigEntry" where
  "delSourceCB source intention =
     (case remove_first_source source (in_Sources intention) of
        Some srcs \<Rightarrow> (True, intention\<lparr>in_Sources := srcs\<rparr>)
      | None \<Rightarrow> (False, intention))"

definition getOrInitIntention ::
  "'w ConfigEntries \<Rightarrow> CompoundServiceName \<Rightarrow> 'w
   \<Rightarrow> (string + (ServiceIntentionsConfigEntry \<times> nat)) \<times> 'w" where
  "getOrInitIntention cl name w =
     (case cl_Get cl (csn_Name name) (csn_Namespace name) w of
        (Inr (intention, idx), w1) \<Rightarrow> (Inr (intention, idx), w1)
      | (Inl err, w1) \<Rightarrow>
          if contains err ''Unexpected response code: 404''
          then (Inr (\<lparr>in_Name = csn_Name name, in_Namespace = csn_Namespace name, in_Sources = []\<rparr>, 0), w1)
          else (Inl err, w1))"

definition update_attempt ::
  "'w ConfigEntries \<Rightarrow> CompoundServiceName
   \<Rightarrow> (ServiceIntentionsConfigEntry \<Rightarrow> bool \<times> ServiceIntentionsConfigEntry) \<Rightarrow> 'w \<Rightarrow> go_error \<times> 'w" where
  "update_attempt cl name updateFn w =
     (case getOrInitIntention cl name w of
        (Inl err, w1) \<Rightarrow> (Some err, w1)
      | (Inr (intention, idx), w1) \<Rightarrow>
          (case updateFn intention of
             (False, _) \<Rightarrow> (None, w1)
           | (True, intention') \<Rightarrow>
               if length (in_Sources intention') = 0
               then cl_Delete cl ServiceIntentions (in_Name intention') (in_Namespace intention') w1
               else (case cl_CAS cl intention' idx w1 of
                       (Inl err, w2) \<Rightarrow> (Some err, w2)
                     | (Inr ok, w2) \<Rightarrow> if \<not> ok then (Some ''CAS operation failed'', w2) else (None, w2))))"

type_synonym 'w Retry = "nat \<Rightarrow> ('w \<Rightarrow> go_error \<times> 'w) \<Rightarrow> 'w \<Rightarrow> go_error \<times> 'w"

definition updateIntentionSources ::
  "'w ConfigEntries \<Rightarrow> 'w Retry \<Rightarrow> CompoundServiceName
   \<Rightarrow> (ServiceIntentionsConfigEntry \<Rightarrow> bool \<times> ServiceIntentionsConfigEntry) \<Rightarrow> 'w \<Rightarrow> go_error \<times> 'w" where
  "updateIntentionSources cl retry name updateFn w =
     (let name' = (if csn_Namespace name = IntentionDefaultNamespace then name\<lparr>csn_Namespace := ''''\<rparr> else name) in
      retry updateIntentionsMaxRetries (update_attempt cl name' updateFn) w)"

definition update_error :: "string \<Rightarrow> CompoundServiceName \<Rightarrow> string \<Rightarrow> string" where
  "update_error verb target err =
     ''failed to update intention with '' @ verb @ '' gateway source ('' @ csn_Namespace target @ ''/'' @
     csn_Name target @ ''): '' @ err"

fun add_sources_loop ::
  "'w ConfigEntries \<Rightarrow> 'w Retry \<Rightarrow> SourceIntention \<Rightarrow> CompoundServiceName list \<Rightarrow> string list \<Rightarrow> 'w
   \<Rightarrow> string list \<times> 'w" where
  "add_sources_loop cl retry source [] errs w = (errs, w)"
| "add_sources_loop cl retry source (target # targets) errs w =
     (case updateIntentionSources cl retry target (addSourceCB source) w of (err, w1) \<Rightarrow>
        add_sources_loop cl retry source targets
          (case err of None \<Rightarrow> errs | Some e \<Rightarrow> errs @ [update_error ''added'' target e]) w1)"

fun del_sources_loop ::
  "'w ConfigEntries \<Rightarrow> 'w Retry \<Rightarrow> SourceIntention \<Rightarrow> CompoundServiceName list \<Rightarrow> ServiceNameIndex
   \<Rightarrow> string list \<Rightarrow> 'w \<Rightarrow> ServiceNameIndex \<times> string list \<times> 'w" where
  "del_sources_loop cl retry source [] tombstones errs w = (tombstones, errs, w)"
| "del_sources_loop cl retry source (target # targets) tombstones errs w =
     (case updateIntentionSources cl retry target (delSourceCB source) w of
        (Some e, w1) \<Rightarrow> del_sources_loop cl retry source targets tombstones (errs @ [update_error ''removed'' target e]) w1
      | (None, w1) \<Rightarrow> del_sources_loop cl retry source targets (Remove tombstones [target]) errs w1)"

definition syncIntentions ::
  "'w ConfigEntries \<Rightarrow> 'w Retry \<Rightarrow> string \<Rightarrow> IntentionsReconciler \<Rightarrow> 'w \<Rightarrow> go_error \<times> IntentionsReconciler \<times> 'w" where
  "syncIntentions cl retry now r w =
     (let source = sourceIntention now r;
          (errs, w1) = add_sources_loop cl retry source (all_targets (ir_targetIndex r)) [] w;
          (tombstones, errs', w2) =
            del_sources_loop cl retry source (All (ir_targetTombstones r)) (ir_targetTombstones r) errs w1 in
      (multi_error errs', r\<lparr>ir_targetTombstones := tombstones\<rparr>, w2))"

section \<open>Reference counting\<close>

text \<open>The index as a relation between targets and the services whose chains reach them.\<close>

definition refs_of :: "intentionTargetReferenceIndex \<Rightarrow> (CompoundServiceName \<times> CompoundServiceName) set" where
  "refs_of i = {(t, s). \<exists>x. map_of i t = Some x \<and> s \<in> names_of x}"

definition target_ok :: "intentionTargetReferenceIndex \<Rightarrow> bool" where
  "target_ok i \<longleftrightarrow> gomap_ok i \<and> (\<forall>t x. map_of i t = Some x \<longrightarrow> gomap_ok x \<and> names_of x \<noteq> {})"

lemma target_ok_Nil [simp]: "target_ok []" and refs_of_Nil [simp]: "refs_of [] = {}"
  by (simp_all add: target_ok_def refs_of_def)

lemma addRef_eq:
  "addRef i t s = (case map_of i t of
     None \<Rightarrow> AList.update t (Add NewServiceNameIndex [s]) (AList.update t NewServiceNameIndex i)
   | Some x \<Rightarrow> AList.update t (Add x [s]) i)"
  by (simp add: addRef_def Let_def gomap_simps has_key_def split: option.split)

lemma refs_addRef [simp]: "refs_of (addRef i t s) = insert (t, s) (refs_of i)"
  by (cases "map_of i t") (auto simp: refs_of_def addRef_eq gomap_simps split: if_splits)

lemma target_ok_addRef [simp, intro]: "target_ok i \<Longrightarrow> target_ok (addRef i t s)"
  by (cases "map_of i t") (auto simp: target_ok_def addRef_eq gomap_simps split: if_splits)

lemma refs_delRef [simp]: "refs_of (delRef i t s) = refs_of i - {(t, s)}"
  by (cases "map_of i t")
    (auto simp: refs_of_def delRef_def Let_def gomap_simps split: if_splits)

lemma target_ok_delRef [simp, intro]: "target_ok i \<Longrightarrow> target_ok (delRef i t s)"
  by (cases "map_of i t") (auto simp: target_ok_def delRef_def Let_def gomap_simps split: if_splits)

lemma set_listRefs: "set (listRefs i t) = {s. (t, s) \<in> refs_of i}"
  by (cases "map_of i t") (auto simp: listRefs_def refs_of_def)

lemma keys_refs: "target_ok i \<Longrightarrow> keys i = fst ` refs_of i"
proof (rule set_eqI)
  fix t assume ok: "target_ok i"
  have "t \<in> keys i \<longleftrightarrow> (\<exists>x. map_of i t = Some x)"
    using keys_lookup lookup_keys by metis
  also have "\<dots> \<longleftrightarrow> (\<exists>s. (t, s) \<in> refs_of i)"
    using ok by (fastforce simp: target_ok_def refs_of_def)
  finally show "t \<in> keys i \<longleftrightarrow> t \<in> fst ` refs_of i"
    by force
qed

lemma set_all_targets: "target_ok i \<Longrightarrow> set (all_targets i) = fst ` refs_of i"
  by (simp add: all_targets_def keys_refs)

lemma handle_added_spec:
  "refs_of (ir_targetIndex (handle_added n ts r)) = refs_of (ir_targetIndex r) \<union> set ts \<times> {n}"
  "names_of (ir_targetTombstones (handle_added n ts r)) = names_of (ir_targetTombstones r) - set ts"
  "target_ok (ir_targetIndex r) \<Longrightarrow> target_ok (ir_targetIndex (handle_added n ts r))"
  "gomap_ok (ir_targetTombstones r) \<Longrightarrow> gomap_ok (ir_targetTombstones (handle_added n ts r))"
  by (induction n ts r rule: handle_added.induct) auto

lemma handle_removed_spec:
  "refs_of (ir_targetIndex (handle_removed n ts r)) = refs_of (ir_targetIndex r) - set ts \<times> {n}"
  "target_ok (ir_targetIndex r) \<Longrightarrow> target_ok (ir_targetIndex (handle_removed n ts r))"
  "gomap_ok (ir_targetTombstones r) \<Longrightarrow> gomap_ok (ir_targetTombstones (handle_removed n ts r))"
  by (induction n ts r rule: handle_removed.induct) (auto simp: Let_def)

lemma handle_removed_tombstones:
  "names_of (ir_targetTombstones (handle_removed n ts r)) =
     names_of (ir_targetTombstones r) \<union>
       {t \<in> set ts. \<forall>s. (t, s) \<in> refs_of (ir_targetIndex r) \<longrightarrow> s = n}"
proof (induction n ts r rule: handle_removed.induct)
  case (1 n r)
  then show ?case by simp
next
  case (2 n t ts r)
  have "length (listRefs (delRef (ir_targetIndex r) t n) t) = 0 \<longleftrightarrow>
      (\<forall>s. (t, s) \<in> refs_of (ir_targetIndex r) \<longrightarrow> s = n)"
    using set_listRefs [of "delRef (ir_targetIndex r) t n" t] by (auto simp flip: set_empty)
  then show ?case
    using 2 by (auto simp: Let_def)
qed

lemma handle_added_frame [simp]:
  "ir_watchers (handle_added n ts r) = ir_watchers r"
  "ir_chainWatchers (handle_added n ts r) = ir_chainWatchers r"
  "ir_ingressServiceIndex (handle_added n ts r) = ir_ingressServiceIndex r"
  "ir_gatewayName (handle_added n ts r) = ir_gatewayName r"
  by (induction n ts r rule: handle_added.induct) simp_all

lemma handle_removed_frame [simp]:
  "ir_watchers (handle_removed n ts r) = ir_watchers r"
  "ir_chainWatchers (handle_removed n ts r) = ir_chainWatchers r"
  "ir_ingressServiceIndex (handle_removed n ts r) = ir_ingressServiceIndex r"
  "ir_gatewayName (handle_removed n ts r) = ir_gatewayName r"
  by (induction n ts r rule: handle_removed.induct) (simp_all add: Let_def)

lemma last_reference: "{t \<in> A. \<forall>s. (t, s) \<in> R \<longrightarrow> s = n} = {t \<in> A. t \<notin> fst ` (R - A \<times> {n})}"
  by force

text \<open>C15: a discovery chain result updates the reference counts exactly: the service gains its references to
  the added targets and loses those to the removed ones, the targets the reconciler writes are
  exactly those some service still references, and a removed target is marked for removal of the
  gateway exactly when nothing references it any more.\<close>

theorem handleChainResult_refs:
  assumes "target_ok (ir_targetIndex r)" and "set (wr_added res) \<inter> set (wr_removed res) = {}"
    and "names_of (ir_targetTombstones r) \<inter> fst ` refs_of (ir_targetIndex r) = {}"
  shows "refs_of (ir_targetIndex (handleChainResult res r)) =
      (refs_of (ir_targetIndex r) \<union> set (wr_added res) \<times> {wr_name res}) - set (wr_removed res) \<times> {wr_name res} \<and>
    set (all_targets (ir_targetIndex (handleChainResult res r))) = fst ` refs_of (ir_targetIndex (handleChainResult res r)) \<and>
    names_of (ir_targetTombstones (handleChainResult res r)) =
      (names_of (ir_targetTombstones r) - set (wr_added res)) \<union>
      {t \<in> set (wr_removed res). t \<notin> fst ` refs_of (ir_targetIndex (handleChainResult res r))} \<and>
    names_of (ir_targetTombstones (handleChainResult res r)) \<inter>
      set (all_targets (ir_targetIndex (handleChainResult res r))) = {}"
proof -
  let ?r1 = "handle_added (wr_name res) (wr_added res) r"
  let ?r2 = "handleChainResult res r"
  have refs: "refs_of (ir_targetIndex ?r2) =
      (refs_of (ir_targetIndex r) \<union> set (wr_added res) \<times> {wr_name res}) - set (wr_removed res) \<times> {wr_name res}"
    by (simp add: handleChainResult_def handle_removed_spec handle_added_spec)
  have "target_ok (ir_targetIndex ?r2)"
    using assms(1) by (simp add: handleChainResult_def handle_removed_spec handle_added_spec)
  then have all: "set (all_targets (ir_targetIndex ?r2)) = fst ` refs_of (ir_targetIndex ?r2)"
    by (rule set_all_targets)
  have tomb: "names_of (ir_targetTombstones ?r2) =
      (names_of (ir_targetTombstones r) - set (wr_added res)) \<union>
      {t \<in> set (wr_removed res). t \<notin> fst ` refs_of (ir_targetIndex ?r2)}"
    by (simp only: handleChainResult_def handle_removed_tombstones handle_removed_spec last_reference handle_added_spec)
  moreover have "names_of (ir_targetTombstones ?r2) \<inter> fst ` refs_of (ir_targetIndex ?r2) = {}"
    unfolding tomb using assms(3) by (auto simp: refs)
  ultimately show ?thesis
    using refs all by simp
qed

section \<open>Interleaving\<close>

text \<open>
  The steps of the reconciler: the gateway's services change, a watcher's result is handled and
  the intentions written, or the intentions are written on a timer or on request. A cancelled
  watcher that waits to send its last result may still win the \<open>select\<close> against its cancelled
  context; the flag \<open>late\<close> says whether that happens.
\<close>

inductive ir_step ::
  "'w ConfigEntries \<Rightarrow> 'w Retry \<Rightarrow> bool \<Rightarrow> IntentionsReconciler \<times> 'w \<Rightarrow> IntentionsReconciler \<times> 'w \<Rightarrow> bool"
  for cl :: "'w ConfigEntries" and retry :: "'w Retry" and late :: bool where
  ir_update: "ir_step cl retry late (r, w) (updateChainWatchers igw r, w)"
| ir_chain: "i < length (ir_watchers r) \<Longrightarrow> \<not> wt_returned (ir_watchers r ! i) \<Longrightarrow>
    late \<or> \<not> wt_cancelled (ir_watchers r ! i) \<Longrightarrow> names = compiledDiscoChainToServiceNames chain \<Longrightarrow>
    syncIntentions cl retry now
      (handleChainResult (watch_result (ir_watchers r ! i) names)
        (r\<lparr>ir_watchers := (ir_watchers r)[i := watch_sent (ir_watchers r ! i) names]\<rparr>)) w = (err, r', w') \<Longrightarrow>
    ir_step cl retry late (r, w) (r', w')"
| ir_sync: "syncIntentions cl retry now r w = (err, r', w') \<Longrightarrow> ir_step cl retry late (r, w) (r', w')"

definition ir_reachable ::
  "'w ConfigEntries \<Rightarrow> 'w Retry \<Rightarrow> bool \<Rightarrow> IntentionsReconciler \<Rightarrow> bool" where
  "ir_reachable cl retry late r \<longleftrightarrow>
     (\<exists>ingress w w'. (ir_step cl retry late)\<^sup>*\<^sup>* (NewIntentionsReconciler ingress, w) (r, w'))"

text \<open>The map of watchers: it holds one running watcher for each service of the ingress gateway.\<close>

definition watchers_ok :: "IntentionsReconciler \<Rightarrow> bool" where
  "watchers_ok r \<longleftrightarrow> gomap_ok (ir_chainWatchers r) \<and>
     (\<forall>s i. map_of (ir_chainWatchers r) s = Some i \<longrightarrow>
        i < length (ir_watchers r) \<and> wt_name (ir_watchers r ! i) = s \<and>
        \<not> wt_cancelled (ir_watchers r ! i) \<and> \<not> wt_returned (ir_watchers r ! i)) \<and>
     (\<forall>i < length (ir_watchers r). \<not> wt_cancelled (ir_watchers r ! i) \<longrightarrow>
        map_of (ir_chainWatchers r) (wt_name (ir_watchers r ! i)) = Some i)"

text \<open>The service was watched once only, by the watcher with the given index.\<close>

definition only_watcher :: "IntentionsReconciler \<Rightarrow> CompoundServiceName \<Rightarrow> nat \<Rightarrow> bool" where
  "only_watcher r s i \<longleftrightarrow> (\<forall>j < length (ir_watchers r). wt_name (ir_watchers r ! j) = s \<longrightarrow> j = i)"

definition live_ok :: "bool \<Rightarrow> IntentionsReconciler \<Rightarrow> bool" where
  "live_ok late r \<longleftrightarrow> (\<forall>s i t. map_of (ir_chainWatchers r) s = Some i \<longrightarrow> (late \<longrightarrow> only_watcher r s i) \<longrightarrow>
     t \<in> names_of (wt_prevResults (ir_watchers r ! i)) \<longrightarrow> (t, s) \<in> refs_of (ir_targetIndex r))"

definition ir_inv :: "IntentionsReconciler \<Rightarrow> bool" where
  "ir_inv r \<longleftrightarrow> watchers_ok r \<and> gomap_ok (ir_ingressServiceIndex r) \<and>
     keys (ir_chainWatchers r) = names_of (ir_ingressServiceIndex r) \<and>
     target_ok (ir_targetIndex r) \<and> gomap_ok (ir_targetTombstones r) \<and>
     names_of (ir_targetTombstones r) \<inter> fst ` refs_of (ir_targetIndex r) = {}"

lemma gomap_ok_ingressToServiceIndex [simp]: "gomap_ok (ingressToServiceIndex igw)"
proof -
  have "gomap_ok idx \<Longrightarrow> gomap_ok (ingress_services_loop ss idx)" for ss idx
    by (induction ss idx rule: ingress_services_loop.induct) simp_all
  then have "gomap_ok idx \<Longrightarrow> gomap_ok (foldl (\<lambda>idx lis. ingress_services_loop (il_Services lis) idx) idx ls)"
    for idx and ls :: "IngressListener list"
    by (induction ls arbitrary: idx) simp_all
  then show ?thesis
    by (simp add: ingressToServiceIndex_def)
qed

lemma gomap_ok_chain_names [simp]: "gomap_ok (compiledDiscoChainToServiceNames chain)"
proof -
  have "gomap_ok names \<Longrightarrow> gomap_ok (chain_targets_loop chain ts names)" for ts names
    by (induction chain ts names rule: chain_targets_loop.induct) simp_all
  then show ?thesis
    by (simp add: compiledDiscoChainToServiceNames_def)
qed

lemma watcher_at:
  "watchers_ok r \<Longrightarrow> map_of (ir_chainWatchers r) s = Some i \<Longrightarrow>
   i < length (ir_watchers r) \<and> wt_name (ir_watchers r ! i) = s \<and>
   \<not> wt_cancelled (ir_watchers r ! i) \<and> \<not> wt_returned (ir_watchers r ! i)"
  unfolding watchers_ok_def by blast

lemma watcher_mapped:
  "watchers_ok r \<Longrightarrow> i < length (ir_watchers r) \<Longrightarrow> \<not> wt_cancelled (ir_watchers r ! i) \<Longrightarrow>
   map_of (ir_chainWatchers r) (wt_name (ir_watchers r ! i)) = Some i"
  unfolding watchers_ok_def by blast

lemma watchers_okI:
  assumes "gomap_ok (ir_chainWatchers r)"
    and "\<And>s i. map_of (ir_chainWatchers r) s = Some i \<Longrightarrow>
      i < length (ir_watchers r) \<and> wt_name (ir_watchers r ! i) = s \<and>
      \<not> wt_cancelled (ir_watchers r ! i) \<and> \<not> wt_returned (ir_watchers r ! i)"
    and "\<And>i. i < length (ir_watchers r) \<Longrightarrow> \<not> wt_cancelled (ir_watchers r ! i) \<Longrightarrow>
      map_of (ir_chainWatchers r) (wt_name (ir_watchers r ! i)) = Some i"
  shows "watchers_ok r"
  using assms unfolding watchers_ok_def by blast

lemma gomap_ok_watchers: "watchers_ok r \<Longrightarrow> gomap_ok (ir_chainWatchers r)"
  unfolding watchers_ok_def by blast

lemma live_okD:
  "live_ok late r \<Longrightarrow> map_of (ir_chainWatchers r) s = Some i \<Longrightarrow> (late \<Longrightarrow> only_watcher r s i) \<Longrightarrow> t \<in> names_of (wt_prevResults (ir_watchers r ! i)) \<Longrightarrow>
   (t, s) \<in> refs_of (ir_targetIndex r)"
  unfolding live_ok_def by blast

lemma watchers_ok_cong:
  "ir_chainWatchers r' = ir_chainWatchers r \<Longrightarrow> ir_watchers r' = ir_watchers r \<Longrightarrow> watchers_ok r' = watchers_ok r"
  by (simp only: watchers_ok_def)

lemma live_ok_cong:
  "ir_chainWatchers r' = ir_chainWatchers r \<Longrightarrow> ir_watchers r' = ir_watchers r \<Longrightarrow>
   ir_targetIndex r' = ir_targetIndex r \<Longrightarrow> live_ok late r' = live_ok late r"
  by (simp only: live_ok_def only_watcher_def)

lemma watchers_ok_cancel:
  assumes ok: "watchers_ok r" and i: "map_of (ir_chainWatchers r) s = Some i"
    and r': "r' = r\<lparr>ir_watchers := (ir_watchers r)[i := watcher_Cancel (ir_watchers r ! i)],
      ir_chainWatchers := AList.delete s (ir_chainWatchers r)\<rparr>"
  shows "watchers_ok r'" and "live_ok late r \<Longrightarrow> live_ok late r'"
proof -
  note at = watcher_at [OF ok]
  have ne: "j \<noteq> i" if "map_of (ir_chainWatchers r) s' = Some j" and "s' \<noteq> s" for s' j
    using at [OF i] at [OF that(1)] that(2) by auto
  show "watchers_ok r'"
  proof (rule watchers_okI)
    show "gomap_ok (ir_chainWatchers r')"
      by (simp add: r' gomap_ok_watchers [OF ok])
  next
    fix s' j assume "map_of (ir_chainWatchers r') s' = Some j"
    then have s': "map_of (ir_chainWatchers r) s' = Some j" "s' \<noteq> s"
      by (auto simp: r' gomap_simps split: if_splits)
    then show "j < length (ir_watchers r') \<and> wt_name (ir_watchers r' ! j) = s' \<and>
        \<not> wt_cancelled (ir_watchers r' ! j) \<and> \<not> wt_returned (ir_watchers r' ! j)"
      using at [OF s'(1)] ne [OF s'] by (simp add: r')
  next
    fix j assume j: "j < length (ir_watchers r')" and c: "\<not> wt_cancelled (ir_watchers r' ! j)"
    have "j \<noteq> i"
      using c j by (auto simp: r' watcher_Cancel_def)
    then have "ir_watchers r' ! j = ir_watchers r ! j" and "map_of (ir_chainWatchers r) (wt_name (ir_watchers r ! j)) = Some j"
      using watcher_mapped [OF ok] j c by (simp_all add: r')
    then show "map_of (ir_chainWatchers r') (wt_name (ir_watchers r' ! j)) = Some j"
      using i \<open>j \<noteq> i\<close> by (auto simp: r' gomap_simps)
  qed
  assume live: "live_ok late r"
  show "live_ok late r'"
    unfolding live_ok_def
  proof (intro allI impI)
    fix s' j t assume "map_of (ir_chainWatchers r') s' = Some j" and only: "late \<longrightarrow> only_watcher r' s' j"
      and t: "t \<in> names_of (wt_prevResults (ir_watchers r' ! j))"
    then have s': "map_of (ir_chainWatchers r) s' = Some j" "s' \<noteq> s"
      by (auto simp: r' gomap_simps split: if_splits)
    have "wt_name (ir_watchers r' ! k) = wt_name (ir_watchers r ! k)" if "k < length (ir_watchers r)" for k
      using that by (cases "k = i") (simp_all add: r' watcher_Cancel_def)
    then have "late \<Longrightarrow> only_watcher r s' j"
      using only by (simp add: only_watcher_def r')
    then show "(t, s') \<in> refs_of (ir_targetIndex r')"
      using live_okD [OF live s'(1)] t ne [OF s'] by (simp add: r')
  qed
qed

lemma cancel_removed_spec:
  assumes "watchers_ok r"
  shows "watchers_ok (cancel_removed ss r) \<and> keys (ir_chainWatchers (cancel_removed ss r)) = keys (ir_chainWatchers r) - set ss \<and>
    (live_ok late r \<longrightarrow> live_ok late (cancel_removed ss r)) \<and>
    ir_targetIndex (cancel_removed ss r) = ir_targetIndex r \<and>
    ir_targetTombstones (cancel_removed ss r) = ir_targetTombstones r"
  using assms
proof (induction ss r rule: cancel_removed.induct)
  case (1 r)
  then show ?case by simp
next
  case (2 s ss r)
  show ?case
  proof (cases "map_of (ir_chainWatchers r) s")
    case None
    then have "s \<notin> keys (ir_chainWatchers r)"
      by (simp add: map_of_eq_None_iff)
    then show ?thesis
      using "2.IH" [unfolded None option.case] "2.prems" by (auto simp: None)
  next
    case (Some i)
    note cancel = watchers_ok_cancel [OF "2.prems" Some refl]
    show ?thesis
      using "2.IH" [unfolded Some option.case, OF cancel(1)] cancel(2) by (simp add: Some gomap_simps) blast
  qed
qed

lemma watchers_ok_start:
  assumes ok: "watchers_ok r" and new: "\<not> has_key (ir_chainWatchers r) s"
    and r': "r' = r\<lparr>ir_chainWatchers := AList.update s (length (ir_watchers r)) (ir_chainWatchers r),
      ir_watchers := ir_watchers r @ [newDiscoChainWatcher s]\<rparr>"
  shows "watchers_ok r'" and "live_ok late r \<Longrightarrow> live_ok late r'"
proof -
  note at = watcher_at [OF ok]
  have cases: "(s' = s \<and> j = length (ir_watchers r)) \<or> (s' \<noteq> s \<and> map_of (ir_chainWatchers r) s' = Some j)"
    if "map_of (ir_chainWatchers r') s' = Some j" for s' j
    using that by (auto simp: r' gomap_simps split: if_splits)
  show "watchers_ok r'"
  proof (rule watchers_okI)
    show "gomap_ok (ir_chainWatchers r')"
      by (simp add: r' gomap_ok_watchers [OF ok])
  next
    fix s' j assume "map_of (ir_chainWatchers r') s' = Some j"
    from cases [OF this] show "j < length (ir_watchers r') \<and> wt_name (ir_watchers r' ! j) = s' \<and>
        \<not> wt_cancelled (ir_watchers r' ! j) \<and> \<not> wt_returned (ir_watchers r' ! j)"
      using at [of s' j] by (auto simp: r' newDiscoChainWatcher_def nth_append)
  next
    fix j assume j: "j < length (ir_watchers r')" and c: "\<not> wt_cancelled (ir_watchers r' ! j)"
    show "map_of (ir_chainWatchers r') (wt_name (ir_watchers r' ! j)) = Some j"
    proof (cases "j < length (ir_watchers r)")
      case True
      then have "map_of (ir_chainWatchers r) (wt_name (ir_watchers r ! j)) = Some j"
        using c by (intro watcher_mapped [OF ok]) (simp_all add: r' nth_append)
      moreover from this new have "wt_name (ir_watchers r ! j) \<noteq> s"
        by (auto simp: has_key_def)
      ultimately show ?thesis
        using True by (simp add: r' nth_append gomap_simps)
    next
      case False
      then show ?thesis
        using j by (simp add: r' nth_append gomap_simps newDiscoChainWatcher_def less_Suc_eq)
    qed
  qed
  assume live: "live_ok late r"
  show "live_ok late r'"
    unfolding live_ok_def
  proof (intro allI impI)
    fix s' j t assume "map_of (ir_chainWatchers r') s' = Some j" and only: "late \<longrightarrow> only_watcher r' s' j"
      and t: "t \<in> names_of (wt_prevResults (ir_watchers r' ! j))"
    have "late \<Longrightarrow> only_watcher r s' j"
      using only by (simp add: only_watcher_def r' nth_append less_Suc_eq)
    from cases [OF \<open>map_of (ir_chainWatchers r') s' = Some j\<close>] this show "(t, s') \<in> refs_of (ir_targetIndex r')"
      using live_okD [OF live, of s' j t] at [of s' j] t by (auto simp: r' newDiscoChainWatcher_def nth_append)
  qed
qed

lemma start_added_spec:
  assumes "watchers_ok r"
  shows "watchers_ok (start_added ss r) \<and> keys (ir_chainWatchers (start_added ss r)) = keys (ir_chainWatchers r) \<union> set ss \<and>
    (live_ok late r \<longrightarrow> live_ok late (start_added ss r)) \<and>
    ir_targetIndex (start_added ss r) = ir_targetIndex r \<and>
    ir_targetTombstones (start_added ss r) = ir_targetTombstones r"
  using assms
proof (induction ss r rule: start_added.induct)
  case (1 r)
  then show ?case by simp
next
  case (2 s ss r)
  show ?case
  proof (cases "has_key (ir_chainWatchers r) s")
    case True
    then show ?thesis
      using "2.IH" "2.prems" by (auto simp: has_key_iff)
  next
    case False
    note start = watchers_ok_start [OF "2.prems" False refl]
    show ?thesis
      using "2.IH" start False by (simp add: gomap_simps)
  qed
qed

lemma updateChainWatchers_spec:
  assumes "watchers_ok r" and "keys (ir_chainWatchers r) = names_of (ir_ingressServiceIndex r)"
  shows "watchers_ok (updateChainWatchers igw r)"
    and "keys (ir_chainWatchers (updateChainWatchers igw r)) = names_of (ingressToServiceIndex igw)"
    and "ir_ingressServiceIndex (updateChainWatchers igw r) = ingressToServiceIndex igw"
    and "live_ok late r \<Longrightarrow> live_ok late (updateChainWatchers igw r)"
    and "ir_targetIndex (updateChainWatchers igw r) = ir_targetIndex r"
    and "ir_targetTombstones (updateChainWatchers igw r) = ir_targetTombstones r"
proof -
  obtain added removed where d: "Diff (ir_ingressServiceIndex r) (ingressToServiceIndex igw) = (added, removed)"
    by (rule prod.exhaust)
  have sets: "set added = names_of (ingressToServiceIndex igw) - names_of (ir_ingressServiceIndex r)"
    "set removed = names_of (ir_ingressServiceIndex r) - names_of (ingressToServiceIndex igw)"
    using Diff_added [of "ir_ingressServiceIndex r" "ingressToServiceIndex igw"]
      Diff_removed [of "ir_ingressServiceIndex r" "ingressToServiceIndex igw"] by (simp_all add: d)
  let ?c = "cancel_removed removed r"
  let ?s = "start_added added ?c"
  have u: "updateChainWatchers igw r = ?s\<lparr>ir_ingressServiceIndex := ingressToServiceIndex igw\<rparr>"
    by (simp add: updateChainWatchers_def d)
  note c = cancel_removed_spec [OF assms(1), of removed]
  note s = start_added_spec [OF conjunct1 [OF c], of added]
  have "watchers_ok (?s\<lparr>ir_ingressServiceIndex := y\<rparr>) = watchers_ok ?s" for y
    by (rule watchers_ok_cong) simp_all
  then show "watchers_ok (updateChainWatchers igw r)"
    using s by (simp only: u)
  show "keys (ir_chainWatchers (updateChainWatchers igw r)) = names_of (ingressToServiceIndex igw)"
    using c s assms(2) sets by (auto simp: u)
  show "ir_ingressServiceIndex (updateChainWatchers igw r) = ingressToServiceIndex igw"
    by (simp add: u)
  show "live_ok late r \<Longrightarrow> live_ok late (updateChainWatchers igw r)"
  proof -
    assume "live_ok late r"
    then have "live_ok late ?s"
      using c s by simp
    then show ?thesis
      using live_ok_cong [of "updateChainWatchers igw r" ?s] by (simp add: u)
  qed
  show "ir_targetIndex (updateChainWatchers igw r) = ir_targetIndex r"
    and "ir_targetTombstones (updateChainWatchers igw r) = ir_targetTombstones r"
    using c s by (simp_all add: u)
qed

lemma del_sources_loop_tombstones:
  "names_of (fst (del_sources_loop cl retry source ts tombs errs w)) \<subseteq> names_of tombs"
proof (induction ts arbitrary: tombs errs w)
  case (Cons t ts)
  obtain err w1 where u: "updateIntentionSources cl retry t (delSourceCB source) w = (err, w1)"
    by (rule prod.exhaust)
  then show ?case
    using Cons [of "Remove tombs [t]" errs w1] Cons [of tombs] by (cases err) (auto simp: u)
qed simp

lemma gomap_ok_del_sources_loop:
  "gomap_ok tombs \<Longrightarrow> gomap_ok (fst (del_sources_loop cl retry source ts tombs errs w))"
proof (induction ts arbitrary: tombs errs w)
  case (Cons t ts)
  obtain err w1 where u: "updateIntentionSources cl retry t (delSourceCB source) w = (err, w1)"
    by (rule prod.exhaust)
  then show ?case
    using Cons by (cases err) auto
qed simp

lemma syncIntentions_frame:
  assumes "syncIntentions cl retry now r w = (err, r', w')"
  shows "\<exists>tombs. r' = r\<lparr>ir_targetTombstones := tombs\<rparr> \<and> names_of tombs \<subseteq> names_of (ir_targetTombstones r) \<and>
    (gomap_ok (ir_targetTombstones r) \<longrightarrow> gomap_ok tombs)"
proof -
  obtain errs w1 where add: "add_sources_loop cl retry (sourceIntention now r) (all_targets (ir_targetIndex r)) [] w = (errs, w1)"
    by (rule prod.exhaust)
  show ?thesis
    using assms
      del_sources_loop_tombstones [of cl retry "sourceIntention now r" "All (ir_targetTombstones r)" "ir_targetTombstones r" errs w1]
      gomap_ok_del_sources_loop [of "ir_targetTombstones r" cl retry "sourceIntention now r" "All (ir_targetTombstones r)" errs w1]
    by (auto simp: syncIntentions_def add split: prod.splits)
qed

lemma ir_inv_New: "ir_inv (NewIntentionsReconciler ingress) \<and> live_ok late (NewIntentionsReconciler ingress)"
proof -
  let ?r = "newIntentionsReconciler \<lparr>csn_Name = ig_Name ingress, csn_Namespace = ig_Namespace ingress\<rparr>"
  have "watchers_ok ?r" and "live_ok late ?r" and "keys (ir_chainWatchers ?r) = names_of (ir_ingressServiceIndex ?r)"
    by (simp_all add: newIntentionsReconciler_def watchers_ok_def live_ok_def)
  note u = updateChainWatchers_spec [OF this(1,3), where igw = ingress] this(2)
  have "target_ok (ir_targetIndex ?r)" and "gomap_ok (ir_targetTombstones ?r)" and "names_of (ir_targetTombstones ?r) = {}"
    by (simp_all add: newIntentionsReconciler_def)
  then show ?thesis
    using u by (simp add: ir_inv_def NewIntentionsReconciler_def)
qed

lemma ir_inv_update: "ir_inv r \<Longrightarrow> ir_inv (updateChainWatchers igw r)"
  using updateChainWatchers_spec [where r = r and igw = igw] by (simp add: ir_inv_def)

lemma ir_inv_sync:
  "ir_inv r \<Longrightarrow> syncIntentions cl retry now r w = (err, r', w') \<Longrightarrow> ir_inv r' \<and> (live_ok late r \<longrightarrow> live_ok late r')"
proof -
  assume inv: "ir_inv r" and s: "syncIntentions cl retry now r w = (err, r', w')"
  obtain tombs where r': "r' = r\<lparr>ir_targetTombstones := tombs\<rparr>"
    and sub: "names_of tombs \<subseteq> names_of (ir_targetTombstones r)" and ok: "gomap_ok tombs"
    using syncIntentions_frame [OF s] inv by (auto simp: ir_inv_def)
  have "names_of tombs \<inter> fst ` refs_of (ir_targetIndex r) = {}"
    using inv sub by (auto simp: ir_inv_def)
  moreover have "watchers_ok r' = watchers_ok r" and "live_ok late r' = live_ok late r"
    unfolding r' by (rule watchers_ok_cong live_ok_cong; simp)+
  ultimately show ?thesis
    using inv ok by (simp add: r' ir_inv_def)
qed

text \<open>The reconciler after watcher \<open>i\<close> sent the given names and the result was handled.\<close>

definition chain_handled :: "nat \<Rightarrow> ServiceNameIndex \<Rightarrow> IntentionsReconciler \<Rightarrow> IntentionsReconciler" where
  "chain_handled i names r =
     handleChainResult (watch_result (ir_watchers r ! i) names)
       (r\<lparr>ir_watchers := (ir_watchers r)[i := watch_sent (ir_watchers r ! i) names]\<rparr>)"

lemma watch_result_sets:
  "wr_name (watch_result w names) = wt_name w"
  "set (wr_added (watch_result w names)) = names_of names - names_of (wt_prevResults w)"
  "set (wr_removed (watch_result w names)) = names_of (wt_prevResults w) - names_of names"
  using Diff_added [of "wt_prevResults w" names] Diff_removed [of "wt_prevResults w" names]
  by (simp_all add: watch_result_def case_prod_unfold)

lemma chain_handled_frame [simp]:
  "ir_chainWatchers (chain_handled i names r) = ir_chainWatchers r"
  "ir_ingressServiceIndex (chain_handled i names r) = ir_ingressServiceIndex r"
  "ir_watchers (chain_handled i names r) = (ir_watchers r)[i := watch_sent (ir_watchers r ! i) names]"
  by (simp_all add: chain_handled_def handleChainResult_def)

lemma chain_handled_refs:
  "refs_of (ir_targetIndex (chain_handled i names r)) =
     (refs_of (ir_targetIndex r) \<union> (names_of names - names_of (wt_prevResults (ir_watchers r ! i))) \<times> {wt_name (ir_watchers r ! i)})
     - (names_of (wt_prevResults (ir_watchers r ! i)) - names_of names) \<times> {wt_name (ir_watchers r ! i)}"
  by (simp add: chain_handled_def handleChainResult_def handle_removed_spec handle_added_spec watch_result_sets)

lemma ir_inv_chain:
  assumes "ir_inv r"
  shows "ir_inv (chain_handled i names r)"
proof -
  have w: "watchers_ok (chain_handled i names r)"
    unfolding watchers_ok_def chain_handled_frame
  proof (intro conjI allI impI)
    show "gomap_ok (ir_chainWatchers r)"
      using gomap_ok_watchers assms by (simp add: ir_inv_def)
  next
    fix s j assume "map_of (ir_chainWatchers r) s = Some j"
    then have "j < length (ir_watchers r) \<and> wt_name (ir_watchers r ! j) = s \<and>
        \<not> wt_cancelled (ir_watchers r ! j) \<and> \<not> wt_returned (ir_watchers r ! j)"
      using watcher_at [of r s j] assms by (simp add: ir_inv_def)
    then show "j < length ((ir_watchers r)[i := watch_sent (ir_watchers r ! i) names])"
      and "wt_name ((ir_watchers r)[i := watch_sent (ir_watchers r ! i) names] ! j) = s"
      and "\<not> wt_cancelled ((ir_watchers r)[i := watch_sent (ir_watchers r ! i) names] ! j)"
      and "\<not> wt_returned ((ir_watchers r)[i := watch_sent (ir_watchers r ! i) names] ! j)"
      by (cases "j = i"; simp add: watch_sent_def)+
  next
    fix j assume "j < length ((ir_watchers r)[i := watch_sent (ir_watchers r ! i) names])"
      and "\<not> wt_cancelled ((ir_watchers r)[i := watch_sent (ir_watchers r ! i) names] ! j)"
    then show "map_of (ir_chainWatchers r) (wt_name ((ir_watchers r)[i := watch_sent (ir_watchers r ! i) names] ! j)) = Some j"
      using watcher_mapped [of r j] assms by (cases "j = i") (simp_all add: watch_sent_def ir_inv_def)
  qed
  have t: "target_ok (ir_targetIndex (chain_handled i names r))" and g: "gomap_ok (ir_targetTombstones (chain_handled i names r))"
    using assms by (simp_all add: ir_inv_def chain_handled_def handleChainResult_def handle_removed_spec handle_added_spec)
  let ?r = "r\<lparr>ir_watchers := (ir_watchers r)[i := watch_sent (ir_watchers r ! i) names]\<rparr>"
  let ?res = "watch_result (ir_watchers r ! i) names"
  have "names_of (ir_targetTombstones (chain_handled i names r)) =
      (names_of (ir_targetTombstones r) - set (wr_added ?res)) \<union>
      {t \<in> set (wr_removed ?res). t \<notin> fst ` refs_of (ir_targetIndex (chain_handled i names r))}"
    by (simp only: chain_handled_def handleChainResult_def handle_removed_tombstones handle_removed_spec
        last_reference handle_added_spec) simp
  then have "names_of (ir_targetTombstones (chain_handled i names r)) \<inter> fst ` refs_of (ir_targetIndex (chain_handled i names r)) = {}"
    using assms by (auto simp: ir_inv_def chain_handled_refs watch_result_sets)
  then show ?thesis
    using w t g assms by (simp add: ir_inv_def)
qed

lemma live_ok_chain:
  assumes "ir_inv r" and "live_ok late r" and "i < length (ir_watchers r)" and "late \<or> \<not> wt_cancelled (ir_watchers r ! i)"
  shows "live_ok late (chain_handled i names r)"
  unfolding live_ok_def chain_handled_frame
proof (intro allI impI)
  let ?ws = "(ir_watchers r)[i := watch_sent (ir_watchers r ! i) names]"
  fix s j t assume j: "map_of (ir_chainWatchers r) s = Some j" and "late \<longrightarrow> only_watcher (chain_handled i names r) s j"
    and t: "t \<in> names_of (wt_prevResults (?ws ! j))"
  have "wt_name (?ws ! k) = wt_name (ir_watchers r ! k)" for k
    by (cases "k = i"; cases "k < length (ir_watchers r)") (simp_all add: watch_sent_def list_update_beyond)
  with \<open>late \<longrightarrow> only_watcher (chain_handled i names r) s j\<close> have once: "late \<Longrightarrow> only_watcher r s j"
    by (simp add: only_watcher_def)
  have ok: "watchers_ok r"
    using assms(1) by (simp add: ir_inv_def)
  have name: "wt_name (ir_watchers r ! j) = s" "j < length (ir_watchers r)"
    using watcher_at [OF ok j] by simp_all
  show "(t, s) \<in> refs_of (ir_targetIndex (chain_handled i names r))"
  proof (cases "j = i")
    case True
    then have "t \<in> names_of names"
      using t assms(3) by (simp add: watch_sent_def)
    moreover have "t \<in> names_of (wt_prevResults (ir_watchers r ! i)) \<Longrightarrow> (t, s) \<in> refs_of (ir_targetIndex r)"
      using live_okD [OF assms(2) j once] True by simp
    ultimately show ?thesis
      using name True by (auto simp: chain_handled_refs)
  next
    case False
    have "s \<noteq> wt_name (ir_watchers r ! i)"
    proof (cases late)
      case True
      then show ?thesis
        using once False assms(3) by (auto simp: only_watcher_def)
    next
      case False
      then have "map_of (ir_chainWatchers r) (wt_name (ir_watchers r ! i)) = Some i"
        using watcher_mapped [OF ok assms(3)] assms(4) by simp
      then show ?thesis
        using j \<open>j \<noteq> i\<close> by auto
    qed
    moreover have "(t, s) \<in> refs_of (ir_targetIndex r)"
      using live_okD [OF assms(2) j once] t False by simp
    ultimately show ?thesis
      by (simp add: chain_handled_refs)
  qed
qed

lemma ir_step_inv:
  assumes "ir_step cl retry late (r, w) (r', w')" and "ir_inv r"
  shows "ir_inv r' \<and> (live_ok late r \<longrightarrow> live_ok late r')"
  using assms
proof (cases rule: ir_step.cases)
  case (ir_update igw)
  then show ?thesis
    using assms(2) ir_inv_update updateChainWatchers_spec(4) by (auto simp: ir_inv_def)
next
  case (ir_chain i names chain now err)
  have s: "syncIntentions cl retry now (chain_handled i names r) w = (err, r', w')"
    using ir_chain(5) by (simp add: chain_handled_def)
  have "live_ok late r \<longrightarrow> live_ok late (chain_handled i names r)"
    using live_ok_chain [OF assms(2) _ ir_chain(1,3), of names] by auto
  then show ?thesis
    using ir_inv_sync [OF ir_inv_chain [OF assms(2)] s] by simp
next
  case (ir_sync now err)
  from ir_inv_sync [OF assms(2) this] show ?thesis
    by simp
qed

lemma ir_steps_inv:
  assumes "(ir_step cl retry late)\<^sup>*\<^sup>* (r, w) (r', w')" and "ir_inv r"
  shows "ir_inv r' \<and> (live_ok late r \<longrightarrow> live_ok late r')"
  using assms by (induction rule: rtranclp_induct2) (auto dest: ir_step_inv)

lemma ir_reachable_ir_inv:
  assumes "ir_reachable cl retry late r"
  shows "ir_inv r" and "live_ok late r"
proof -
  obtain ingress w w' where steps: "(ir_step cl retry late)\<^sup>*\<^sup>* (NewIntentionsReconciler ingress, w) (r, w')"
    using assms by (auto simp: ir_reachable_def)
  note inv = ir_steps_inv [OF steps conjunct1 [OF ir_inv_New]]
  show "ir_inv r"
    by (rule conjunct1 [OF inv])
  show "live_ok late r"
    using inv conjunct2 [OF ir_inv_New [where ingress = ingress]] by simp
qed

text \<open>C16: in every interleaving of ingress updates, watcher results and syncs, the reconciler has exactly one
  running watcher per service of the ingress, never plans to remove the gateway from the intentions
  of a target that some service references, and keeps no target without a reference.\<close>

theorem ir_reachable_inv:
  assumes "ir_reachable cl retry late r"
  shows "keys (ir_chainWatchers r) = names_of (ir_ingressServiceIndex r) \<and>
    (\<forall>s \<in> names_of (ir_ingressServiceIndex r).
      card {i. i < length (ir_watchers r) \<and> wt_name (ir_watchers r ! i) = s \<and> \<not> wt_cancelled (ir_watchers r ! i)} = 1) \<and>
    names_of (ir_targetTombstones r) \<inter> set (all_targets (ir_targetIndex r)) = {} \<and>
    (\<forall>t \<in> set (all_targets (ir_targetIndex r)). listRefs (ir_targetIndex r) t \<noteq> [])"
proof -
  have inv: "ir_inv r"
    using assms by (rule ir_reachable_ir_inv)
  have keys: "keys (ir_chainWatchers r) = names_of (ir_ingressServiceIndex r)"
    using inv by (simp add: ir_inv_def)
  have "card {i. i < length (ir_watchers r) \<and> wt_name (ir_watchers r ! i) = s \<and> \<not> wt_cancelled (ir_watchers r ! i)} = 1"
    if s: "s \<in> names_of (ir_ingressServiceIndex r)" for s
  proof -
    obtain i where i: "map_of (ir_chainWatchers r) s = Some i"
      using s keys_lookup [of s "ir_chainWatchers r"] keys by auto
    have ok: "watchers_ok r"
      using inv by (simp add: ir_inv_def)
    have "j = i" if "j < length (ir_watchers r)" "wt_name (ir_watchers r ! j) = s" "\<not> wt_cancelled (ir_watchers r ! j)" for j
      using watcher_mapped [OF ok that(1,3)] that(2) i by simp
    then have "{i. i < length (ir_watchers r) \<and> wt_name (ir_watchers r ! i) = s \<and> \<not> wt_cancelled (ir_watchers r ! i)} = {i}"
      using watcher_at [OF ok i] by auto
    then show ?thesis by simp
  qed
  moreover have "set (all_targets (ir_targetIndex r)) = fst ` refs_of (ir_targetIndex r)"
    using inv by (intro set_all_targets) (simp add: ir_inv_def)
  moreover from this have "listRefs (ir_targetIndex r) t \<noteq> []" if "t \<in> set (all_targets (ir_targetIndex r))" for t
    using that set_listRefs [of "ir_targetIndex r" t] by (auto simp flip: set_empty)
  ultimately show ?thesis
    using keys inv by (simp add: ir_inv_def)
qed

text \<open>C17: every target a running watcher last reported is among the targets whose intentions the reconciler
  writes, with that service as a reference, provided that cancelled watchers send nothing any more (\<open>late\<close> is false) or,
  when they may still send a last result, that the service was never watched before, so that no cancelled watcher of it
  is left.\<close>

theorem ir_reachable_targets:
  assumes "ir_reachable cl retry late r"
    and "map_of (ir_chainWatchers r) s = Some i"
    and "late \<Longrightarrow> only_watcher r s i"
    and "t \<in> names_of (wt_prevResults (ir_watchers r ! i))"
  shows "t \<in> set (all_targets (ir_targetIndex r)) \<and> s \<in> set (listRefs (ir_targetIndex r) t)"
proof -
  have inv: "ir_inv r" and live: "live_ok late r"
    using ir_reachable_ir_inv [OF assms(1)] by simp_all
  have "(t, s) \<in> refs_of (ir_targetIndex r)"
    using live assms(2-4) by (rule live_okD)
  moreover have "set (all_targets (ir_targetIndex r)) = fst ` refs_of (ir_targetIndex r)"
    using inv by (intro set_all_targets) (simp add: ir_inv_def)
  ultimately show ?thesis
    by (force simp: set_listRefs)
qed

section \<open>The effect of a synchronisation\<close>

text \<open>
  What the code relies on outside the program. \<open>backoff.Retry\<close> with a positive maximum runs an operation
  until it succeeds or the retries are used up, and at least once (a maximum of 0 means no limit; the code never passes it). A Consul server that is reachable and that nobody
  else writes to answers \<open>Get\<close> with the stored entry or a 404, accepts a swap at the current
  index, and deletes. Entries are stored under their name and their namespace, the empty
  namespace being the default one.
\<close>

fun nth_attempt :: "('w \<Rightarrow> go_error \<times> 'w) \<Rightarrow> 'w \<Rightarrow> nat \<Rightarrow> go_error \<times> 'w" where
  "nth_attempt op w 0 = op w"
| "nth_attempt op w (Suc k) = nth_attempt op (snd (op w)) k"

definition retry_laws :: "'w Retry \<Rightarrow> bool" where
  "retry_laws retry \<longleftrightarrow> (\<forall>max op w. 0 < max \<longrightarrow> (\<exists>k \<le> max. retry max op w = nth_attempt op w k \<and>
     (\<forall>j < k. fst (nth_attempt op w j) \<noteq> None) \<and> (fst (nth_attempt op w k) = None \<or> k = max)))"

type_synonym intention_store = "string \<times> string \<Rightarrow> (ServiceIntentionsConfigEntry \<times> nat) option"

definition intention_key :: "string \<Rightarrow> string \<Rightarrow> string \<times> string" where
  "intention_key n ns = (n, canonicalizeDefault ns)"

definition faultless_consul :: "'w ConfigEntries \<Rightarrow> ('w \<Rightarrow> intention_store) \<Rightarrow> bool" where
  "faultless_consul cl ints \<longleftrightarrow>
     (\<forall>n ns w e i. ints w (intention_key n ns) = Some (e, i) \<longrightarrow>
        intention_key (in_Name e) (in_Namespace e) = intention_key n ns \<and>
        (\<exists>w'. cl_Get cl n ns w = (Inr (e, i), w') \<and> ints w' = ints w)) \<and>
     (\<forall>n ns w. ints w (intention_key n ns) = None \<longrightarrow>
        (\<exists>err w'. cl_Get cl n ns w = (Inl err, w') \<and> contains err ''Unexpected response code: 404'' \<and> ints w' = ints w)) \<and>
     (\<forall>e w. \<exists>w' i'. cl_CAS cl e (case ints w (intention_key (in_Name e) (in_Namespace e)) of None \<Rightarrow> 0 | Some (_, i) \<Rightarrow> i) w = (Inr True, w') \<and>
        ints w' = (ints w)(intention_key (in_Name e) (in_Namespace e) \<mapsto> (e, i'))) \<and>
     (\<forall>n ns w. \<exists>w'. cl_Delete cl ServiceIntentions n ns w = (None, w') \<and> ints w' = (ints w)(intention_key n ns := None))"

definition sources_at :: "intention_store \<Rightarrow> string \<times> string \<Rightarrow> SourceIntention list" where
  "sources_at ints k = (case ints k of None \<Rightarrow> [] | Some (e, _) \<Rightarrow> in_Sources e)"

definition target_key :: "CompoundServiceName \<Rightarrow> string \<times> string" where
  "target_key t = intention_key (csn_Name t) (csn_Namespace t)"

definition with_source :: "SourceIntention \<Rightarrow> SourceIntention list \<Rightarrow> SourceIntention list" where
  "with_source src srcs = (if \<exists>x \<in> set srcs. sourceIntentionMatches x src then srcs else srcs @ [src])"

definition without_source :: "SourceIntention \<Rightarrow> SourceIntention list \<Rightarrow> SourceIntention list" where
  "without_source src srcs = (case remove_first_source src srcs of None \<Rightarrow> srcs | Some rest \<Rightarrow> rest)"

lemma retries_positive [simp]: "0 < updateIntentionsMaxRetries"
  by (simp add: updateIntentionsMaxRetries_def)

lemma retry_attempt:
  assumes "retry_laws retry" and "0 < n"
  obtains k where "k \<le> n" and "retry n op w = nth_attempt op w k" and "\<forall>j < k. fst (nth_attempt op w j) \<noteq> None"
  using assms unfolding retry_laws_def by blast

lemma retry_once:
  assumes "retry_laws retry" and "op w = (None, w')" and "0 < n"
  shows "retry n op w = (None, w')"
proof -
  obtain k where k: "retry n op w = nth_attempt op w k" and earlier: "\<forall>j < k. fst (nth_attempt op w j) \<noteq> None"
    using assms(1,3) by (rule retry_attempt)
  have "k = 0"
    using earlier assms(2) by (cases k) auto
  then show ?thesis
    using k assms(2) by simp
qed

lemma getOrInit_faultless:
  assumes "faultless_consul cl ints"
  shows "\<exists>e i w'. getOrInitIntention cl t w = (Inr (e, i), w') \<and> ints w' = ints w \<and>
    intention_key (in_Name e) (in_Namespace e) = target_key t \<and> in_Sources e = sources_at (ints w) (target_key t) \<and>
    i = (case ints w (target_key t) of None \<Rightarrow> 0 | Some (_, i) \<Rightarrow> i)"
proof (cases "ints w (target_key t)")
  case None
  then obtain err w' where "cl_Get cl (csn_Name t) (csn_Namespace t) w = (Inl err, w')"
    "contains err ''Unexpected response code: 404''" "ints w' = ints w"
    using assms unfolding faultless_consul_def target_key_def by blast
  then show ?thesis
    using None by (auto simp: getOrInitIntention_def target_key_def sources_at_def)
next
  case (Some ei)
  obtain e i where ei: "ei = (e, i)"
    by (rule prod.exhaust)
  have "ints w (intention_key (csn_Name t) (csn_Namespace t)) = Some (e, i)"
    using Some by (simp add: ei target_key_def)
  then obtain w' where "cl_Get cl (csn_Name t) (csn_Namespace t) w = (Inr (e, i), w')" "ints w' = ints w"
    "intention_key (in_Name e) (in_Namespace e) = target_key t"
    using assms unfolding faultless_consul_def target_key_def by blast
  then show ?thesis
    using Some by (simp add: getOrInitIntention_def ei sources_at_def)
qed

text \<open>An attempt whose update function only rewrites the sources replaces exactly the sources of its target.\<close>

lemma update_attempt_faultless:
  assumes "faultless_consul cl ints"
    and fn: "\<And>e. updateFn e = (in_Sources e \<noteq> f (in_Sources e), e\<lparr>in_Sources := f (in_Sources e)\<rparr>)"
  shows "\<exists>w'. update_attempt cl t updateFn w = (None, w') \<and>
    sources_at (ints w') = (sources_at (ints w))(target_key t := f (sources_at (ints w) (target_key t)))"
proof -
  obtain e i w1 where get: "getOrInitIntention cl t w = (Inr (e, i), w1)" and w1: "ints w1 = ints w"
    and key: "intention_key (in_Name e) (in_Namespace e) = target_key t"
    and src: "in_Sources e = sources_at (ints w) (target_key t)"
    and i: "i = (case ints w (target_key t) of None \<Rightarrow> 0 | Some (_, i) \<Rightarrow> i)"
    using getOrInit_faultless [OF assms(1), of t w] by blast
  let ?s = "f (in_Sources e)" and ?e = "e\<lparr>in_Sources := f (in_Sources e)\<rparr>"
  consider "in_Sources e = ?s" | "in_Sources e \<noteq> ?s" "?s = []" | "in_Sources e \<noteq> ?s" "?s \<noteq> []"
    by blast
  then show ?thesis
  proof cases
    case 1
    then show ?thesis
      using get w1 src by (auto simp: update_attempt_def fn)
  next
    case 2
    obtain w2 where "cl_Delete cl ServiceIntentions (in_Name e) (in_Namespace e) w1 = (None, w2)"
      and "ints w2 = (ints w1)(target_key t := None)"
      using assms(1) key unfolding faultless_consul_def by metis
    then show ?thesis
      using 2 get w1 src by (auto simp: update_attempt_def fn sources_at_def fun_eq_iff)
  next
    case 3
    have "intention_key (in_Name ?e) (in_Namespace ?e) = target_key t"
      using key by simp
    then obtain w2 i' where "cl_CAS cl ?e i w1 = (Inr True, w2)" and "ints w2 = (ints w1)(target_key t \<mapsto> (?e, i'))"
      using assms(1) i w1 unfolding faultless_consul_def by metis
    then show ?thesis
      using 3 get w1 src by (auto simp: update_attempt_def fn sources_at_def fun_eq_iff)
  qed
qed

lemma addSourceCB_eq:
  "addSourceCB src e = (in_Sources e \<noteq> with_source src (in_Sources e), e\<lparr>in_Sources := with_source src (in_Sources e)\<rparr>)"
  by (simp add: addSourceCB_def with_source_def)

lemma remove_first_source_shorter: "remove_first_source src srcs = Some rest \<Longrightarrow> length rest < length srcs"
  by (induction srcs arbitrary: rest) (auto split: if_splits)

lemma delSourceCB_eq:
  "delSourceCB src e = (in_Sources e \<noteq> without_source src (in_Sources e), e\<lparr>in_Sources := without_source src (in_Sources e)\<rparr>)"
  using remove_first_source_shorter [of src "in_Sources e"]
  by (auto simp: delSourceCB_def without_source_def split: option.split)

lemma updateIntentionSources_faultless:
  assumes "faultless_consul cl ints" and "retry_laws retry"
    and "\<And>e. updateFn e = (in_Sources e \<noteq> f (in_Sources e), e\<lparr>in_Sources := f (in_Sources e)\<rparr>)"
  shows "\<exists>w'. updateIntentionSources cl retry t updateFn w = (None, w') \<and>
    sources_at (ints w') = (sources_at (ints w))(target_key t := f (sources_at (ints w) (target_key t)))"
proof -
  define t' where "t' = (if csn_Namespace t = IntentionDefaultNamespace then t\<lparr>csn_Namespace := ''''\<rparr> else t)"
  have "target_key t' = target_key t"
    by (simp add: t'_def target_key_def intention_key_def canonicalizeDefault_def IntentionDefaultNamespace_def)
  then obtain w' where w': "update_attempt cl t' updateFn w = (None, w')"
    "sources_at (ints w') = (sources_at (ints w))(target_key t := f (sources_at (ints w) (target_key t)))"
    using update_attempt_faultless [OF assms(1,3), of t' w] by auto
  then show ?thesis
    using retry_once [where op = "update_attempt cl t' updateFn" and n = updateIntentionsMaxRetries, OF assms(2) w'(1) retries_positive] by (simp add: updateIntentionSources_def t'_def [symmetric] Let_def)
qed

definition set_sources ::
  "(SourceIntention list \<Rightarrow> SourceIntention list) \<Rightarrow> CompoundServiceName
   \<Rightarrow> (string \<times> string \<Rightarrow> SourceIntention list) \<Rightarrow> string \<times> string \<Rightarrow> SourceIntention list" where
  "set_sources f t srcs = srcs(target_key t := f (srcs (target_key t)))"

lemma add_sources_loop_faultless:
  assumes "faultless_consul cl ints" and "retry_laws retry"
  shows "\<exists>w'. add_sources_loop cl retry src ts errs w = (errs, w') \<and>
    sources_at (ints w') = fold (set_sources (with_source src)) ts (sources_at (ints w))"
proof (induction ts arbitrary: w)
  case (Cons t ts)
  obtain w1 where "updateIntentionSources cl retry t (addSourceCB src) w = (None, w1)"
    "sources_at (ints w1) = set_sources (with_source src) t (sources_at (ints w))"
    using updateIntentionSources_faultless [OF assms, where f = "with_source src", OF addSourceCB_eq, of t w]
    unfolding set_sources_def by blast
  then show ?case
    using Cons [of w1] by simp
qed simp

lemma del_sources_loop_faultless:
  assumes "faultless_consul cl ints" and "retry_laws retry"
  shows "\<exists>w'. del_sources_loop cl retry src ts tombs errs w = (Remove tombs ts, errs, w') \<and>
    sources_at (ints w') = fold (set_sources (without_source src)) ts (sources_at (ints w))"
proof (induction ts arbitrary: w tombs)
  case (Cons t ts)
  obtain w1 where "updateIntentionSources cl retry t (delSourceCB src) w = (None, w1)"
    "sources_at (ints w1) = set_sources (without_source src) t (sources_at (ints w))"
    using updateIntentionSources_faultless [OF assms, where f = "without_source src", OF delSourceCB_eq, of t w]
    unfolding set_sources_def by blast
  then show ?case
    using Cons [of "AList.delete t tombs" w1] by simp
qed simp

text \<open>C14: against a reachable Consul that nobody else writes to, a synchronisation succeeds, forgets every planned
  removal, and changes the intentions exactly as specified: the sources of each target gain the
  gateway unless it is there, then those of each service planned for removal lose it.\<close>

theorem syncIntentions_effect:
  assumes "faultless_consul cl ints" and "retry_laws retry"
    and "syncIntentions cl retry now r w = (err, r', w')"
  shows "err = None \<and> names_of (ir_targetTombstones r') = {} \<and>
    sources_at (ints w') =
      fold (set_sources (without_source (sourceIntention now r))) (All (ir_targetTombstones r))
        (fold (set_sources (with_source (sourceIntention now r))) (all_targets (ir_targetIndex r)) (sources_at (ints w)))"
proof -
  let ?src = "sourceIntention now r"
  obtain w1 where w1: "add_sources_loop cl retry ?src (all_targets (ir_targetIndex r)) [] w = ([], w1)"
    "sources_at (ints w1) = fold (set_sources (with_source ?src)) (all_targets (ir_targetIndex r)) (sources_at (ints w))"
    using add_sources_loop_faultless [OF assms(1,2)] by blast
  obtain w2 where w2: "del_sources_loop cl retry ?src (All (ir_targetTombstones r)) (ir_targetTombstones r) [] w1 =
      (Remove (ir_targetTombstones r) (All (ir_targetTombstones r)), [], w2)"
    "sources_at (ints w2) = fold (set_sources (without_source ?src)) (All (ir_targetTombstones r)) (sources_at (ints w1))"
    using del_sources_loop_faultless [OF assms(1,2)] by blast
  have "err = None" "r' = r\<lparr>ir_targetTombstones := Remove (ir_targetTombstones r) (All (ir_targetTombstones r))\<rparr>" "w' = w2"
    using assms(3) w1(1) w2(1) by (simp_all add: syncIntentions_def Let_def multi_error_def)
  then show ?thesis
    using w1(2) w2(2) by simp
qed

section \<open>Targets that are never removed\<close>

definition example_ingress :: "string list \<Rightarrow> IngressGatewayConfigEntry" where
  "example_ingress services =
     \<lparr>ig_Name = ''gw'', ig_Namespace = ''default'', ig_Meta = [], ig_Defaults_MaxConnections = None,
      ig_Listeners =
        [\<lparr>il_Port = 80, il_Protocol = ''http'',
          il_Services = map (\<lambda>s. \<lparr>is_Name = s, is_Hosts = [''h''], is_Namespace = ''default''\<rparr>) services,
          il_TLS = \<lparr>gt_TLSMinVersion = '''', gt_TLSMaxVersion = '''', gt_CipherSuites = [], gt_SDS = None\<rparr>\<rparr>]\<rparr>"

definition example_chain :: "string \<Rightarrow> string \<Rightarrow> CompiledDiscoveryChain" where
  "example_chain service target =
     \<lparr>ch_ServiceName = service, ch_Protocol = ''http'',
      ch_Targets = [(target, \<lparr>dt_Service = target, dt_Namespace = ''default''\<rparr>)]\<rparr>"

text \<open>C37: when a service leaves the ingress gateway, its watcher is cancelled and nothing removes the references of
  its targets: whatever Consul answers, a reconciler can reach a state without any service and
  without any watcher in which a target is still in the index, so that every later
  synchronisation writes the gateway into the target's intentions again.\<close>

theorem removed_service_leaks_target:
  "\<exists>r. ir_reachable cl retry False r \<and> names_of (ir_ingressServiceIndex r) = {} \<and> ir_chainWatchers r = [] \<and>
     all_targets (ir_targetIndex r) = [\<lparr>csn_Name = ''backend'', csn_Namespace = ''default''\<rparr>]"
proof -
  let ?r0 = "NewIntentionsReconciler (example_ingress [''route''])"
  let ?names = "compiledDiscoChainToServiceNames (example_chain ''route'' ''backend'')"
  let ?r1 = "chain_handled 0 ?names ?r0"
  obtain err r2 w2 where s: "syncIntentions cl retry '''' ?r1 undefined = (err, r2, w2)"
    by (rule prod_cases3)
  obtain tombs where r2: "r2 = ?r1\<lparr>ir_targetTombstones := tombs\<rparr>"
    using syncIntentions_frame [OF s] by blast
  let ?r3 = "updateChainWatchers (example_ingress []) r2"
  have r0: "ir_watchers ?r0 = [newDiscoChainWatcher \<lparr>csn_Name = ''route'', csn_Namespace = ''default''\<rparr>]"
    by (simp add: NewIntentionsReconciler_def newIntentionsReconciler_def updateChainWatchers_def example_ingress_def
        ingressToServiceIndex_def Diff_def NewServiceNameIndex_def has_key_def)
  have "ir_step cl retry False (?r0, undefined) (r2, w2)"
  proof (rule ir_chain)
    show "0 < length (ir_watchers ?r0)" and "\<not> wt_returned (ir_watchers ?r0 ! 0)"
      and "False \<or> \<not> wt_cancelled (ir_watchers ?r0 ! 0)"
      by (simp_all add: r0 newDiscoChainWatcher_def)
  qed (use s in \<open>simp_all add: chain_handled_def\<close>)
  moreover have "ir_step cl retry False (r2, w2) (?r3, w2)"
    by (rule ir_update)
  ultimately have "ir_reachable cl retry False ?r3"
    unfolding ir_reachable_def by (meson rtranclp.rtrancl_into_rtrancl rtranclp.rtrancl_refl)
  moreover have "names_of (ir_ingressServiceIndex ?r3) = {}" and "ir_chainWatchers ?r3 = []"
    and "all_targets (ir_targetIndex ?r3) = [\<lparr>csn_Name = ''backend'', csn_Namespace = ''default''\<rparr>]"
    by (simp_all add: r2)
      (simp_all add: r2 chain_handled_def handleChainResult_def watch_result_def watch_sent_def newDiscoChainWatcher_def
        NewIntentionsReconciler_def newIntentionsReconciler_def updateChainWatchers_def example_ingress_def
        ingressToServiceIndex_def Diff_def NewServiceNameIndex_def has_key_def compiledDiscoChainToServiceNames_def
        example_chain_def addRef_def all_targets_def Let_def)
  ultimately show ?thesis
    by blast
qed

section \<open>Attempts\<close>

text \<open>C32: updating one intention reads it at least once and at most four times, whatever Consul answers, for every
  counter that only the reads advance.\<close>

theorem updateIntentionSources_attempts:
  assumes "retry_laws retry" and "\<And>n ns w. c (snd (cl_Get cl n ns w)) = Suc (c w)"
    and "\<And>e i w. c (snd (cl_CAS cl e i w)) = c w" and "\<And>k n ns w. c (snd (cl_Delete cl k n ns w)) = c w"
  shows "Suc (c w) \<le> c (snd (updateIntentionSources cl retry t updateFn w)) \<and>
    c (snd (updateIntentionSources cl retry t updateFn w)) \<le> c w + 4"
proof -
  have one: "c (snd (update_attempt cl t' updateFn w)) = Suc (c w)" for t' w
    using assms(2) [of "csn_Name t'" "csn_Namespace t'" w]
    by (auto simp: update_attempt_def getOrInitIntention_def assms(3,4) split: prod.splits sum.splits bool.splits)
      (metis assms(3,4) snd_conv)+
  have many: "c (snd (nth_attempt (update_attempt cl t' updateFn) w k)) = c w + Suc k" for t' k w
    by (induction k arbitrary: w) (simp_all add: one)
  define t' where "t' = (if csn_Namespace t = IntentionDefaultNamespace then t\<lparr>csn_Namespace := ''''\<rparr> else t)"
  obtain k where "k \<le> 3" "retry 3 (update_attempt cl t' updateFn) w = nth_attempt (update_attempt cl t' updateFn) w k"
    using assms(1) by (rule retry_attempt [of _ 3]) simp
  then show ?thesis
    by (simp add: updateIntentionSources_def t'_def [symmetric] Let_def updateIntentionsMaxRetries_def many)
qed

section \<open>A concrete Consul\<close>

definition stored :: "intention_store \<Rightarrow> intention_store" where
  "stored w k = (case w k of
     Some (e, i) \<Rightarrow> if intention_key (in_Name e) (in_Namespace e) = k then Some (e, i) else None
   | None \<Rightarrow> None)"

definition map_consul :: "intention_store ConfigEntries" where
  "map_consul =
     \<lparr>cl_Set = \<lambda>e w. (None, w),
      cl_Delete = \<lambda>k n ns w. (None, if k = ServiceIntentions then w(intention_key n ns := None) else w),
      cl_CAS = \<lambda>e i w.
        (if i = (case stored w (intention_key (in_Name e) (in_Namespace e)) of None \<Rightarrow> 0 | Some (_, j) \<Rightarrow> j)
         then (Inr True, w(intention_key (in_Name e) (in_Namespace e) \<mapsto> (e, Suc i))) else (Inr False, w)),
      cl_Get = \<lambda>n ns w.
        (case stored w (intention_key n ns) of
           None \<Rightarrow> (Inl ''Unexpected response code: 404'', w)
         | Some ei \<Rightarrow> (Inr ei, w))\<rparr>"

lemma faultless_map_consul: "faultless_consul map_consul stored"
  unfolding faultless_consul_def
proof (intro conjI allI impI)
  fix n ns and w :: intention_store and e i assume s: "stored w (intention_key n ns) = Some (e, i)"
  then show "intention_key (in_Name e) (in_Namespace e) = intention_key n ns"
    by (auto simp: stored_def split: option.splits if_splits)
  show "\<exists>w'. cl_Get map_consul n ns w = (Inr (e, i), w') \<and> stored w' = stored w"
    using s by (simp add: map_consul_def)
next
  fix n ns and w :: intention_store assume "stored w (intention_key n ns) = None"
  then show "\<exists>err w'. cl_Get map_consul n ns w = (Inl err, w') \<and> contains err ''Unexpected response code: 404'' \<and>
      stored w' = stored w"
    by (simp add: map_consul_def has_prefix_def)
next
  fix e and w :: intention_store
  have "stored (w(intention_key (in_Name e) (in_Namespace e) \<mapsto> (e, j))) =
      (stored w)(intention_key (in_Name e) (in_Namespace e) \<mapsto> (e, j))" for j
    by (auto simp: stored_def fun_eq_iff)
  then show "\<exists>w' i'. cl_CAS map_consul e (case stored w (intention_key (in_Name e) (in_Namespace e)) of None \<Rightarrow> 0 | Some (_, i) \<Rightarrow> i) w =
      (Inr True, w') \<and> stored w' = (stored w)(intention_key (in_Name e) (in_Namespace e) \<mapsto> (e, i'))"
    by (auto simp: map_consul_def)
next
  fix n ns and w :: intention_store
  show "\<exists>w'. cl_Delete map_consul ServiceIntentions n ns w = (None, w') \<and> stored w' = (stored w)(intention_key n ns := None)"
    by (rule exI [of _ "w(intention_key n ns := None)"]) (auto simp: map_consul_def stored_def fun_eq_iff)
qed

fun plain_retry :: "'w Retry" where
  "plain_retry 0 op w = op w"
| "plain_retry (Suc n) op w = (case op w of (None, w') \<Rightarrow> (None, w') | (Some _, w') \<Rightarrow> plain_retry n op w')"

lemma retry_laws_plain: "retry_laws plain_retry"
  unfolding retry_laws_def
proof (intro allI impI)
  fix max op and w :: 'w
  show "\<exists>k \<le> max. plain_retry max op w = nth_attempt op w k \<and> (\<forall>j < k. fst (nth_attempt op w j) \<noteq> None) \<and>
      (fst (nth_attempt op w k) = None \<or> k = max)"
  proof (induction max arbitrary: w)
    case (Suc n)
    obtain err w' where op: "op w = (err, w')"
      by (rule prod.exhaust)
    show ?case
    proof (cases err)
      case None
      then show ?thesis
        using op by (intro exI [of _ 0]) simp
    next
      case (Some e)
      obtain k where "k \<le> n" "plain_retry n op w' = nth_attempt op w' k" "\<forall>j < k. fst (nth_attempt op w' j) \<noteq> None"
        "fst (nth_attempt op w' k) = None \<or> k = n"
        using Suc [of w'] by blast
      then show ?thesis
        using op Some by (intro exI [of _ "Suc k"]) (auto simp: less_Suc_eq_0_disj)
    qed
  qed simp
qed

text \<open>Examples.\<close>

abbreviation ex_route :: CompoundServiceName where
  "ex_route \<equiv> \<lparr>csn_Name = ''route'', csn_Namespace = ''default''\<rparr>"

abbreviation ex_backend :: CompoundServiceName where
  "ex_backend \<equiv> \<lparr>csn_Name = ''backend'', csn_Namespace = ''default''\<rparr>"

definition example_reconciler :: IntentionsReconciler where
  "example_reconciler =
     \<lparr>ir_gatewayName = \<lparr>csn_Name = ''gw'', csn_Namespace = ''default''\<rparr>, ir_chainWatchers = [(ex_route, 0)],
      ir_watchers = [newDiscoChainWatcher ex_route], ir_ingressServiceIndex = [(ex_route, ())],
      ir_targetIndex = [], ir_targetTombstones = []\<rparr>"

lemma example_reconciler_reachable: "ir_reachable cl retry late example_reconciler"
proof -
  have "NewIntentionsReconciler (example_ingress [''route'']) = example_reconciler"
    by (simp add: NewIntentionsReconciler_def newIntentionsReconciler_def updateChainWatchers_def example_ingress_def
        ingressToServiceIndex_def Diff_def NewServiceNameIndex_def has_key_def example_reconciler_def)
  then show ?thesis
    unfolding ir_reachable_def by (metis rtranclp.rtrancl_refl)
qed

theorem ir_reachable_inv_witness:
  "keys (ir_chainWatchers example_reconciler) = {ex_route} \<and>
   card {i. i < length (ir_watchers example_reconciler) \<and> wt_name (ir_watchers example_reconciler ! i) = ex_route \<and>
     \<not> wt_cancelled (ir_watchers example_reconciler ! i)} = 1"
  using ir_reachable_inv [OF example_reconciler_reachable [of map_consul plain_retry True]]
  by (simp add: example_reconciler_def names_of_def)

theorem handleChainResult_refs_witness:
  "refs_of (ir_targetIndex (handleChainResult \<lparr>wr_name = ex_route, wr_added = [ex_backend], wr_removed = []\<rparr> example_reconciler)) =
     {(ex_backend, ex_route)}"
  using handleChainResult_refs [of example_reconciler "\<lparr>wr_name = ex_route, wr_added = [ex_backend], wr_removed = []\<rparr>"]
  by (simp add: example_reconciler_def)

definition example_handled :: IntentionsReconciler where
  "example_handled =
     \<lparr>ir_gatewayName = \<lparr>csn_Name = ''gw'', csn_Namespace = ''default''\<rparr>, ir_chainWatchers = [(ex_route, 0)],
      ir_watchers = [(newDiscoChainWatcher ex_route)\<lparr>wt_prevResults := [(ex_backend, ())]\<rparr>],
      ir_ingressServiceIndex = [(ex_route, ())], ir_targetIndex = [(ex_backend, [(ex_route, ())])],
      ir_targetTombstones = []\<rparr>"

lemma chain_handled_example:
  "chain_handled 0 (compiledDiscoChainToServiceNames (example_chain ''route'' ''backend'')) example_reconciler = example_handled"
  by (simp add: chain_handled_def handleChainResult_def watch_result_def watch_sent_def newDiscoChainWatcher_def
      example_reconciler_def Diff_def NewServiceNameIndex_def has_key_def compiledDiscoChainToServiceNames_def
      example_chain_def addRef_def Let_def example_handled_def)

lemma example_handled_reachable: "\<exists>tombs. ir_reachable map_consul plain_retry True (example_handled\<lparr>ir_targetTombstones := tombs\<rparr>)"
proof -
  let ?names = "compiledDiscoChainToServiceNames (example_chain ''route'' ''backend'')"
  obtain ingress w w1 where init: "(ir_step map_consul plain_retry True)\<^sup>*\<^sup>* (NewIntentionsReconciler ingress, w) (example_reconciler, w1)"
    using example_reconciler_reachable [of map_consul plain_retry True] by (auto simp: ir_reachable_def)
  obtain err r2 w2 where s: "syncIntentions map_consul plain_retry '''' example_handled w1 = (err, r2, w2)"
    by (rule prod_cases3)
  have "ir_step map_consul plain_retry True (example_reconciler, w1) (r2, w2)"
  proof (rule ir_chain)
    show "syncIntentions map_consul plain_retry ''''
        (handleChainResult (watch_result (ir_watchers example_reconciler ! 0) ?names)
          (example_reconciler\<lparr>ir_watchers := (ir_watchers example_reconciler)[0 := watch_sent (ir_watchers example_reconciler ! 0) ?names]\<rparr>)) w1 =
        (err, r2, w2)"
      using s chain_handled_example by (simp add: chain_handled_def)
  qed (simp_all add: example_reconciler_def newDiscoChainWatcher_def)
  then have "ir_reachable map_consul plain_retry True r2"
    using init unfolding ir_reachable_def by (meson rtranclp.rtrancl_into_rtrancl)
  then show ?thesis
    using syncIntentions_frame [OF s] by blast
qed

theorem ir_reachable_targets_witness:
  "\<exists>r. ir_reachable map_consul plain_retry True r \<and>
     ex_backend \<in> set (all_targets (ir_targetIndex r)) \<and> ex_route \<in> set (listRefs (ir_targetIndex r) ex_backend)"
proof -
  obtain tombs where t: "ir_reachable map_consul plain_retry True (example_handled\<lparr>ir_targetTombstones := tombs\<rparr>)"
    using example_handled_reachable by blast
  have "map_of (ir_chainWatchers (example_handled\<lparr>ir_targetTombstones := tombs\<rparr>)) ex_route = Some 0"
    and "ex_backend \<in> names_of (wt_prevResults (ir_watchers (example_handled\<lparr>ir_targetTombstones := tombs\<rparr>) ! 0))"
    and "only_watcher (example_handled\<lparr>ir_targetTombstones := tombs\<rparr>) ex_route 0"
    by (simp_all add: example_handled_def names_of_def only_watcher_def)
  from ir_reachable_targets [OF t this(1,3,2)] t show ?thesis
    by blast
qed

theorem syncIntentions_effect_witness:
  "sources_at (stored (snd (snd (syncIntentions map_consul plain_retry ''now'' example_handled (\<lambda>_. None))))) (''backend'', ''default'') =
     [sourceIntention ''now'' example_handled]"
proof -
  obtain err r' w' where s: "syncIntentions map_consul plain_retry ''now'' example_handled (\<lambda>_. None) = (err, r', w')"
    by (rule prod_cases3)
  have "sources_at (stored (\<lambda>_. None)) = (\<lambda>_. [])"
    by (simp add: sources_at_def stored_def fun_eq_iff)
  moreover have "ir_targetTombstones example_handled = []" and "all_targets (ir_targetIndex example_handled) = [ex_backend]"
    by (simp_all add: example_handled_def all_targets_def)
  ultimately show ?thesis
    using syncIntentions_effect [OF faultless_map_consul retry_laws_plain s]
    by (simp add: s set_sources_def with_source_def target_key_def intention_key_def canonicalizeDefault_def
        IntentionDefaultNamespace_def All_def)
qed

definition count_consul :: "nat ConfigEntries" where
  "count_consul =
     \<lparr>cl_Set = \<lambda>e w. (None, w), cl_Delete = \<lambda>k n ns w. (None, w), cl_CAS = \<lambda>e i w. (Inr False, w),
      cl_Get = \<lambda>n ns w. (Inl ''Unexpected response code: 500'', Suc w)\<rparr>"

theorem updateIntentionSources_attempts_witness:
  "snd (updateIntentionSources count_consul plain_retry ex_backend (addSourceCB (sourceIntention ''now'' example_handled)) 0) \<in> {1..4}"
  using updateIntentionSources_attempts [OF retry_laws_plain, of "\<lambda>w. w" count_consul 0 ex_backend
      "addSourceCB (sourceIntention ''now'' example_handled)"]
  by (simp add: count_consul_def)

end
