(* ===== verification/Sync_Adapter.thy ===== *)
theory Sync_Adapter
  imports Discovery_Chain Intentions
begin

text \<open>
  The stateful part of \<open>internal/adapters/consul/sync.go\<close>: the adapter remembers the configuration
  entries it wrote for each gateway, computes the entries a gateway needs, and writes the difference
  in an order that keeps the gateway consistent. The lemmas show the order of the calls for every
  behaviour of Consul, the effect of a successful synchronisation on what Consul stores, and what an
  error leaves behind. A panic of the logger or of \<open>json\<close> has no place here: tracing is left out.
\<close>

section \<open>State\<close>

record syncState =
  st_ingress :: IngressGatewayConfigEntry
  st_routers :: ConfigEntryIndex
  st_splitters :: ConfigEntryIndex
  st_defaults :: ConfigEntryIndex

record SyncAdapter =
  sa_sync :: "(GatewayID, syncState) gomap"
  sa_intentions :: "(GatewayID, IntentionsReconciler) gomap"

definition NewSyncAdapter :: SyncAdapter where
  "NewSyncAdapter = \<lparr>sa_sync = [], sa_intentions = []\<rparr>"

section \<open>Writing entries\<close>

fun set_entries_loop :: "'w ConfigEntries \<Rightarrow> ConfigEntry list \<Rightarrow> string list \<Rightarrow> 'w \<Rightarrow> string list \<times> 'w" where
  "set_entries_loop cl [] errs w = (errs, w)"
| "set_entries_loop cl (entry # entries) errs w =
     (case cl_Set cl entry w of (err, w1) \<Rightarrow>
        set_entries_loop cl entries (case err of None \<Rightarrow> errs | Some e \<Rightarrow> errs @ [e]) w1)"

definition setConfigEntries :: "'w ConfigEntries \<Rightarrow> ConfigEntry list \<Rightarrow> 'w \<Rightarrow> go_error \<times> 'w" where
  "setConfigEntries cl entries w =
     (case set_entries_loop cl entries [] w of (errs, w1) \<Rightarrow> (multi_error errs, w1))"

fun delete_entries_loop :: "'w ConfigEntries \<Rightarrow> ConfigEntry list \<Rightarrow> string list \<Rightarrow> 'w \<Rightarrow> string list \<times> 'w" where
  "delete_entries_loop cl [] errs w = (errs, w)"
| "delete_entries_loop cl (entry # entries) errs w =
     (case cl_Delete cl (ce_GetKind entry) (ce_GetName entry) (ce_GetNamespace entry) w of (err, w1) \<Rightarrow>
        delete_entries_loop cl entries (case err of None \<Rightarrow> errs | Some e \<Rightarrow> errs @ [e]) w1)"

definition deleteConfigEntries :: "'w ConfigEntries \<Rightarrow> ConfigEntry list \<Rightarrow> 'w \<Rightarrow> go_error \<times> 'w" where
  "deleteConfigEntries cl entries w =
     (case delete_entries_loop cl entries [] w of (errs, w1) \<Rightarrow> (multi_error errs, w1))"

text \<open>A sequence of statements that each run a phase and return its wrapped error, if there is one.\<close>

fun run_phases :: "(string \<times> ('w \<Rightarrow> go_error \<times> 'w)) list \<Rightarrow> 'w \<Rightarrow> go_error \<times> 'w" where
  "run_phases [] w = (None, w)"
| "run_phases ((what, phase) # phases) w =
     (case phase w of
        (Some e, w1) \<Rightarrow> (Some (''error '' @ what @ '': '' @ e), w1)
      | (None, w1) \<Rightarrow> run_phases phases w1)"

section \<open>The adapter\<close>

definition entriesForGateway ::
  "SyncAdapter \<Rightarrow> GatewayID \<Rightarrow> IngressGatewayConfigEntry option \<times> ConfigEntryIndex \<times> ConfigEntryIndex \<times> ConfigEntryIndex" where
  "entriesForGateway a gid =
     (case map_of (sa_sync a) gid of
        None \<Rightarrow> (None, NewConfigEntryIndex ServiceRouter, NewConfigEntryIndex ServiceSplitter,
                 NewConfigEntryIndex ServiceDefaults)
      | Some existing \<Rightarrow>
          (Some (st_ingress existing), st_routers existing, st_splitters existing, st_defaults existing))"

definition setEntriesForGateway ::
  "SyncAdapter \<Rightarrow> ResolvedGateway \<Rightarrow> IngressGatewayConfigEntry \<Rightarrow> ConfigEntryIndex \<Rightarrow> ConfigEntryIndex
   \<Rightarrow> ConfigEntryIndex \<Rightarrow> SyncAdapter" where
  "setEntriesForGateway a gateway ingress routers splitters defaults =
     a\<lparr>sa_sync := AList.update (rg_ID gateway)
          \<lparr>st_ingress = ingress, st_routers = routers, st_splitters = splitters, st_defaults = defaults\<rparr> (sa_sync a)\<rparr>"

text \<open>\<open>Reconcile\<close> hands an error channel to the reconcile loop, which synchronises and answers; the context
  of a reconciler that is in the adapter's map is not cancelled.\<close>

definition Reconcile ::
  "'w ConfigEntries \<Rightarrow> 'w Retry \<Rightarrow> string \<Rightarrow> IntentionsReconciler \<Rightarrow> 'w \<Rightarrow> go_error \<times> IntentionsReconciler \<times> 'w" where
  "Reconcile cl retry now r w = syncIntentions cl retry now r w"

definition syncIntentionsForGateway ::
  "'w ConfigEntries \<Rightarrow> 'w Retry \<Rightarrow> string \<Rightarrow> GatewayID \<Rightarrow> IngressGatewayConfigEntry \<Rightarrow> SyncAdapter \<Rightarrow> 'w
   \<Rightarrow> go_error \<times> SyncAdapter \<times> 'w" where
  "syncIntentionsForGateway cl retry now gid ingress a w =
     (let r = (case map_of (sa_intentions a) gid of
                 None \<Rightarrow> NewIntentionsReconciler ingress
               | Some r \<Rightarrow> updateChainWatchers ingress r) in
      case Reconcile cl retry now r w of (err, r', w') \<Rightarrow>
        (err, a\<lparr>sa_intentions := AList.update gid r' (sa_intentions a)\<rparr>, w'))"

definition stopIntentionSyncForGateway :: "GatewayID \<Rightarrow> SyncAdapter \<Rightarrow> SyncAdapter" where
  "stopIntentionSyncForGateway gid a =
     (if has_key (sa_intentions a) gid then a\<lparr>sa_intentions := AList.delete gid (sa_intentions a)\<rparr> else a)"

definition sync_phases ::
  "'w ConfigEntries \<Rightarrow> SyncAdapter \<Rightarrow> host_order \<Rightarrow> ResolvedGateway \<Rightarrow> (string \<times> ('w \<Rightarrow> go_error \<times> 'w)) list" where
  "sync_phases cl a ord gateway =
     (let (ingress, computedRouters, computedSplitters, computedDefaults) = discoveryChain ord gateway;
          (_, existingRouters, existingSplitters, existingDefaults) = entriesForGateway a (rg_ID gateway) in
      [(''adding service defaults config entries'', setConfigEntries cl (ToArray computedDefaults)),
       (''adding service router config entries'', setConfigEntries cl (ToArray computedRouters)),
       (''adding service splitter config entries'', setConfigEntries cl (ToArray computedSplitters)),
       (''adding ingress config entry'', setConfigEntries cl [IngressEntry ingress]),
       (''removing service router config entries'', deleteConfigEntries cl (ToArray (CE_Difference computedRouters existingRouters))),
       (''removing service splitter config entries'', deleteConfigEntries cl (ToArray (CE_Difference computedSplitters existingSplitters))),
       (''removing service defaults config entries'', deleteConfigEntries cl (ToArray (CE_Difference computedDefaults existingDefaults)))])"

definition Sync ::
  "'w ConfigEntries \<Rightarrow> 'w Retry \<Rightarrow> string \<Rightarrow> host_order \<Rightarrow> ResolvedGateway \<Rightarrow> SyncAdapter \<Rightarrow> 'w
   \<Rightarrow> bool \<times> go_error \<times> SyncAdapter \<times> 'w" where
  "Sync cl retry now ord gateway a w =
     (case run_phases (sync_phases cl a ord gateway) w of
        (Some e, w1) \<Rightarrow> (False, Some e, a, w1)
      | (None, w1) \<Rightarrow>
          (case discoveryChain ord gateway of (ingress, routers, splitters, defaults) \<Rightarrow>
             (case syncIntentionsForGateway cl retry now (rg_ID gateway) ingress
                     (setEntriesForGateway a gateway ingress routers splitters defaults) w1 of
                (Some e, a', w2) \<Rightarrow> (False, Some (''error syncing service intention config entries: '' @ e), a', w2)
              | (None, a', w2) \<Rightarrow> (True, None, a', w2))))"

definition clear_phases :: "'w ConfigEntries \<Rightarrow> syncState \<Rightarrow> (string \<times> ('w \<Rightarrow> go_error \<times> 'w)) list" where
  "clear_phases cl st =
     [(''removing ingress config entry'', deleteConfigEntries cl [IngressEntry (st_ingress st)]),
      (''removing service router config entries'', deleteConfigEntries cl (ToArray (st_routers st))),
      (''removing service splitter config entries'', deleteConfigEntries cl (ToArray (st_splitters st))),
      (''removing service defaults config entries'', deleteConfigEntries cl (ToArray (st_defaults st)))]"

definition Clear :: "'w ConfigEntries \<Rightarrow> GatewayID \<Rightarrow> SyncAdapter \<Rightarrow> 'w \<Rightarrow> go_error \<times> SyncAdapter \<times> 'w" where
  "Clear cl gid a w =
     (case map_of (sa_sync a) gid of
        None \<Rightarrow> (None, a, w)
      | Some st \<Rightarrow>
          (case run_phases (clear_phases cl st) w of
             (Some e, w1) \<Rightarrow> (Some e, a, w1)
           | (None, w1) \<Rightarrow>
               (None, (stopIntentionSyncForGateway gid a)\<lparr>sa_sync := AList.delete gid (sa_sync a)\<rparr>, w1)))"

section \<open>What Consul stores\<close>

type_synonym entry_store = "Kind \<times> string \<times> string \<Rightarrow> ConfigEntry option"

definition entry_key :: "ConfigEntry \<Rightarrow> Kind \<times> string \<times> string" where
  "entry_key e = (ce_GetKind e, ce_GetName e, ce_GetNamespace e)"

text \<open>
  What the code relies on: an accepted \<open>Set\<close> stores the entry under its kind, name and namespace, an accepted
  \<open>Delete\<close> removes what is stored there, and the calls on intentions leave the other kinds alone.
\<close>

definition config_laws :: "'w ConfigEntries \<Rightarrow> ('w \<Rightarrow> entry_store) \<Rightarrow> bool" where
  "config_laws cl cfg \<longleftrightarrow>
     (\<forall>e w w'. cl_Set cl e w = (None, w') \<longrightarrow> cfg w' = (cfg w)(entry_key e \<mapsto> e)) \<and>
     (\<forall>k n ns w w'. k \<noteq> ServiceIntentions \<longrightarrow> cl_Delete cl k n ns w = (None, w') \<longrightarrow> cfg w' = (cfg w)((k, n, ns) := None)) \<and>
     (\<forall>n ns w. cfg (snd (cl_Delete cl ServiceIntentions n ns w)) = cfg w) \<and>
     (\<forall>e i w. cfg (snd (cl_CAS cl e i w)) = cfg w) \<and> (\<forall>n ns w. cfg (snd (cl_Get cl n ns w)) = cfg w)"

fun set_all :: "ConfigEntry list \<Rightarrow> entry_store \<Rightarrow> entry_store" where
  "set_all [] m = m"
| "set_all (e # es) m = set_all es (m(entry_key e \<mapsto> e))"

definition remove_all :: "ConfigEntry list \<Rightarrow> entry_store \<Rightarrow> entry_store" where
  "remove_all es m = (\<lambda>k. if k \<in> entry_key ` set es then None else m k)"

lemma set_entries_loop_errs: "\<exists>es. fst (set_entries_loop cl entries errs w) = errs @ es"
proof (induction entries arbitrary: errs w)
  case (Cons e entries)
  obtain err w1 where "cl_Set cl e w = (err, w1)"
    by (rule prod.exhaust)
  then show ?case
    using Cons [of errs w1] Cons [of "errs @ [the err]" w1] by (cases err) auto
qed simp

lemma delete_entries_loop_errs: "\<exists>es. fst (delete_entries_loop cl entries errs w) = errs @ es"
proof (induction entries arbitrary: errs w)
  case (Cons e entries)
  obtain err w1 where "cl_Delete cl (ce_GetKind e) (ce_GetName e) (ce_GetNamespace e) w = (err, w1)"
    by (rule prod.exhaust)
  then show ?case
    using Cons [of errs w1] Cons [of "errs @ [the err]" w1] by (cases err) auto
qed simp

lemma setConfigEntries_effect:
  assumes "config_laws cl cfg" and "setConfigEntries cl entries w = (None, w')"
  shows "cfg w' = set_all entries (cfg w)"
proof -
  have "set_entries_loop cl entries [] w = ([], w')"
    using assms(2) by (auto simp: setConfigEntries_def split: prod.splits)
  then show ?thesis
  proof (induction entries arbitrary: w)
    case (Cons e entries)
    obtain err w1 where set: "cl_Set cl e w = (err, w1)"
      by (rule prod.exhaust)
    have "err = None"
    proof (rule ccontr)
      assume "err \<noteq> None"
      then obtain x where "err = Some x" by blast
      then show False
        using Cons.prems set set_entries_loop_errs [of cl entries "[x]" w1] by auto
    qed
    then have "cfg w1 = (cfg w)(entry_key e \<mapsto> e)"
      using set assms(1) unfolding config_laws_def by blast
    then show ?case
      using Cons set \<open>err = None\<close> by (simp add: fun_upd_def)
  qed simp
qed

lemma ce_kind_not_intentions [simp]: "ce_GetKind e \<noteq> ServiceIntentions"
  by (cases e) simp_all

lemma deleteConfigEntries_effect:
  assumes "config_laws cl cfg" and "deleteConfigEntries cl entries w = (None, w')"
  shows "cfg w' = remove_all entries (cfg w)"
proof -
  have "delete_entries_loop cl entries [] w = ([], w')"
    using assms(2) by (auto simp: deleteConfigEntries_def split: prod.splits)
  then show ?thesis
  proof (induction entries arbitrary: w)
    case (Cons e entries)
    obtain err w1 where del: "cl_Delete cl (ce_GetKind e) (ce_GetName e) (ce_GetNamespace e) w = (err, w1)"
      by (rule prod.exhaust)
    have "err = None"
    proof (rule ccontr)
      assume "err \<noteq> None"
      then obtain x where "err = Some x" by blast
      then show False
        using Cons.prems del delete_entries_loop_errs [of cl entries "[x]" w1] by auto
    qed
    then have "cfg w1 = (cfg w)(entry_key e := None)"
      using del assms(1) ce_kind_not_intentions unfolding config_laws_def entry_key_def by blast
    moreover have "cfg w' = remove_all entries (cfg w1)"
      using Cons del \<open>err = None\<close> by simp
    ultimately show ?case
      by (simp add: remove_all_def fun_eq_iff del: split_paired_All)
  qed (simp add: remove_all_def)
qed

lemma set_all_lookup:
  "set_all es m k = (case find (\<lambda>e. entry_key e = k) (rev es) of None \<Rightarrow> m k | Some e \<Rightarrow> Some e)"
  by (induction es arbitrary: m) (auto simp: find_append split: option.splits)

lemma set_all_in: "distinct (map entry_key es) \<Longrightarrow> e \<in> set es \<Longrightarrow> set_all es m (entry_key e) = Some e"
proof -
  assume d: "distinct (map entry_key es)" and e: "e \<in> set es"
  obtain x where x: "find (\<lambda>x. entry_key x = entry_key e) (rev es) = Some x"
    using e by (metis (mono_tags, lifting) find_None_iff not_Some_eq set_rev)
  then have "x \<in> set es" and "entry_key x = entry_key e"
    using find_SomeD [OF x] by simp_all
  then have "x = e"
    using d e by (simp add: distinct_map inj_on_def)
  then show ?thesis
    using x by (simp add: set_all_lookup)
qed

lemma set_all_notin: "k \<notin> entry_key ` set es \<Longrightarrow> set_all es m k = m k"
proof -
  assume "k \<notin> entry_key ` set es"
  then have "find (\<lambda>e. entry_key e = k) (rev es) = None"
    by (auto simp: find_None_iff)
  then show ?thesis
    by (simp add: set_all_lookup)
qed

section \<open>A successful synchronisation\<close>

text \<open>The entries a gateway needs, and the invariant of what the adapter remembers.\<close>

definition computed_entries :: "host_order \<Rightarrow> ResolvedGateway \<Rightarrow> ConfigEntry list" where
  "computed_entries ord g =
     (case discoveryChain ord g of (ingress, routers, splitters, defaults) \<Rightarrow>
        ToArray defaults @ ToArray routers @ ToArray splitters @ [IngressEntry ingress])"

definition recorded_entries :: "syncState \<Rightarrow> ConfigEntry list" where
  "recorded_entries st =
     IngressEntry (st_ingress st) # ToArray (st_routers st) @ ToArray (st_splitters st) @ ToArray (st_defaults st)"

definition state_ok :: "GatewayID \<Rightarrow> syncState \<Rightarrow> bool" where
  "state_ok gid st \<longleftrightarrow>
     ig_Name (st_ingress st) = gid_Service gid \<and> ig_Namespace (st_ingress st) = gid_ConsulNamespace gid \<and>
     index_in ServiceRouter (in_namespace (gid_ConsulNamespace gid)) (st_routers st) \<and>
     index_in ServiceSplitter (in_namespace (gid_ConsulNamespace gid)) (st_splitters st) \<and>
     index_in ServiceDefaults (http_default (gid_ConsulNamespace gid)) (st_defaults st)"

definition adapter_ok :: "SyncAdapter \<Rightarrow> bool" where
  "adapter_ok a \<longleftrightarrow> gomap_ok (sa_sync a) \<and> (\<forall>gid st. map_of (sa_sync a) gid = Some st \<longrightarrow> state_ok gid st)"

lemma state_ok_computed:
  assumes "discoveryChain ord g = (ingress, routers, splitters, defaults)"
  shows "state_ok (rg_ID g) \<lparr>st_ingress = ingress, st_routers = routers, st_splitters = splitters, st_defaults = defaults\<rparr>"
proof -
  have "ig_Name ingress = gid_Service (rg_ID g)" and "ig_Namespace ingress = gid_ConsulNamespace (rg_ID g)"
    using assms by (auto simp: discoveryChain_eq)
  then show ?thesis
    using discoveryChain_indexes [OF assms] by (simp add: state_ok_def)
qed

lemma index_in_ns: "index_in ServiceDefaults (http_default ns) i \<Longrightarrow> index_in ServiceDefaults (in_namespace ns) i"
  by (auto simp: index_in_def index_all_def http_default_def in_namespace_def)

lemma entry_key_index:
  "index_in k (in_namespace ns) i \<Longrightarrow> e \<in> set (ToArray i) \<Longrightarrow> entry_key e = (k, ce_GetName e, ns)"
  by (auto simp: index_in_def index_all_def in_namespace_def entry_key_def index_ok_def ToArray_def)

lemma distinct_index_keys:
  assumes "index_in k (in_namespace ns) i"
  shows "distinct (map entry_key (ToArray i))"
proof -
  have "map entry_key (ToArray i) = map (\<lambda>n. (k, n, ns)) (map ce_GetName (ToArray i))"
    using entry_key_index [OF assms] by auto
  moreover have "distinct (map ce_GetName (ToArray i))"
    using assms by (intro distinct_names_ToArray) (simp add: index_in_def)
  ultimately show ?thesis
    by (simp add: distinct_map inj_on_def)
qed

lemma kinds_index:
  "index_in k (in_namespace ns) i \<Longrightarrow> fst ` entry_key ` set (ToArray i) \<subseteq> {k}"
  using entry_key_index by fastforce

lemma Difference_keys:
  assumes "index_in k (in_namespace ns) i" and "index_in k (in_namespace ns) j"
  shows "entry_key ` set (ToArray (CE_Difference i j)) = entry_key ` set (ToArray j) - entry_key ` set (ToArray i)"
proof -
  have d: "set (ToArray (CE_Difference i j)) = {e \<in> set (ToArray j). ce_GetName e \<notin> ce_GetName ` set (ToArray i)}"
    using assms by (intro Difference_spec(2)) (simp_all add: index_in_def)
  have "\<forall>e \<in> set (ToArray j). entry_key e \<in> entry_key ` set (ToArray i) \<longleftrightarrow> ce_GetName e \<in> ce_GetName ` set (ToArray i)"
    using entry_key_index [OF assms(1)] entry_key_index [OF assms(2)] by (auto simp: image_iff)
  then have "set (ToArray (CE_Difference i j)) = {e \<in> set (ToArray j). entry_key e \<notin> entry_key ` set (ToArray i)}"
    unfolding d by blast
  then show ?thesis
    by auto (metis imageI)
qed

lemma run_phases_None:
  "run_phases ((what, phase) # phases) w = (None, w') \<longleftrightarrow> (\<exists>w1. phase w = (None, w1) \<and> run_phases phases w1 = (None, w'))"
  by (auto split: prod.splits option.splits)

text \<open>An observation of Consul that the calls on intentions leave alone.\<close>

definition keeps :: "'w ConfigEntries \<Rightarrow> ('w \<Rightarrow> 'o) \<Rightarrow> bool" where
  "keeps cl obs \<longleftrightarrow>
     (\<forall>n ns w. obs (snd (cl_Delete cl ServiceIntentions n ns w)) = obs w) \<and>
     (\<forall>e i w. obs (snd (cl_CAS cl e i w)) = obs w) \<and> (\<forall>n ns w. obs (snd (cl_Get cl n ns w)) = obs w)"

lemma config_laws_keeps: "config_laws cl cfg \<Longrightarrow> keeps cl cfg"
  by (simp add: config_laws_def keeps_def)

lemma keeps_get:
  assumes "keeps cl obs"
  shows "obs (snd (getOrInitIntention cl t w)) = obs w"
proof -
  obtain x w1 where x: "cl_Get cl (csn_Name t) (csn_Namespace t) w = (x, w1)"
    by (rule prod.exhaust)
  moreover have "obs (snd (cl_Get cl (csn_Name t) (csn_Namespace t) w)) = obs w"
    using assms unfolding keeps_def by blast
  ultimately show ?thesis
    by (cases x) (auto simp: getOrInitIntention_def)
qed

lemma keeps_attempt:
  assumes "keeps cl obs"
  shows "obs (snd (update_attempt cl t f w)) = obs w"
proof -
  obtain g w1 where g: "getOrInitIntention cl t w = (g, w1)"
    by (rule prod.exhaust)
  have w1: "obs w1 = obs w"
    using keeps_get [OF assms, of t w] by (simp add: g)
  show ?thesis
  proof (cases g)
    case (Inl err)
    then show ?thesis
      using w1 by (simp add: update_attempt_def g)
  next
    case (Inr ei)
    obtain e i where ei: "ei = (e, i)" by (rule prod.exhaust)
    obtain changed e' where f: "f e = (changed, e')" by (rule prod.exhaust)
    obtain c w2 where c: "cl_CAS cl e' i w1 = (c, w2)" by (rule prod.exhaust)
    have "obs (snd (cl_CAS cl e' i w1)) = obs w1"
      and del: "obs (snd (cl_Delete cl ServiceIntentions (in_Name e') (in_Namespace e') w1)) = obs w1"
      using assms unfolding keeps_def by blast+
    then have "obs w2 = obs w1"
      by (simp add: c)
    then show ?thesis
      using w1 del by (cases changed; cases c) (simp_all add: update_attempt_def g Inr ei f c)
  qed
qed

lemma keeps_update:
  assumes "keeps cl obs" and "retry_laws retry"
  shows "obs (snd (updateIntentionSources cl retry t f w)) = obs w"
proof -
  have many: "obs (snd (nth_attempt (update_attempt cl t f) w k)) = obs w" for t k w
    by (induction k arbitrary: w) (simp_all add: keeps_attempt [OF assms(1)])
  define t' where "t' = (if csn_Namespace t = IntentionDefaultNamespace then t\<lparr>csn_Namespace := ''''\<rparr> else t)"
  obtain k where "retry updateIntentionsMaxRetries (update_attempt cl t' f) w = nth_attempt (update_attempt cl t' f) w k"
    using assms(2) by (rule retry_attempt [OF _ retries_positive])
  then show ?thesis
    by (simp add: updateIntentionSources_def t'_def [symmetric] Let_def many)
qed

lemma keeps_add_loop:
  assumes "keeps cl obs" and "retry_laws retry"
  shows "obs (snd (add_sources_loop cl retry src ts errs w)) = obs w"
proof (induction ts arbitrary: errs w)
  case (Cons t ts)
  obtain err w1 where "updateIntentionSources cl retry t (addSourceCB src) w = (err, w1)"
    by (rule prod.exhaust)
  then show ?case
    using keeps_update [OF assms, of t "addSourceCB src" w] Cons by simp
qed simp

lemma keeps_del_loop:
  assumes "keeps cl obs" and "retry_laws retry"
  shows "obs (snd (snd (del_sources_loop cl retry src ts tombs errs w))) = obs w"
proof (induction ts arbitrary: tombs errs w)
  case (Cons t ts)
  obtain err w1 where "updateIntentionSources cl retry t (delSourceCB src) w = (err, w1)"
    by (rule prod.exhaust)
  then show ?case
    using keeps_update [OF assms, of t "delSourceCB src" w] Cons by (cases err) simp_all
qed simp

lemma keeps_syncIntentions:
  assumes "keeps cl obs" and "retry_laws retry" and "syncIntentions cl retry now r w = (err, r', w')"
  shows "obs w' = obs w"
proof -
  obtain errs w1 where add: "add_sources_loop cl retry (sourceIntention now r) (all_targets (ir_targetIndex r)) [] w = (errs, w1)"
    by (rule prod.exhaust)
  show ?thesis
    using keeps_add_loop [OF assms(1,2), of "sourceIntention now r" "all_targets (ir_targetIndex r)" "[]" w]
      keeps_del_loop [OF assms(1,2), of "sourceIntention now r" "All (ir_targetTombstones r)" "ir_targetTombstones r" errs w1]
      assms(3)
    by (simp add: syncIntentions_def Let_def add split: prod.splits)
qed

lemma set_all_append: "set_all (xs @ ys) m = set_all ys (set_all xs m)"
  by (induction xs arbitrary: m) simp_all

lemma remove_all_append: "remove_all ys (remove_all xs m) = remove_all (xs @ ys) m"
  by (simp add: remove_all_def image_Un fun_eq_iff del: split_paired_All)

text \<open>What the adapter remembers for a gateway and no longer needs.\<close>

definition stale_entries :: "SyncAdapter \<Rightarrow> host_order \<Rightarrow> ResolvedGateway \<Rightarrow> ConfigEntry list" where
  "stale_entries a ord g =
     (case discoveryChain ord g of (_, routers, splitters, defaults) \<Rightarrow>
        (case entriesForGateway a (rg_ID g) of (_, oldRouters, oldSplitters, oldDefaults) \<Rightarrow>
           ToArray (CE_Difference routers oldRouters) @ ToArray (CE_Difference splitters oldSplitters) @
           ToArray (CE_Difference defaults oldDefaults)))"

lemma run_sync_phases:
  assumes "config_laws cl cfg" and "run_phases (sync_phases cl a ord g) w = (None, w')"
  shows "cfg w' = remove_all (stale_entries a ord g) (set_all (computed_entries ord g) (cfg w))"
proof -
  obtain ing ro sp de where dc: "discoveryChain ord g = (ing, ro, sp, de)"
    by (rule prod_cases4)
  obtain oi oro osp ode where old: "entriesForGateway a (rg_ID g) = (oi, oro, osp, ode)"
    by (rule prod_cases4)
  note eff = setConfigEntries_effect [OF assms(1)] deleteConfigEntries_effect [OF assms(1)]
  show ?thesis
    using assms(2)
    by (auto simp: sync_phases_def dc old Let_def run_phases_None computed_entries_def stale_entries_def
        set_all_append remove_all_append [symmetric] simp del: run_phases.simps(2) dest!: eff)
qed

lemma entriesForGateway_ok:
  assumes "adapter_ok a" and "entriesForGateway a gid = (oi, oro, osp, ode)"
  shows "index_in ServiceRouter (in_namespace (gid_ConsulNamespace gid)) oro"
    and "index_in ServiceSplitter (in_namespace (gid_ConsulNamespace gid)) osp"
    and "index_in ServiceDefaults (in_namespace (gid_ConsulNamespace gid)) ode"
  using assms index_in_ns
  by (auto simp: entriesForGateway_def adapter_ok_def state_ok_def split: option.splits)

text \<open>The keys of the entries of a gateway, by kind.\<close>

definition keys_in :: "string \<Rightarrow> Kind \<Rightarrow> ConfigEntryIndex \<Rightarrow> (Kind \<times> string \<times> string) set" where
  "keys_in ns k i = (\<lambda>n. (k, n, ns)) ` index_names i"

lemma entry_keys_index:
  assumes "index_in k (in_namespace ns) i"
  shows "entry_key ` set (ToArray i) = keys_in ns k i"
proof -
  have "entry_key ` set (ToArray i) = (\<lambda>e. (k, ce_GetName e, ns)) ` set (ToArray i)"
    using entry_key_index [OF assms] by (intro image_cong) simp_all
  also have "\<dots> = (\<lambda>n. (k, n, ns)) ` ce_GetName ` set (ToArray i)"
    by (simp add: image_image)
  finally show ?thesis
    using assms by (simp add: names_ToArray index_in_def keys_in_def)
qed

lemma keys_in_disjoint: "k \<noteq> k' \<Longrightarrow> keys_in ns k i \<inter> keys_in ns' k' j = {}"
  by (auto simp: keys_in_def)

lemma computed_indexes:
  assumes "discoveryChain ord g = (ing, ro, sp, de)"
  shows "index_in ServiceRouter (in_namespace (gid_ConsulNamespace (rg_ID g))) ro"
    and "index_in ServiceSplitter (in_namespace (gid_ConsulNamespace (rg_ID g))) sp"
    and "index_in ServiceDefaults (in_namespace (gid_ConsulNamespace (rg_ID g))) de"
  using discoveryChain_indexes [OF assms] index_in_ns by blast+

lemma computed_keys:
  assumes "discoveryChain ord g = (ing, ro, sp, de)"
  shows "entry_key ` set (computed_entries ord g) =
      keys_in (gid_ConsulNamespace (rg_ID g)) ServiceDefaults de \<union> keys_in (gid_ConsulNamespace (rg_ID g)) ServiceRouter ro \<union>
      keys_in (gid_ConsulNamespace (rg_ID g)) ServiceSplitter sp \<union> {(IngressGateway, gid_Service (rg_ID g), gid_ConsulNamespace (rg_ID g))}"
proof -
  have "entry_key (IngressEntry ing) = (IngressGateway, gid_Service (rg_ID g), gid_ConsulNamespace (rg_ID g))"
    using assms by (auto simp: entry_key_def discoveryChain_eq)
  then show ?thesis
    by (simp add: computed_entries_def assms image_Un entry_keys_index [OF computed_indexes(1) [OF assms]]
        entry_keys_index [OF computed_indexes(2) [OF assms]] entry_keys_index [OF computed_indexes(3) [OF assms]] Un_ac)
qed

lemma distinct_computed_keys: "distinct (map entry_key (computed_entries ord g))"
proof -
  obtain ing ro sp de where dc: "discoveryChain ord g = (ing, ro, sp, de)"
    by (rule prod_cases4)
  note ix = computed_indexes [OF dc]
  have "entry_key (IngressEntry ing) \<notin> keys_in ns k i" if "k \<noteq> IngressGateway" for ns k i
    using that by (auto simp: entry_key_def keys_in_def)
  then show ?thesis
    using distinct_index_keys [OF ix(1)] distinct_index_keys [OF ix(2)] distinct_index_keys [OF ix(3)]
    by (simp add: computed_entries_def dc image_Un Int_Un_distrib keys_in_disjoint
        entry_keys_index [OF ix(1)] entry_keys_index [OF ix(2)] entry_keys_index [OF ix(3)])
qed

lemma stale_keys:
  assumes "adapter_ok a"
  shows "entry_key ` set (stale_entries a ord g) \<inter> entry_key ` set (computed_entries ord g) = {}"
    and "map_of (sa_sync a) (rg_ID g) = Some st \<Longrightarrow>
      entry_key ` set (stale_entries a ord g) = entry_key ` set (recorded_entries st) - entry_key ` set (computed_entries ord g)"
    and "map_of (sa_sync a) (rg_ID g) = None \<Longrightarrow> stale_entries a ord g = []"
proof -
  obtain ing ro sp de where dc: "discoveryChain ord g = (ing, ro, sp, de)"
    by (rule prod_cases4)
  obtain oi oro osp ode where old: "entriesForGateway a (rg_ID g) = (oi, oro, osp, ode)"
    by (rule prod_cases4)
  let ?ns = "gid_ConsulNamespace (rg_ID g)"
  note ix = computed_indexes [OF dc] and ox = entriesForGateway_ok [OF assms old]
  have stale: "entry_key ` set (stale_entries a ord g) =
      (keys_in ?ns ServiceRouter oro - keys_in ?ns ServiceRouter ro) \<union>
      (keys_in ?ns ServiceSplitter osp - keys_in ?ns ServiceSplitter sp) \<union>
      (keys_in ?ns ServiceDefaults ode - keys_in ?ns ServiceDefaults de)"
    by (simp add: stale_entries_def dc old image_Un Difference_keys [OF ix(1) ox(1)] Difference_keys [OF ix(2) ox(2)]
        Difference_keys [OF ix(3) ox(3)] entry_keys_index [OF ix(1)] entry_keys_index [OF ix(2)] entry_keys_index [OF ix(3)]
        entry_keys_index [OF ox(1)] entry_keys_index [OF ox(2)] entry_keys_index [OF ox(3)] Un_assoc)
  show "entry_key ` set (stale_entries a ord g) \<inter> entry_key ` set (computed_entries ord g) = {}"
    unfolding stale computed_keys [OF dc] by (auto simp: keys_in_def)
  show "entry_key ` set (stale_entries a ord g) = entry_key ` set (recorded_entries st) - entry_key ` set (computed_entries ord g)"
    if st: "map_of (sa_sync a) (rg_ID g) = Some st"
  proof -
    have eqs: "oro = st_routers st" "osp = st_splitters st" "ode = st_defaults st"
      using old st by (simp_all add: entriesForGateway_def)
    have "state_ok (rg_ID g) st"
      using assms st by (simp add: adapter_ok_def)
    then have "entry_key (IngressEntry (st_ingress st)) = (IngressGateway, gid_Service (rg_ID g), ?ns)"
      by (simp add: state_ok_def entry_key_def)
    then have "entry_key ` set (recorded_entries st) =
        insert (IngressGateway, gid_Service (rg_ID g), ?ns)
          (keys_in ?ns ServiceRouter oro \<union> keys_in ?ns ServiceSplitter osp \<union> keys_in ?ns ServiceDefaults ode)"
      by (simp add: recorded_entries_def image_Un eqs [symmetric] entry_keys_index [OF ox(1)] entry_keys_index [OF ox(2)]
          entry_keys_index [OF ox(3)] Un_assoc)
    then show ?thesis
      unfolding stale computed_keys [OF dc] by (auto simp: keys_in_def)
  qed
  show "stale_entries a ord g = []" if "map_of (sa_sync a) (rg_ID g) = None"
  proof -
    have "oro = NewConfigEntryIndex ServiceRouter" "osp = NewConfigEntryIndex ServiceSplitter" "ode = NewConfigEntryIndex ServiceDefaults"
      using old that by (simp_all add: entriesForGateway_def)
    then show ?thesis
      by (simp add: stale_entries_def dc old CE_Difference_def CE_filter_def NewConfigEntryIndex_def ToArray_def)
  qed
qed

lemma Sync_ok:
  assumes "Sync cl retry now ord g a w = (True, err, a', w')"
  obtains w1 r r' where "run_phases (sync_phases cl a ord g) w = (None, w1)" and "err = None"
    and "syncIntentions cl retry now r w1 = (None, r', w')"
    and "map_of (sa_sync a') = (map_of (sa_sync a))(rg_ID g \<mapsto>
      (case discoveryChain ord g of (ing, ro, sp, de) \<Rightarrow> \<lparr>st_ingress = ing, st_routers = ro, st_splitters = sp, st_defaults = de\<rparr>))"
proof -
  obtain ing ro sp de where dc: "discoveryChain ord g = (ing, ro, sp, de)"
    by (rule prod_cases4)
  obtain e1 w1 where run: "run_phases (sync_phases cl a ord g) w = (e1, w1)"
    by (rule prod.exhaust)
  let ?a1 = "setEntriesForGateway a g ing ro sp de"
  let ?r = "case map_of (sa_intentions ?a1) (rg_ID g) of None \<Rightarrow> NewIntentionsReconciler ing | Some r \<Rightarrow> updateChainWatchers ing r"
  obtain e2 r' w2 where s: "syncIntentions cl retry now ?r w1 = (e2, r', w2)"
    by (rule prod_cases3)
  have "e1 = None" and "e2 = None" and "err = None" and "w' = w2" and
    "a' = ?a1\<lparr>sa_intentions := AList.update (rg_ID g) r' (sa_intentions ?a1)\<rparr>"
    using assms by (auto simp: Sync_def run dc syncIntentionsForGateway_def Let_def Reconcile_def s
        split: option.splits prod.splits)
  then show ?thesis
    using that [of w1 ?r r'] run s by (simp add: dc setEntriesForGateway_def update_conv')
qed


text \<open>What a state update does to the invariant.\<close>

lemma adapter_ok_recorded:
  assumes "adapter_ok a" and "gomap_ok (sa_sync a')" and "state_ok gid st"
    and "map_of (sa_sync a') = (map_of (sa_sync a))(gid \<mapsto> st)"
  shows "adapter_ok a'"
  using assms by (auto simp: adapter_ok_def)

lemma recorded_computed:
  assumes "discoveryChain ord g = (ing, ro, sp, de)"
  shows "set (recorded_entries \<lparr>st_ingress = ing, st_routers = ro, st_splitters = sp, st_defaults = de\<rparr>) =
    set (computed_entries ord g)"
  by (auto simp: recorded_entries_def computed_entries_def assms)

lemma cfg_after_phases:
  assumes "config_laws cl cfg" and "adapter_ok a" and "run_phases (sync_phases cl a ord g) w = (None, w')"
  shows "e \<in> set (computed_entries ord g) \<Longrightarrow> cfg w' (entry_key e) = Some e"
    and "k \<notin> entry_key ` set (computed_entries ord g) \<Longrightarrow>
      cfg w' k = (if k \<in> entry_key ` set (stale_entries a ord g) then None else cfg w k)"
proof -
  have eq: "cfg w' = remove_all (stale_entries a ord g) (set_all (computed_entries ord g) (cfg w))"
    by (rule run_sync_phases [OF assms(1,3)])
  show "cfg w' (entry_key e) = Some e" if e: "e \<in> set (computed_entries ord g)"
  proof -
    have "entry_key e \<notin> entry_key ` set (stale_entries a ord g)"
      using stale_keys(1) [OF assms(2), where g = g and ord = ord] e by blast
    then show ?thesis
      by (simp add: eq remove_all_def set_all_in [OF distinct_computed_keys e])
  qed
  show "cfg w' k = (if k \<in> entry_key ` set (stale_entries a ord g) then None else cfg w k)"
    if "k \<notin> entry_key ` set (computed_entries ord g)"
    by (simp add: eq remove_all_def set_all_notin [OF that])
qed

text \<open>The entries the adapter has on record for a gateway: none for an unknown gateway.\<close>

definition known_entries :: "SyncAdapter \<Rightarrow> GatewayID \<Rightarrow> ConfigEntry list" where
  "known_entries a gid = (case map_of (sa_sync a) gid of None \<Rightarrow> [] | Some st \<Rightarrow> recorded_entries st)"

lemma stale_known:
  assumes "adapter_ok a" and "k \<notin> entry_key ` set (computed_entries ord g)"
  shows "k \<in> entry_key ` set (stale_entries a ord g) \<longleftrightarrow> k \<in> entry_key ` set (known_entries a (rg_ID g))"
  using stale_keys(2,3) [OF assms(1), of g] assms(2)
  by (cases "map_of (sa_sync a) (rg_ID g)") (simp_all add: known_entries_def)

lemma Sync_records:
  assumes "gomap_ok (sa_sync a)" and "Sync cl retry now ord g a w = (ok, err, a', w')"
  shows "gomap_ok (sa_sync a')"
  using assms
  by (auto simp: Sync_def syncIntentionsForGateway_def setEntriesForGateway_def Let_def gomap_ok_def distinct_update
      split: prod.splits option.splits)

lemma Sync_effect:
  assumes "config_laws cl cfg" and "retry_laws retry" and "adapter_ok a"
    and "Sync cl retry now ord g a w = (True, err, a', w')"
  shows "err = None" and "adapter_ok a'"
    and "e \<in> set (computed_entries ord g) \<Longrightarrow> cfg w' (entry_key e) = Some e"
    and "k \<notin> entry_key ` set (computed_entries ord g) \<Longrightarrow>
      cfg w' k = (if k \<in> entry_key ` set (known_entries a (rg_ID g)) then None else cfg w k)"
    and "set (known_entries a' (rg_ID g)) = set (computed_entries ord g)"
    and "gid \<noteq> rg_ID g \<Longrightarrow> known_entries a' gid = known_entries a gid"
proof -
  obtain ing ro sp de where dc: "discoveryChain ord g = (ing, ro, sp, de)"
    by (rule prod_cases4)
  define st where "st = \<lparr>st_ingress = ing, st_routers = ro, st_splitters = sp, st_defaults = de\<rparr>"
  obtain w1 r r' where run: "run_phases (sync_phases cl a ord g) w = (None, w1)" and err: "err = None"
    and s: "syncIntentions cl retry now r w1 = (None, r', w')"
    and a': "map_of (sa_sync a') = (map_of (sa_sync a))(rg_ID g \<mapsto> st)"
    using Sync_ok [OF assms(4)] by (auto simp: dc st_def)
  have cfg: "cfg w' = cfg w1"
    by (rule keeps_syncIntentions [OF config_laws_keeps [OF assms(1)] assms(2) s])
  show "err = None"
    by (fact err)
  show "adapter_ok a'"
  proof (rule adapter_ok_recorded [OF assms(3) _ _ a'])
    show "gomap_ok (sa_sync a')"
      using assms(3) Sync_records [OF _ assms(4)] by (simp add: adapter_ok_def)
    show "state_ok (rg_ID g) st"
      unfolding st_def by (rule state_ok_computed [OF dc])
  qed
  show "cfg w' (entry_key e) = Some e" if "e \<in> set (computed_entries ord g)"
    unfolding cfg by (rule cfg_after_phases(1) [OF assms(1,3) run that])
  show "cfg w' k = (if k \<in> entry_key ` set (known_entries a (rg_ID g)) then None else cfg w k)"
    if "k \<notin> entry_key ` set (computed_entries ord g)"
    unfolding cfg cfg_after_phases(2) [OF assms(1,3) run that] stale_known [OF assms(3) that] ..
  show "set (known_entries a' (rg_ID g)) = set (computed_entries ord g)"
    by (simp add: known_entries_def a' st_def recorded_computed [OF dc])
  show "known_entries a' gid = known_entries a gid" if "gid \<noteq> rg_ID g"
    using that by (simp add: known_entries_def a')
qed

text \<open>C2: when \<open>Sync\<close> reports success, Consul stores every entry the gateway needs, every entry that was on
  record for the gateway and is no longer needed is gone, no other entry has changed, and the adapter has the
  needed entries on record for this gateway and the same as before for every other one.\<close>

theorem Sync_success:
  assumes "config_laws cl cfg" and "retry_laws retry" and "adapter_ok a"
    and "Sync cl retry now ord g a w = (True, err, a', w')"
  shows "err = None \<and> adapter_ok a' \<and>
    list_all (\<lambda>e. cfg w' (entry_key e) = Some e) (computed_entries ord g) \<and>
    (\<forall>k. k \<in> entry_key ` set (computed_entries ord g) \<or>
       cfg w' k = (if k \<in> entry_key ` set (known_entries a (rg_ID g)) then None else cfg w k)) \<and>
    set (known_entries a' (rg_ID g)) = set (computed_entries ord g) \<and>
    (\<forall>gid. gid = rg_ID g \<or> known_entries a' gid = known_entries a gid)"
  unfolding list_all_iff using Sync_effect [OF assms] by (intro conjI ballI allI) metis+

text \<open>A Consul that keeps the entries in a map, refuses some of them, and has no intentions.\<close>

definition store_consul :: "(ConfigEntry \<Rightarrow> bool) \<Rightarrow> entry_store ConfigEntries" where
  "store_consul refuses =
     \<lparr>cl_Set = (\<lambda>e w. if refuses e then (Some ''refused'', w) else (None, w(entry_key e \<mapsto> e))),
      cl_Delete = (\<lambda>k n ns w. (None, if k = ServiceIntentions then w else w((k, n, ns) := None))),
      cl_CAS = (\<lambda>e i w. (Inr True, w)),
      cl_Get = (\<lambda>n ns w. (Inl ''Unexpected response code: 404'', w))\<rparr>"

lemma config_laws_store: "config_laws (store_consul refuses) id"
  by (auto simp: config_laws_def store_consul_def split: if_splits)


lemma store_set:
  assumes "list_all (\<lambda>e. \<not> refuses e) es"
  shows "setConfigEntries (store_consul refuses) es w = (None, set_all es w)"
proof -
  have "set_entries_loop (store_consul refuses) es errs w = (errs, set_all es w)" for errs
    using assms by (induction es arbitrary: w) (simp_all add: store_consul_def)
  then show ?thesis
    by (simp add: setConfigEntries_def multi_error_def)
qed

lemma store_delete: "\<exists>w'. deleteConfigEntries (store_consul refuses) es w = (None, w')"
proof -
  have "\<exists>w'. delete_entries_loop (store_consul refuses) es errs w = (errs, w')" for errs
    by (induction es arbitrary: w) (simp_all add: store_consul_def)
  then obtain w' where "delete_entries_loop (store_consul refuses) es [] w = ([], w')"
    by blast
  then show ?thesis
    by (simp add: deleteConfigEntries_def)
qed

lemma store_set_all: "setConfigEntries (store_consul (\<lambda>_. False)) es w = (None, set_all es w)"
  by (rule store_set) (simp add: list_all_iff)

lemma store_sync_phases: "\<exists>w'. run_phases (sync_phases (store_consul (\<lambda>_. False)) a ord g) w = (None, w')"
  by (simp add: sync_phases_def run_phases_None store_set_all split: prod.splits del: run_phases.simps(2))
    (metis store_delete)

lemma fresh_syncIntentions:
  "\<exists>r'. syncIntentions cl retry now (NewIntentionsReconciler ingress) w = (None, r', w)"
proof -
  let ?r = "newIntentionsReconciler \<lparr>csn_Name = ig_Name ingress, csn_Namespace = ig_Namespace ingress\<rparr>"
  have "watchers_ok ?r" and "keys (ir_chainWatchers ?r) = names_of (ir_ingressServiceIndex ?r)"
    by (simp_all add: newIntentionsReconciler_def watchers_ok_def)
  note u = updateChainWatchers_spec(5,6) [OF this, of ingress]
  have "all_targets (ir_targetIndex (NewIntentionsReconciler ingress)) = []"
    and "All (ir_targetTombstones (NewIntentionsReconciler ingress)) = []"
    unfolding NewIntentionsReconciler_def u
    by (simp_all add: newIntentionsReconciler_def all_targets_def All_def NewServiceNameIndex_def)
  then show ?thesis
    unfolding syncIntentions_def Let_def by (simp only: add_sources_loop.simps del_sources_loop.simps prod.case) simp
qed

lemma store_Sync:
  assumes "map_of (sa_intentions a) (rg_ID g) = None"
  shows "\<exists>a' w'. Sync (store_consul (\<lambda>_. False)) retry now ord g a w = (True, None, a', w')"
proof -
  obtain w1 where run: "run_phases (sync_phases (store_consul (\<lambda>_. False)) a ord g) w = (None, w1)"
    using store_sync_phases by blast
  obtain ing ro sp de where dc: "discoveryChain ord g = (ing, ro, sp, de)"
    by (rule prod_cases4)
  obtain r' where "syncIntentions (store_consul (\<lambda>_. False)) retry now (NewIntentionsReconciler ing) w1 = (None, r', w1)"
    using fresh_syncIntentions [of "store_consul (\<lambda>_. False)" retry now ing w1] by (elim exE)
  then show ?thesis
    using assms by (simp add: Sync_def run dc syncIntentionsForGateway_def setEntriesForGateway_def Reconcile_def Let_def)
qed

lemma adapter_ok_New: "adapter_ok NewSyncAdapter"
  by (simp add: adapter_ok_def NewSyncAdapter_def)

text \<open>A gateway with one listener and one route.\<close>

definition small_gateway :: ResolvedGateway where
  "small_gateway = example_gateway [example_listener 80 [example_route ''h'' ''/'' ''a'']]"

definition small_router_key :: "Kind \<times> string \<times> string" where
  "small_router_key = (ServiceRouter, ''gw'' @ ''-'' @ hostsKey [''h''], ''default'')"

lemma small_router:
  assumes "discoveryChain ord small_gateway = (ing, ro, sp, de)"
  shows "\<exists>r. RouterEntry r \<in> set (ToArray ro) \<and> entry_key (RouterEntry r) = small_router_key"
proof -
  let ?m = "hostname_route small_gateway ''h'' (host_entries ''h'' [example_route ''h'' ''/'' ''a''])"
  let ?r = "fst (httpRouteDiscoveryChain ?m)"
  have "http_routes (merged_routes ord small_gateway) = [?m]"
    by (simp add: small_gateway_def merged_routes_def http_routes_merge newRouteConsolidator_def consolidator_add_def
        consolidate_def add_rules_eq host_entries_def)
  then have get: "CE_Get ro (''gw'' @ ''-'' @ hostsKey [''h'']) = Some (RouterEntry ?r)"
    by (simp add: discoveryChain_router [OF assms] small_gateway_def)
  then have mem: "RouterEntry ?r \<in> set (ToArray ro)"
    by (rule CE_Get_ToArray)
  have "gid_ConsulNamespace (rg_ID small_gateway) = ''default''"
    by (simp add: small_gateway_def example_gateway_def)
  then have "entry_key (RouterEntry ?r) = (ServiceRouter, ce_GetName (RouterEntry ?r), ''default'')"
    using entry_key_index [OF computed_indexes(1) [OF assms] mem] by simp
  moreover have "ce_GetName (RouterEntry ?r) = ''gw'' @ ''-'' @ hostsKey [''h'']"
    by (simp add: httpRouteDiscoveryChain_def small_gateway_def split: prod.splits)
  ultimately show ?thesis
    using mem by (auto simp: small_router_key_def)
qed

theorem Sync_success_witness:
  "\<exists>a' w' r. Sync (store_consul (\<lambda>_. False)) plain_retry ''now'' insertion_order small_gateway NewSyncAdapter (\<lambda>_. None) = (True, None, a', w') \<and>
     adapter_ok a' \<and> w' small_router_key = Some (RouterEntry r)"
proof -
  obtain ing ro sp de where dc: "discoveryChain insertion_order small_gateway = (ing, ro, sp, de)"
    by (rule prod_cases4)
  obtain r where r: "RouterEntry r \<in> set (ToArray ro)" "entry_key (RouterEntry r) = small_router_key"
    using small_router [OF dc] by blast
  obtain a' w' where s: "Sync (store_consul (\<lambda>_. False)) plain_retry ''now'' insertion_order small_gateway NewSyncAdapter (\<lambda>_. None) = (True, None, a', w')"
    using store_Sync [of NewSyncAdapter small_gateway plain_retry "''now''" insertion_order "\<lambda>_. None"] that by (auto simp: NewSyncAdapter_def)
  note ok = Sync_success [OF config_laws_store retry_laws_plain adapter_ok_New s]
  have "RouterEntry r \<in> set (computed_entries insertion_order small_gateway)"
    using r(1) by (simp add: computed_entries_def dc)
  moreover have "list_all (\<lambda>e. w' (entry_key e) = Some e) (computed_entries insertion_order small_gateway)"
    using ok by simp
  ultimately have "w' small_router_key = Some (RouterEntry r)"
    unfolding list_all_iff r(2) [symmetric] by (rule bspec [rotated])
  with s conjunct1 [OF conjunct2 [OF ok]] show ?thesis
    by (intro exI conjI)
qed


section \<open>Clearing a gateway\<close>

lemma run_clear_phases:
  assumes "config_laws cl cfg" and "run_phases (clear_phases cl st) w = (None, w')"
  shows "cfg w' = remove_all (recorded_entries st) (cfg w)"
proof -
  note eff = deleteConfigEntries_effect [OF assms(1)]
  have rec: "recorded_entries st =
      (([IngressEntry (st_ingress st)] @ ToArray (st_routers st)) @ ToArray (st_splitters st)) @ ToArray (st_defaults st)"
    by (simp add: recorded_entries_def)
  show ?thesis
    using assms(2) unfolding rec
    by (auto simp: clear_phases_def run_phases_None remove_all_append [symmetric] simp del: run_phases.simps(2) append.simps
        dest!: eff)
qed

lemma Clear_ok:
  assumes "Clear cl gid a w = (None, a', w')" and "gomap_ok (sa_sync a)"
  shows "map_of (sa_sync a') = (map_of (sa_sync a))(gid := None)"
    and "has_key (sa_intentions a) gid \<longrightarrow> map_of (sa_sync a) gid \<noteq> None \<Longrightarrow> map_of (sa_intentions a') gid = None"
    and "config_laws cl cfg \<Longrightarrow> cfg w' = remove_all (known_entries a gid) (cfg w)"
proof -
  have *: "map_of (sa_sync a') = (map_of (sa_sync a))(gid := None) \<and>
    ((has_key (sa_intentions a) gid \<longrightarrow> map_of (sa_sync a) gid \<noteq> None) \<longrightarrow> map_of (sa_intentions a') gid = None) \<and>
    (config_laws cl cfg \<longrightarrow> cfg w' = remove_all (known_entries a gid) (cfg w))"
  proof (cases "map_of (sa_sync a) gid")
    case None
    then show ?thesis
      using assms by (auto simp: Clear_def known_entries_def remove_all_def has_key_def)
  next
    case (Some st)
    obtain e1 w1 where run: "run_phases (clear_phases cl st) w = (e1, w1)"
      by (rule prod.exhaust)
    then show ?thesis
      using assms Some run_clear_phases [of cl cfg st w w1]
      by (cases e1)
        (auto simp: Clear_def known_entries_def stopIntentionSyncForGateway_def has_key_def delete_conv')
  qed
  show "map_of (sa_sync a') = (map_of (sa_sync a))(gid := None)"
    and "has_key (sa_intentions a) gid \<longrightarrow> map_of (sa_sync a) gid \<noteq> None \<Longrightarrow> map_of (sa_intentions a') gid = None"
    and "config_laws cl cfg \<Longrightarrow> cfg w' = remove_all (known_entries a gid) (cfg w)"
    using * by simp_all
qed


lemma computed_entries_nonempty: "computed_entries ord g \<noteq> []"
  by (simp add: computed_entries_def split: prod.splits)

text \<open>C4: clearing a gateway after a successful \<open>Sync\<close> removes every entry that the synchronisation wrote or that
  was on record before, changes no other entry, forgets the gateway and its intentions reconciler, and keeps what is on
  record for every other gateway. A \<open>Clear\<close> that fails keeps the record, so that it can be repeated.\<close>

theorem Sync_Clear_roundtrip:
  assumes "config_laws cl cfg" and "retry_laws retry" and "adapter_ok a"
    and "Sync cl retry now ord g a w = (True, err, a1, w1)"
  shows "case Clear cl (rg_ID g) a1 w1 of
      (None, a2, w2) \<Rightarrow>
        cfg w2 = (\<lambda>k. if k \<in> entry_key ` (set (computed_entries ord g) \<union> set (known_entries a (rg_ID g))) then None else cfg w k) \<and>
        known_entries a2 = (known_entries a)(rg_ID g := []) \<and> map_of (sa_intentions a2) (rg_ID g) = None
    | (Some e, a2, w2) \<Rightarrow> a2 = a1"
proof -
  note ok = Sync_effect [OF assms]
  obtain err2 a2 w2 where clear: "Clear cl (rg_ID g) a1 w1 = (err2, a2, w2)"
    by (rule prod_cases3)
  show ?thesis
  proof (cases err2)
    case None
    note c = Clear_ok [OF clear [unfolded None]]
    have good: "gomap_ok (sa_sync a1)"
      using ok(2) by (simp add: adapter_ok_def)
    have "known_entries a1 (rg_ID g) \<noteq> []"
      using ok(5) computed_entries_nonempty [of ord g] by auto
    then have rec: "map_of (sa_sync a1) (rg_ID g) \<noteq> None"
      by (cases "map_of (sa_sync a1) (rg_ID g)") (simp_all add: known_entries_def)
    have "cfg w2 k = (if k \<in> entry_key ` (set (computed_entries ord g) \<union> set (known_entries a (rg_ID g))) then None else cfg w k)" for k
      using ok(4) [of k] ok(5) c(3) [OF good assms(1)] by (simp add: remove_all_def image_Un)
    moreover have "known_entries a2 gid = ((known_entries a)(rg_ID g := [])) gid" for gid
      using ok(6) [of gid] c(1) [OF good] by (auto simp: known_entries_def)
    ultimately show ?thesis
      using c(2) [OF good] rec by (simp add: clear None fun_eq_iff del: split_paired_All)
  next
    case (Some e)
    then have "a2 = a1"
      using clear by (auto simp: Clear_def split: option.splits prod.splits)
    then show ?thesis
      by (simp add: clear Some)
  qed
qed


lemma store_Clear: "\<exists>a' w'. Clear (store_consul refuses) gid a w = (None, a', w')"
proof -
  have "\<exists>w'. run_phases (clear_phases (store_consul refuses) st) w = (None, w')" for st
    by (simp add: clear_phases_def run_phases_None del: run_phases.simps(2)) (metis store_delete)
  then show ?thesis
    by (cases "map_of (sa_sync a) gid") (auto simp: Clear_def, metis case_prod_conv option.case(1))
qed

theorem Sync_Clear_roundtrip_witness:
  "\<exists>a1 w1 a2 w2 r. Sync (store_consul (\<lambda>_. False)) plain_retry ''now'' insertion_order small_gateway NewSyncAdapter (\<lambda>_. None) = (True, None, a1, w1) \<and>
     Clear (store_consul (\<lambda>_. False)) (rg_ID small_gateway) a1 w1 = (None, a2, w2) \<and>
     w1 small_router_key = Some r \<and> w2 = (\<lambda>_. None)"
proof -
  let ?cl = "store_consul (\<lambda>_. False)"
  obtain ing ro sp de where dc: "discoveryChain insertion_order small_gateway = (ing, ro, sp, de)"
    by (rule prod_cases4)
  obtain r where r: "RouterEntry r \<in> set (ToArray ro)" "entry_key (RouterEntry r) = small_router_key"
    using small_router [OF dc] by blast
  obtain a1 w1 where s: "Sync ?cl plain_retry ''now'' insertion_order small_gateway NewSyncAdapter (\<lambda>_. None) = (True, None, a1, w1)"
    using store_Sync [of NewSyncAdapter small_gateway plain_retry "''now''" insertion_order "\<lambda>_. None"] that by (auto simp: NewSyncAdapter_def)
  have w1: "w1 small_router_key = Some (RouterEntry r)"
    using Sync_effect(3) [OF config_laws_store retry_laws_plain adapter_ok_New s, of "RouterEntry r"] r
    by (simp add: computed_entries_def dc)
  obtain a2 w2 where clear: "Clear ?cl (rg_ID small_gateway) a1 w1 = (None, a2, w2)"
    using store_Clear by blast
  have "w2 = (\<lambda>_. None)"
    using Sync_Clear_roundtrip [OF config_laws_store retry_laws_plain adapter_ok_New s]
    by (simp add: clear fun_eq_iff del: split_paired_All)
  with s clear w1 show ?thesis
    by (intro exI conjI)
qed

section \<open>The order of the calls\<close>

text \<open>A client that records the calls on configuration entries with their results, whatever Consul answers to them.\<close>

datatype entry_call = SetCall ConfigEntry | DeleteCall Kind string string

type_synonym call_log = "(entry_call \<times> go_error) list"

definition traced :: "'w ConfigEntries \<Rightarrow> ('w \<times> call_log) ConfigEntries" where
  "traced cl =
     \<lparr>cl_Set = (\<lambda>e (w, t). case cl_Set cl e w of (r, w') \<Rightarrow> (r, w', t @ [(SetCall e, r)])),
      cl_Delete = (\<lambda>k n ns (w, t). case cl_Delete cl k n ns w of (r, w') \<Rightarrow>
        (r, w', if k = ServiceIntentions then t else t @ [(DeleteCall k n ns, r)])),
      cl_CAS = (\<lambda>e i (w, t). case cl_CAS cl e i w of (r, w') \<Rightarrow> (r, w', t)),
      cl_Get = (\<lambda>n ns (w, t). case cl_Get cl n ns w of (r, w') \<Rightarrow> (r, w', t))\<rparr>"

definition delete_call :: "ConfigEntry \<Rightarrow> entry_call" where
  "delete_call e = DeleteCall (ce_GetKind e) (ce_GetName e) (ce_GetNamespace e)"

definition accepted :: "call_log \<Rightarrow> bool" where
  "accepted calls \<longleftrightarrow> list_all (\<lambda>c. snd c = None) calls"

text \<open>The calls of a synchronisation, phase by phase.\<close>

definition planned_calls :: "SyncAdapter \<Rightarrow> host_order \<Rightarrow> ResolvedGateway \<Rightarrow> entry_call list list" where
  "planned_calls a ord g =
     (case discoveryChain ord g of (ingress, routers, splitters, defaults) \<Rightarrow>
        (case entriesForGateway a (rg_ID g) of (_, oldRouters, oldSplitters, oldDefaults) \<Rightarrow>
           [map SetCall (ToArray defaults), map SetCall (ToArray routers), map SetCall (ToArray splitters),
            [SetCall (IngressEntry ingress)],
            map delete_call (ToArray (CE_Difference routers oldRouters)),
            map delete_call (ToArray (CE_Difference splitters oldSplitters)),
            map delete_call (ToArray (CE_Difference defaults oldDefaults))]))"

text \<open>The calls that were made when the phases of a plan run one after the other up to the first with a failed call:
  all calls of the phases before it, each accepted, and all calls of that phase.\<close>

definition stopped_at_failure :: "entry_call list list \<Rightarrow> call_log \<Rightarrow> bool" where
  "stopped_at_failure plan calls \<longleftrightarrow>
     (\<exists>n < length plan. \<exists>before failing. calls = before @ failing \<and>
        map fst before = concat (take n plan) \<and> accepted before \<and> map fst failing = plan ! n \<and> \<not> accepted failing)"

lemma accepted_simps [simp]:
  "accepted []" "accepted (c # cs) \<longleftrightarrow> snd c = None \<and> accepted cs" "accepted (cs @ ds) \<longleftrightarrow> accepted cs \<and> accepted ds"
  by (simp_all add: accepted_def)

lemma keeps_traced: "keeps (traced cl) snd"
  by (simp add: keeps_def traced_def split: prod.splits)

text \<open>What a phase logs: its calls, and an error just when a call failed.\<close>

definition logs_phase :: "('w \<times> call_log \<Rightarrow> go_error \<times> 'w \<times> call_log) \<Rightarrow> entry_call list \<Rightarrow> bool" where
  "logs_phase phase plan \<longleftrightarrow>
     (\<forall>x. \<exists>calls. snd (snd (phase x)) = snd x @ calls \<and> map fst calls = plan \<and> (fst (phase x) = None \<longleftrightarrow> accepted calls))"

lemma traced_set_loop:
  "\<exists>calls. snd (snd (set_entries_loop (traced cl) es errs x)) = snd x @ calls \<and> map fst calls = map SetCall es \<and>
     (fst (set_entries_loop (traced cl) es errs x) = [] \<longleftrightarrow> errs = [] \<and> accepted calls)"
proof (induction es arbitrary: errs x)
  case (Cons e es)
  obtain w t where x: "x = (w, t)" by (rule prod.exhaust)
  obtain r w1 where set: "cl_Set cl e w = (r, w1)" by (rule prod.exhaust)
  define errs1 where "errs1 = (case r of None \<Rightarrow> errs | Some m \<Rightarrow> errs @ [m])"
  have step: "set_entries_loop (traced cl) (e # es) errs x = set_entries_loop (traced cl) es errs1 (w1, t @ [(SetCall e, r)])"
    by (simp add: x traced_def set errs1_def)
  obtain calls where "snd (snd (set_entries_loop (traced cl) es errs1 (w1, t @ [(SetCall e, r)]))) = (t @ [(SetCall e, r)]) @ calls"
    and "map fst calls = map SetCall es"
    and "fst (set_entries_loop (traced cl) es errs1 (w1, t @ [(SetCall e, r)])) = [] \<longleftrightarrow> errs1 = [] \<and> accepted calls"
    using Cons.IH [of errs1 "(w1, t @ [(SetCall e, r)])"] by auto
  moreover have "errs1 = [] \<longleftrightarrow> errs = [] \<and> r = None"
    by (simp add: errs1_def split: option.split)
  ultimately show ?case
    unfolding step by (intro exI [of _ "(SetCall e, r) # calls"]) (simp add: x)
qed simp

lemma traced_delete_loop:
  "\<exists>calls. snd (snd (delete_entries_loop (traced cl) es errs x)) = snd x @ calls \<and> map fst calls = map delete_call es \<and>
     (fst (delete_entries_loop (traced cl) es errs x) = [] \<longleftrightarrow> errs = [] \<and> accepted calls)"
proof (induction es arbitrary: errs x)
  case (Cons e es)
  obtain w t where x: "x = (w, t)" by (rule prod.exhaust)
  obtain r w1 where del: "cl_Delete cl (ce_GetKind e) (ce_GetName e) (ce_GetNamespace e) w = (r, w1)" by (rule prod.exhaust)
  define errs1 where "errs1 = (case r of None \<Rightarrow> errs | Some m \<Rightarrow> errs @ [m])"
  have step: "delete_entries_loop (traced cl) (e # es) errs x = delete_entries_loop (traced cl) es errs1 (w1, t @ [(delete_call e, r)])"
    by (simp add: x traced_def del errs1_def delete_call_def)
  obtain calls where "snd (snd (delete_entries_loop (traced cl) es errs1 (w1, t @ [(delete_call e, r)]))) = (t @ [(delete_call e, r)]) @ calls"
    and "map fst calls = map delete_call es"
    and "fst (delete_entries_loop (traced cl) es errs1 (w1, t @ [(delete_call e, r)])) = [] \<longleftrightarrow> errs1 = [] \<and> accepted calls"
    using Cons.IH [of errs1 "(w1, t @ [(delete_call e, r)])"] by auto
  moreover have "errs1 = [] \<longleftrightarrow> errs = [] \<and> r = None"
    by (simp add: errs1_def split: option.split)
  ultimately show ?case
    unfolding step by (intro exI [of _ "(delete_call e, r) # calls"]) (simp add: x)
qed simp

lemma logs_set: "logs_phase (setConfigEntries (traced cl) es) (map SetCall es)"
  using traced_set_loop [of cl es "[]"] by (simp add: logs_phase_def setConfigEntries_def case_prod_beta)

lemma logs_set_one: "logs_phase (setConfigEntries (traced cl) [e]) [SetCall e]"
  using logs_set [of cl "[e]"] by simp

lemma logs_delete: "logs_phase (deleteConfigEntries (traced cl) es) (map delete_call es)"
  using traced_delete_loop [of cl es "[]"] by (simp add: logs_phase_def deleteConfigEntries_def case_prod_beta)

lemma stopped_at_failure_Cons:
  assumes "map fst calls = p" and "accepted calls" and "stopped_at_failure plan rest"
  shows "stopped_at_failure (p # plan) (calls @ rest)"
proof -
  obtain n before failing where n: "n < length plan" "rest = before @ failing" "map fst before = concat (take n plan)"
    "accepted before" "map fst failing = plan ! n" "\<not> accepted failing"
    using assms(3) unfolding stopped_at_failure_def by (elim exE conjE)
  show ?thesis
    unfolding stopped_at_failure_def
    by (intro exI [of _ "Suc n"] exI [of _ "calls @ before"] exI [of _ failing] conjI) (use n assms in simp_all)
qed

lemma run_phases_log:
  assumes "list_all2 (\<lambda>phase. logs_phase (snd phase)) phases plan"
  shows "\<exists>calls. snd (snd (run_phases phases x)) = snd x @ calls \<and>
    (if fst (run_phases phases x) = None then map fst calls = concat plan \<and> accepted calls else stopped_at_failure plan calls)"
  using assms
proof (induction phases plan arbitrary: x rule: list_all2_induct)
  case (Cons phase phases p plan)
  obtain what f where phase: "phase = (what, f)" by (rule prod.exhaust)
  obtain err x1 where f: "f x = (err, x1)" by (rule prod.exhaust)
  obtain calls where calls: "snd x1 = snd x @ calls" "map fst calls = p" "err = None \<longleftrightarrow> accepted calls"
    using Cons.hyps(1) [unfolded logs_phase_def, THEN spec, of x] that by (auto simp: phase f)
  show ?case
  proof (cases err)
    case None
    obtain rest where rest: "snd (snd (run_phases phases x1)) = snd x1 @ rest"
      "if fst (run_phases phases x1) = None then map fst rest = concat plan \<and> accepted rest else stopped_at_failure plan rest"
      using Cons.IH by blast
    show ?thesis
      using rest calls None by (intro exI [of _ "calls @ rest"])
        (simp add: phase f stopped_at_failure_Cons [OF calls(2)] split: if_splits)
  next
    case (Some e)
    have "stopped_at_failure (p # plan) calls"
      unfolding stopped_at_failure_def
      by (intro exI [of _ 0] exI [of _ "[]"] exI [of _ calls] conjI) (use calls Some in simp_all)
    then show ?thesis
      using calls Some by (intro exI [of _ calls]) (simp add: phase f)
  qed
qed simp

lemma sync_phases_log:
  "list_all2 (\<lambda>phase. logs_phase (snd phase)) (sync_phases (traced cl) a ord g) (planned_calls a ord g)"
  by (simp add: sync_phases_def planned_calls_def logs_set logs_set_one logs_delete split: prod.splits)

text \<open>C3: whatever Consul answers, \<open>Sync\<close> makes the planned calls phase by phase: the service defaults,
  routers and splitters first, then the ingress gateway, then the removals. It never starts a phase after an error
  in an earlier one: either every planned call was made and accepted, or the calls end with the first phase in which one
  failed, every call of the earlier phases having been accepted, and then \<open>Sync\<close> fails and keeps what the adapter has on
  record. Success is reported only without an error and after every planned call.\<close>

theorem Sync_order:
  assumes "retry_laws retry"
  shows "case Sync (traced cl) retry now ord g a (w, []) of (ok, err, a', w', calls) \<Rightarrow>
    (ok \<longleftrightarrow> err = None) \<and>
    (if accepted calls then map fst calls = concat (planned_calls a ord g)
     else stopped_at_failure (planned_calls a ord g) calls \<and> \<not> ok \<and> a' = a)"
proof -
  obtain e1 x1 where run: "run_phases (sync_phases (traced cl) a ord g) (w, []) = (e1, x1)"
    by (rule prod.exhaust)
  have log: "if e1 = None then map fst (snd x1) = concat (planned_calls a ord g) \<and> accepted (snd x1)
      else stopped_at_failure (planned_calls a ord g) (snd x1)"
    using run_phases_log [OF sync_phases_log [of cl a ord g], of "(w, [])"] by (auto simp: run)
  show ?thesis
  proof (cases e1)
    case None
    obtain ing ro sp de where dc: "discoveryChain ord g = (ing, ro, sp, de)"
      by (rule prod_cases4)
    obtain e2 a2 x2 where s: "syncIntentionsForGateway (traced cl) retry now (rg_ID g) ing (setEntriesForGateway a g ing ro sp de) x1 = (e2, a2, x2)"
      by (rule prod_cases3)
    have "snd x2 = snd x1"
      using s keeps_syncIntentions [OF keeps_traced assms]
      by (auto simp: syncIntentionsForGateway_def Reconcile_def Let_def split: prod.splits)
    then show ?thesis
      using log None by (cases x2; cases e2) (simp_all add: Sync_def run dc s)
  next
    case (Some e)
    have "\<not> accepted (snd x1)"
      using log Some by (auto simp: stopped_at_failure_def)
    then show ?thesis
      using log Some by (cases x1) (simp add: Sync_def run)
  qed
qed

theorem Sync_order_witness:
  "\<exists>err a' w' calls.
     Sync (traced (store_consul (\<lambda>e. ce_GetKind e = IngressGateway))) plain_retry ''now'' insertion_order small_gateway NewSyncAdapter (\<lambda>_. None, []) =
       (False, err, a', w', calls) \<and> \<not> accepted calls \<and>
     stopped_at_failure (planned_calls NewSyncAdapter insertion_order small_gateway) calls \<and> a' = NewSyncAdapter"
proof -
  let ?cl = "store_consul (\<lambda>e. ce_GetKind e = IngressGateway)"
  obtain ok err a' w' calls where s: "Sync (traced ?cl) plain_retry ''now'' insertion_order small_gateway NewSyncAdapter (\<lambda>_. None, []) = (ok, err, a', w', calls)"
    by (rule prod_cases5)
  have *: "(ok \<longleftrightarrow> err = None) \<and> (if accepted calls then map fst calls = concat (planned_calls NewSyncAdapter insertion_order small_gateway)
      else stopped_at_failure (planned_calls NewSyncAdapter insertion_order small_gateway) calls \<and> \<not> ok \<and> a' = NewSyncAdapter)"
    using Sync_order [OF retry_laws_plain, where cl = ?cl and now = "''now''" and g = small_gateway and a = NewSyncAdapter
        and w = "\<lambda>_. None" and ord = insertion_order] unfolding s prod.case .
  obtain e1 x1 where run: "run_phases (sync_phases (traced ?cl) NewSyncAdapter insertion_order small_gateway) (\<lambda>_. None, []) = (e1, x1)"
    by (rule prod.exhaust)
  have refused: "setConfigEntries (traced ?cl) [IngressEntry i] x \<noteq> (None, x')" for i x x'
    by (cases x) (simp add: setConfigEntries_def traced_def store_consul_def multi_error_def)
  have e1: "e1 \<noteq> None"
  proof
    assume "e1 = None"
    then show False
      using run refused by (auto simp: sync_phases_def run_phases_None simp del: run_phases.simps(2) split: prod.splits)
  qed
  then have "ok = False" and "calls = snd x1"
    using s by (auto simp: Sync_def run split: option.splits)
  moreover have "stopped_at_failure (planned_calls NewSyncAdapter insertion_order small_gateway) (snd x1)"
    using run_phases_log [OF sync_phases_log [of ?cl NewSyncAdapter insertion_order small_gateway], of "(\<lambda>_. None, [])"] e1
    by (auto simp: run)
  then have "\<not> accepted (snd x1)"
    by (auto simp: stopped_at_failure_def)
  ultimately show ?thesis
    using s * by auto
qed

section \<open>What a failed synchronisation leaves behind\<close>

text \<open>C34: a first synchronisation that fails after its first phases has stored entries that are on no record:
  a later \<open>Clear\<close> of the gateway reports success and removes none of them.\<close>

theorem failed_sync_leaks:
  "\<exists>w' r. Sync (store_consul (\<lambda>e. ce_GetKind e = IngressGateway)) retry now ord small_gateway NewSyncAdapter (\<lambda>_. None) =
      (False, Some ''error adding ingress config entry: refused'', NewSyncAdapter, w') \<and>
     w' small_router_key = Some (RouterEntry r) \<and>
     Clear (store_consul (\<lambda>e. ce_GetKind e = IngressGateway)) (rg_ID small_gateway) NewSyncAdapter w' = (None, NewSyncAdapter, w')"
proof -
  let ?refuses = "\<lambda>e. ce_GetKind e = IngressGateway"
  obtain ing ro sp de where dc: "discoveryChain ord small_gateway = (ing, ro, sp, de)"
    by (rule prod_cases4)
  note ix = computed_indexes [OF dc]
  obtain r where r: "RouterEntry r \<in> set (ToArray ro)" "entry_key (RouterEntry r) = small_router_key"
    using small_router [OF dc] by blast
  let ?w' = "set_all (ToArray sp) (set_all (ToArray ro) (set_all (ToArray de) (\<lambda>_. None)))"
  have kinds: "list_all (\<lambda>e. \<not> ?refuses e) (ToArray i)" if "index_in k P i" "k \<noteq> IngressGateway" for k P i
    using that by (auto simp: list_all_iff index_in_def index_ok_def ToArray_def)
  have "Sync (store_consul ?refuses) retry now ord small_gateway NewSyncAdapter (\<lambda>_. None) =
      (False, Some ''error adding ingress config entry: refused'', NewSyncAdapter, ?w')"
    by (simp add: Sync_def sync_phases_def dc Let_def store_set kinds [OF ix(1)] kinds [OF ix(2)] kinds [OF ix(3)] split: prod.splits)
      (simp add: setConfigEntries_def store_consul_def multi_error_def)
  moreover have "small_router_key \<notin> entry_key ` set (ToArray sp)"
    unfolding entry_keys_index [OF ix(2)] by (auto simp: keys_in_def small_router_key_def)
  then have "?w' small_router_key = Some (RouterEntry r)"
    using set_all_in [OF distinct_index_keys [OF ix(1)] r(1)] by (simp add: set_all_notin r(2))
  moreover have "Clear (store_consul ?refuses) (rg_ID small_gateway) NewSyncAdapter ?w' = (None, NewSyncAdapter, ?w')"
    by (simp add: Clear_def NewSyncAdapter_def)
  ultimately show ?thesis
    by blast
qed

end
