(* ===== verification/JSON_Text.thy ===== *)
theory JSON_Text
  imports Go_Prelude "HOL-Library.Monad_Syntax"
begin

text \<open>
  The part of \<open>encoding/json\<close> that the sources use on maps from strings to strings: \<open>json.Marshal\<close> writes
  the keys in order, with the HTML-safe escapes, and replaces bytes that are not UTF-8; \<open>json.Unmarshal\<close> reads
  an object whose values are strings or \<open>null\<close> and reports an error for every other text. The texts of the errors
  are not modelled. The lemmas show that reading what was written gives the map back.
\<close>

section \<open>UTF-8\<close>

definition byte :: "char \<Rightarrow> nat" where
  "byte c = of_char c"

definition in_range :: "nat \<Rightarrow> nat \<Rightarrow> char \<Rightarrow> bool" where
  "in_range lo hi c \<longleftrightarrow> lo \<le> byte c \<and> byte c \<le> hi"

definition continuation :: "char \<Rightarrow> bool" where
  "continuation = in_range 0x80 0xBF"

text \<open>The number of bytes that follow a first byte above 127 in a well-formed encoding of a rune.\<close>

definition second_ok :: "char \<Rightarrow> char \<Rightarrow> bool" where
  "second_ok b c \<longleftrightarrow>
     (if byte b = 0xE0 then in_range 0xA0 0xBF c
      else if byte b = 0xED then in_range 0x80 0x9F c
      else if byte b = 0xF0 then in_range 0x90 0xBF c
      else if byte b = 0xF4 then in_range 0x80 0x8F c
      else continuation c)"

definition rune_tail :: "char \<Rightarrow> string \<Rightarrow> nat option" where
  "rune_tail b s =
     (if in_range 0xC2 0xDF b \<and> 1 \<le> length s \<and> continuation (s ! 0) then Some 1
      else if in_range 0xE0 0xEF b \<and> 2 \<le> length s \<and> second_ok b (s ! 0) \<and> continuation (s ! 1) then Some 2
      else if in_range 0xF0 0xF4 b \<and> 3 \<le> length s \<and> second_ok b (s ! 0) \<and> continuation (s ! 1) \<and> continuation (s ! 2)
      then Some 3
      else None)"

lemma rune_tail_length: "rune_tail b s = Some n \<Longrightarrow> n \<le> length s \<and> 1 \<le> n"
  by (auto simp: rune_tail_def split: if_splits)

lemma rune_tail_take:
  assumes "rune_tail b s = Some n"
  shows "rune_tail b (take n s @ t) = Some n"
proof -
  have n: "n \<le> length s"
    using rune_tail_length [OF assms] by simp
  then have eq: "(take n s @ t) ! i = s ! i" if "i < n" for i
    using that by (simp add: nth_append)
  have apart: "in_range 0xE0 0xEF b \<Longrightarrow> \<not> in_range 0xC2 0xDF b" "in_range 0xF0 0xF4 b \<Longrightarrow> \<not> in_range 0xC2 0xDF b"
    "in_range 0xF0 0xF4 b \<Longrightarrow> \<not> in_range 0xE0 0xEF b"
    by (simp_all add: in_range_def)
  consider "n = 1" | "n = 2" | "n = 3"
    using assms by (simp add: rune_tail_def split: if_splits)
  then show ?thesis
    by cases (use assms n eq apart in \<open>auto simp: rune_tail_def split: if_splits\<close>)
qed

function utf8_valid :: "string \<Rightarrow> bool" where
  "utf8_valid [] = True"
| "utf8_valid (b # s) =
     (if byte b < 128 then utf8_valid s
      else (case rune_tail b s of None \<Rightarrow> False | Some n \<Rightarrow> utf8_valid (drop n s)))"
  by pat_completeness auto
termination
  by (relation "measure length") (auto dest: rune_tail_length)

definition encode_rune :: "nat \<Rightarrow> string" where
  "encode_rune r =
     (if r < 0x80 then [char_of r]
      else if r < 0x800 then [char_of (0xC0 + r div 64), char_of (0x80 + r mod 64)]
      else if r < 0x10000 then
        [char_of (0xE0 + r div 4096), char_of (0x80 + r div 64 mod 64), char_of (0x80 + r mod 64)]
      else
        [char_of (0xF0 + r div 262144), char_of (0x80 + r div 4096 mod 64), char_of (0x80 + r div 64 mod 64),
         char_of (0x80 + r mod 64)])"

section \<open>Strings\<close>

definition quote_char :: char where
  "quote_char = CHR 0x22"

definition backslash :: char where
  "backslash = CHR 0x5C"

definition escape_ascii :: "char \<Rightarrow> string" where
  "escape_ascii b =
     (if b = backslash \<or> b = quote_char then [backslash, b]
      else if b = CHR 0x0A then [backslash, CHR ''n'']
      else if b = CHR 0x0D then [backslash, CHR ''r'']
      else if b = CHR 0x09 then [backslash, CHR ''t'']
      else if byte b < 0x20 \<or> b = CHR ''<'' \<or> b = CHR ''>'' \<or> b = CHR ''&''
      then [backslash, CHR ''u'', CHR ''0'', CHR ''0'', digit_char (byte b div 16), digit_char (byte b mod 16)]
      else [b])"

definition replacement_escape :: string where
  "replacement_escape = backslash # ''ufffd''"

text \<open>The body of a JSON string, without its quotes. U+2028 and U+2029 are escaped.\<close>

function escape :: "string \<Rightarrow> string" where
  "escape [] = []"
| "escape (b # s) =
     (if byte b < 128 then escape_ascii b @ escape s
      else (case rune_tail b s of
              None \<Rightarrow> replacement_escape @ escape s
            | Some n \<Rightarrow>
                if b # take n s = encode_rune 0x2028 then backslash # ''u2028'' @ escape (drop n s)
                else if b # take n s = encode_rune 0x2029 then backslash # ''u2029'' @ escape (drop n s)
                else b # take n s @ escape (drop n s)))"
  by pat_completeness auto
termination
  by (relation "measure length") (auto dest: rune_tail_length)

definition hex_val :: "char \<Rightarrow> nat option" where
  "hex_val c =
     (if in_range 0x30 0x39 c then Some (byte c - 0x30)
      else if in_range 0x61 0x66 c then Some (byte c - 0x61 + 10)
      else if in_range 0x41 0x46 c then Some (byte c - 0x41 + 10)
      else None)"

fun hex4 :: "string \<Rightarrow> (nat \<times> string) option" where
  "hex4 (a # b # c # d # s) =
     (case (hex_val a, hex_val b, hex_val c, hex_val d) of
        (Some x, Some y, Some z, Some w) \<Rightarrow> Some (((x * 16 + y) * 16 + z) * 16 + w, s)
      | _ \<Rightarrow> None)"
| "hex4 _ = None"

text \<open>The rune of a \<open>\u\<close> escape and what follows it: half of a surrogate pair needs its other half.\<close>

definition unicode_escape :: "string \<Rightarrow> (nat \<times> string) option" where
  "unicode_escape s =
     (case hex4 s of
        None \<Rightarrow> None
      | Some (r, s1) \<Rightarrow>
          if r < 0xD800 \<or> 0xDFFF < r then Some (r, s1)
          else (case s1 of
                  b # u # s2 \<Rightarrow>
                    (if r < 0xDC00 \<and> b = backslash \<and> u = CHR ''u'' then
                       (case hex4 s2 of
                          Some (r2, s3) \<Rightarrow>
                            if 0xDC00 \<le> r2 \<and> r2 \<le> 0xDFFF then Some (0x10000 + (r - 0xD800) * 1024 + (r2 - 0xDC00), s3)
                            else Some (0xFFFD, s1)
                        | None \<Rightarrow> Some (0xFFFD, s1))
                     else Some (0xFFFD, s1))
                | _ \<Rightarrow> Some (0xFFFD, s1)))"

definition simple_escape :: "char \<Rightarrow> char option" where
  "simple_escape e =
     (if e = quote_char \<or> e = backslash \<or> e = CHR ''/'' then Some e
      else if e = CHR ''b'' then Some (CHR 0x08)
      else if e = CHR ''f'' then Some (CHR 0x0C)
      else if e = CHR ''n'' then Some (CHR 0x0A)
      else if e = CHR ''r'' then Some (CHR 0x0D)
      else if e = CHR ''t'' then Some (CHR 0x09)
      else None)"

definition prepend :: "string \<Rightarrow> (string \<times> string) option \<Rightarrow> (string \<times> string) option" where
  "prepend p x = map_option (\<lambda>(a, b). (p @ a, b)) x"

lemma hex4_length: "hex4 s = Some (r, s') \<Longrightarrow> length s' < length s"
  by (induction s rule: hex4.induct) (auto split: option.splits)

lemma unicode_escape_length: "unicode_escape s = Some (r, s') \<Longrightarrow> length s' < length s"
  by (auto simp: unicode_escape_def dest!: hex4_length split: option.splits list.splits if_splits prod.splits)

text \<open>The string whose body starts here, and what follows its closing quote.\<close>

function unescape :: "string \<Rightarrow> (string \<times> string) option" where
  "unescape [] = None"
| "unescape (b # s) =
     (if b = quote_char then Some ([], s)
      else if b = backslash then
        (case s of
           [] \<Rightarrow> None
         | e # s1 \<Rightarrow>
             if e = CHR ''u'' then
               (case unicode_escape s1 of None \<Rightarrow> None | Some (r, s2) \<Rightarrow> prepend (encode_rune r) (unescape s2))
             else (case simple_escape e of None \<Rightarrow> None | Some c \<Rightarrow> prepend [c] (unescape s1)))
      else if byte b < 0x20 then None
      else if byte b < 0x80 then prepend [b] (unescape s)
      else (case rune_tail b s of
              None \<Rightarrow> prepend (encode_rune 0xFFFD) (unescape s)
            | Some n \<Rightarrow> prepend (b # take n s) (unescape (drop n s))))"
  by pat_completeness auto
termination
  by (relation "measure length") (auto dest: rune_tail_length unicode_escape_length)

section \<open>Strings round trip\<close>

lemma byte_char_of [simp]: "byte (char_of n) = n mod 256"
  by (simp add: byte_def)

lemma char_of_byte [simp]: "char_of (byte c) = c"
  by (simp add: byte_def)

lemma byte_less: "byte c < 256"
  by (metis byte_char_of char_of_byte mod_less_divisor zero_less_numeral)

lemma byte_neq: "byte b \<noteq> byte c \<Longrightarrow> b \<noteq> c"
  by blast

lemma special_bytes [simp]:
  "byte quote_char = 0x22" "byte backslash = 0x5C"
  by (simp_all add: byte_def quote_char_def backslash_def)

lemma hex_digit: "d < 16 \<Longrightarrow> hex_val (digit_char d) = Some d"
  by (auto simp: hex_val_def digit_char_def in_range_def)

lemma unescape_ascii:
  assumes "byte b < 128"
  shows "unescape (escape_ascii b @ r) = prepend [b] (unescape r)"
proof -
  let ?html = "byte b < 0x20 \<or> b = CHR ''<'' \<or> b = CHR ''>'' \<or> b = CHR ''&''"
  have special: "backslash \<noteq> quote_char"
    by (rule byte_neq) simp
  consider (bs) "b = backslash" | (q) "b = quote_char" | (nl) "b = CHR 0x0A" | (cr) "b = CHR 0x0D" | (tab) "b = CHR 0x09"
    | (u) "b \<noteq> backslash" "b \<noteq> quote_char" "b \<noteq> CHR 0x0A" "b \<noteq> CHR 0x0D" "b \<noteq> CHR 0x09" ?html
    | (plain) "b \<noteq> backslash" "b \<noteq> quote_char" "b \<noteq> CHR 0x0A" "b \<noteq> CHR 0x0D" "b \<noteq> CHR 0x09" "\<not> ?html"
    by blast
  then show ?thesis
  proof cases
    case u
    then have esc: "escape_ascii b =
        [backslash, CHR ''u'', CHR ''0'', CHR ''0'', digit_char (byte b div 16), digit_char (byte b mod 16)]"
      unfolding escape_ascii_def by presburger
    have "hex_val (CHR ''0'') = Some 0"
      by (simp add: hex_val_def in_range_def byte_def)
    moreover have "byte b div 16 < 16"
      using assms by simp
    ultimately have "hex4 (CHR ''0'' # CHR ''0'' # digit_char (byte b div 16) # digit_char (byte b mod 16) # r) = Some (byte b, r)"
      by (simp add: hex_digit)
    then have "unicode_escape (CHR ''0'' # CHR ''0'' # digit_char (byte b div 16) # digit_char (byte b mod 16) # r) = Some (byte b, r)"
      using assms by (simp add: unicode_escape_def)
    moreover have "encode_rune (byte b) = [b]"
      using assms by (simp add: encode_rune_def)
    ultimately show ?thesis
      by (simp add: esc special)
  next
    case plain
    then have "escape_ascii b = [b]"
      unfolding escape_ascii_def by presburger
    then show ?thesis
      using plain assms by simp
  qed (simp_all add: escape_ascii_def simple_escape_def quote_char_def backslash_def byte_def)
qed

lemma unescape_high:
  assumes "\<not> byte b < 128" and "rune_tail b s = Some n"
  shows "unescape (b # take n s @ r) = prepend (b # take n s) (unescape r)"
proof -
  have "b \<noteq> quote_char" and "b \<noteq> backslash"
    using assms(1) by (auto intro: byte_neq)
  moreover have "rune_tail b (take n s @ r) = Some n"
    by (rule rune_tail_take [OF assms(2)])
  ultimately show ?thesis
    using assms rune_tail_length [OF assms(2)] by simp
qed

lemma unescape_separator:
  "unescape (backslash # ''u2028'' @ r) = prepend (encode_rune 0x2028) (unescape r)"
  "unescape (backslash # ''u2029'' @ r) = prepend (encode_rune 0x2029) (unescape r)"
proof -
  have "unicode_escape (''2028'' @ r) = Some (0x2028, r)" and "unicode_escape (''2029'' @ r) = Some (0x2029, r)"
    by (simp_all add: unicode_escape_def hex_val_def in_range_def byte_def)
  moreover have "backslash \<noteq> quote_char"
    by (rule byte_neq) simp
  ultimately show "unescape (backslash # ''u2028'' @ r) = prepend (encode_rune 0x2028) (unescape r)"
    and "unescape (backslash # ''u2029'' @ r) = prepend (encode_rune 0x2029) (unescape r)"
    by simp_all
qed

lemma prepend_simps [simp]: "prepend p (Some (a, b)) = Some (p @ a, b)" "prepend p None = None"
  by (simp_all add: prepend_def)

lemma unescape_escape: "utf8_valid s \<Longrightarrow> unescape (escape s @ quote_char # r) = Some (s, r)"
proof (induction s rule: utf8_valid.induct)
  case (2 b s)
  show ?case
  proof (cases "byte b < 128")
    case True
    then show ?thesis
      using 2 by (simp add: unescape_ascii del: unescape.simps(2))
  next
    case False
    then obtain n where n: "rune_tail b s = Some n" and v: "utf8_valid (drop n s)"
      using "2.prems" by (auto split: option.splits)
    note IH = "2.IH"(2) [OF False n v]
    have id: "b # take n s @ drop n s = b # s"
      by simp
    consider (sep1) "b # take n s = encode_rune 0x2028" | (sep2) "b # take n s = encode_rune 0x2029"
      | (other) "b # take n s \<noteq> encode_rune 0x2028" "b # take n s \<noteq> encode_rune 0x2029"
      by blast
    then show ?thesis
    proof cases
      case sep1
      then have "escape (b # s) = backslash # ''u2028'' @ escape (drop n s)"
        using False n by simp
      then have "unescape (escape (b # s) @ quote_char # r) = prepend (b # take n s) (Some (drop n s, r))"
        using unescape_separator(1) [of "escape (drop n s) @ quote_char # r"] IH by (simp only: sep1 append_Cons append_assoc)
      then show ?thesis
        by simp
    next
      case sep2
      then have "encode_rune 0x2029 \<noteq> encode_rune 0x2028"
        by (simp add: encode_rune_def)
      then have "escape (b # s) = backslash # ''u2029'' @ escape (drop n s)"
        using False n sep2 by simp
      then have "unescape (escape (b # s) @ quote_char # r) = prepend (b # take n s) (Some (drop n s, r))"
        using unescape_separator(2) [of "escape (drop n s) @ quote_char # r"] IH by (simp only: sep2 append_Cons append_assoc)
      then show ?thesis
        by simp
    next
      case other
      then have "escape (b # s) = b # take n s @ escape (drop n s)"
        using False n by simp
      then have "unescape (escape (b # s) @ quote_char # r) = prepend (b # take n s) (Some (drop n s, r))"
        using unescape_high [OF False n, of "escape (drop n s) @ quote_char # r"] IH by (simp only: append_Cons append_assoc)
      then show ?thesis
        by simp
    qed
  qed
qed simp


section \<open>Maps from strings to strings\<close>

definition quoted :: "string \<Rightarrow> string" where
  "quoted s = quote_char # escape s @ [quote_char]"

definition marshal_entry :: "string \<times> string \<Rightarrow> string" where
  "marshal_entry e = quoted (fst e) @ '':'' @ quoted (snd e)"

definition json_marshal :: "(string, string) gomap \<Rightarrow> string" where
  "json_marshal data = ''{'' @ join '','' (map marshal_entry (sort_key fst data)) @ ''}''"

definition skip_ws :: "string \<Rightarrow> string" where
  "skip_ws = dropWhile (\<lambda>c. c \<in> {CHR '' '', CHR 0x09, CHR 0x0A, CHR 0x0D})"

definition expect :: "char \<Rightarrow> string \<Rightarrow> string option" where
  "expect c s = (case skip_ws s of [] \<Rightarrow> None | x # t \<Rightarrow> if x = c then Some t else None)"

definition string_value :: "string \<Rightarrow> (string \<times> string) option" where
  "string_value s =
     (if has_prefix (skip_ws s) ''null'' then Some ('''', drop 4 (skip_ws s))
      else Option.bind (expect quote_char s) unescape)"

lemma skip_ws_length: "length (skip_ws s) \<le> length s"
  by (simp add: skip_ws_def length_dropWhile_le)

lemma expect_length: "expect c s = Some t \<Longrightarrow> length t < length s"
  using skip_ws_length [of s] by (auto simp: expect_def split: list.splits if_splits)

lemma prepend_Some: "prepend p x = Some (a, b) \<longleftrightarrow> (\<exists>a'. x = Some (a', b) \<and> a = p @ a')"
  by (cases x) auto

lemma unescape_length: "unescape s = Some (a, t) \<Longrightarrow> length t < length s"
proof (induction s arbitrary: a t rule: length_induct)
  case (1 s)
  then have IH: "unescape u = Some (a', t) \<Longrightarrow> length u < length s \<Longrightarrow> length t < length s" for u a'
    by (meson less_trans)
  show ?case
  proof (cases s)
    case (Cons b s')
    show ?thesis
      using "1.prems" IH unfolding Cons
      by (auto simp: prepend_Some split: if_splits option.splits list.splits prod.splits
          dest: unicode_escape_length rune_tail_length)
  qed (use "1.prems" in simp)
qed

lemma string_value_length: "string_value s = Some (v, t) \<Longrightarrow> length t \<le> length s"
  using skip_ws_length [of s]
  by (auto simp: string_value_def bind_eq_Some_conv split: if_splits dest!: expect_length unescape_length)

function parse_members :: "(string, string) gomap \<Rightarrow> string \<Rightarrow> ((string, string) gomap \<times> string) option" where
  "parse_members data s =
     do {
       body \<leftarrow> expect quote_char s;
       (key, s1) \<leftarrow> unescape body;
       s2 \<leftarrow> expect (CHR '':'') s1;
       (v, s3) \<leftarrow> string_value s2;
       (case expect (CHR '','') s3 of
          Some s4 \<Rightarrow> parse_members (AList.update key v data) s4
        | None \<Rightarrow> map_option (\<lambda>s4. (AList.update key v data, s4)) (expect (CHR ''}'') s3))
     }"
  by pat_completeness auto
termination
  by (relation "measure (length \<circ> snd)") (auto dest!: expect_length unescape_length string_value_length)

definition parse_object :: "string \<Rightarrow> ((string, string) gomap \<times> string) option" where
  "parse_object s =
     (if has_prefix (skip_ws s) ''null'' then Some ([], drop 4 (skip_ws s))
      else Option.bind (expect (CHR ''{'') s)
        (\<lambda>s1. case expect (CHR ''}'') s1 of Some s2 \<Rightarrow> Some ([], s2) | None \<Rightarrow> parse_members [] s1))"

definition json_unmarshal :: "string \<Rightarrow> string + (string, string) gomap" where
  "json_unmarshal b =
     (case parse_object b of
        Some (data, rest) \<Rightarrow> if skip_ws rest = [] then Inr data else Inl ''invalid JSON''
      | None \<Rightarrow> Inl ''invalid JSON'')"


section \<open>Maps round trip\<close>

lemma skip_ws_simps [simp]:
  "skip_ws [] = []"
  "c \<notin> {CHR '' '', CHR 0x09, CHR 0x0A, CHR 0x0D} \<Longrightarrow> skip_ws (c # s) = c # s"
  by (simp_all add: skip_ws_def)

lemma expect_same: "c \<notin> {CHR '' '', CHR 0x09, CHR 0x0A, CHR 0x0D} \<Longrightarrow> expect c (c # s) = Some s"
  by (simp add: expect_def)

lemma expect_other: "d \<notin> {CHR '' '', CHR 0x09, CHR 0x0A, CHR 0x0D} \<Longrightarrow> c \<noteq> d \<Longrightarrow> expect c (d # s) = None"
  by (simp add: expect_def)

lemma quote_not_space: "quote_char \<notin> {CHR '' '', CHR 0x09, CHR 0x0A, CHR 0x0D}"
  by (simp add: quote_char_def)

lemmas expect_simps = expect_same expect_other quote_not_space

lemma string_value_quoted: "utf8_valid v \<Longrightarrow> string_value (quoted v @ r) = Some (v, r)"
proof -
  assume v: "utf8_valid v"
  have "\<not> has_prefix (skip_ws (quoted v @ r)) ''null''"
    by (simp add: quoted_def has_prefix_def skip_ws_def quote_char_def)
  then show ?thesis
    by (simp add: string_value_def quoted_def expect_same [OF quote_not_space] unescape_escape [OF v])
qed

lemma parse_members_join:
  assumes "list_all (\<lambda>(k, v). utf8_valid k \<and> utf8_valid v) es" and "es \<noteq> []"
  shows "parse_members data (join '','' (map marshal_entry es) @ CHR ''}'' # r) = Some (put_all data es, r)"
  using assms
proof (induction es arbitrary: data)
  case (Cons e es)
  obtain k v where e: "e = (k, v)" by (rule prod.exhaust)
  have k: "utf8_valid k" and v: "utf8_valid v" and es: "list_all (\<lambda>(k, v). utf8_valid k \<and> utf8_valid v) es"
    using Cons.prems e by simp_all
  have step: "parse_members data (marshal_entry (k, v) @ s) =
      (case expect (CHR '','') s of
         Some s4 \<Rightarrow> parse_members (AList.update k v data) s4
       | None \<Rightarrow> map_option (\<lambda>s4. (AList.update k v data, s4)) (expect (CHR ''}'') s))" for s
  proof -
    have body: "expect quote_char (marshal_entry (k, v) @ s) = Some (escape k @ quote_char # '':'' @ quoted v @ s)"
      by (simp add: marshal_entry_def quoted_def expect_same [OF quote_not_space])
    show ?thesis
      by (subst parse_members.simps)
        (simp add: body unescape_escape [OF k] expect_same string_value_quoted [OF v])
  qed
  show ?case
  proof (cases es)
    case Nil
    then show ?thesis
      by (simp add: step expect_simps e del: parse_members.simps)
  next
    case (Cons e' es')
    then have "join '','' (map marshal_entry (e # es)) = marshal_entry e @ CHR '','' # join '','' (map marshal_entry es)"
      by simp
    then show ?thesis
      using Cons.IH [OF es] Cons by (simp add: step expect_simps e del: parse_members.simps)
  qed
qed simp

lemma join_entries_start: "es \<noteq> [] \<Longrightarrow> \<exists>t. join '','' (map marshal_entry es) = quote_char # t"
  by (cases es rule: remdups_adj.cases) (auto simp: marshal_entry_def quoted_def)

lemma json_roundtrip:
  assumes "gomap_ok data" and "list_all (\<lambda>(k, v). utf8_valid k \<and> utf8_valid v) data"
  shows "\<exists>data'. json_unmarshal (json_marshal data) = Inr data' \<and> map_of data' = map_of data"
proof -
  let ?es = "sort_key fst data"
  have valid: "list_all (\<lambda>(k, v). utf8_valid k \<and> utf8_valid v) ?es"
    using assms(2) by (simp add: list_all_iff)
  have ok: "gomap_ok ?es"
    using assms(1) by (simp add: gomap_ok_def distinct_map)
  have "parse_object (json_marshal data) = Some (put_all [] ?es, [])"
  proof (cases "?es = []")
    case True
    then show ?thesis
      by (simp add: parse_object_def json_marshal_def has_prefix_def expect_simps)
  next
    case False
    obtain t where t: "join '','' (map marshal_entry ?es) = quote_char # t"
      using join_entries_start [OF False] by blast
    have "expect (CHR ''}'') (join '','' (map marshal_entry ?es) @ ''}'') = None"
      by (simp add: t expect_def skip_ws_def quote_char_def)
    then show ?thesis
      using parse_members_join [OF valid False, of "[]" "[]"]
      by (simp add: parse_object_def json_marshal_def has_prefix_def expect_simps del: parse_members.simps)
  qed
  moreover have "map_of (put_all [] ?es) = map_of data"
  proof
    fix k
    have "map_of ?es k = map_of data k"
      using ok assms(1) by (metis entry_lookup not_None_eq set_sort)
    then show "map_of (put_all [] ?es) k = map_of data k"
      by (simp add: lookup_put_all [OF ok] split: option.splits)
  qed
  ultimately show ?thesis
    by (simp add: json_unmarshal_def)
qed

end
