(* ===== verification/Status_Conditions.thy ===== *)
theory Status_Conditions
  imports JSON_Text
begin

text \<open>
  \<open>internal/k8s/reconciler/status/zz_generated_status.go\<close>: the statuses of gateway classes, gateways, routes and
  listeners are records of errors, reported as Kubernetes conditions and stored as JSON. The two locales are the
  contract that the generated code has for every status: the reported condition, the error flag and the JSON text
  are functions of the list of its errors in order of precedence. Each of the ten statuses is an interpretation.
  The clock, \<open>meta.Now\<close>, is the argument \<open>now\<close>.
\<close>

section \<open>Conditions\<close>

datatype ConditionStatus = ConditionTrue | ConditionFalse | ConditionUnknown

record Condition =
  mc_Type :: string
  mc_Status :: ConditionStatus
  mc_Reason :: string
  mc_Message :: string
  mc_ObservedGeneration :: int
  mc_LastTransitionTime :: string

text \<open>The first error of a list of named errors, and the map of those that are set.\<close>

fun first_error :: "(string \<times> go_error) list \<Rightarrow> (string \<times> string) option" where
  "first_error [] = None"
| "first_error ((r, e) # es) = (case e of Some err \<Rightarrow> Some (r, err) | None \<Rightarrow> first_error es)"

fun error_map :: "(string \<times> go_error) list \<Rightarrow> (string, string) gomap \<Rightarrow> (string, string) gomap" where
  "error_map [] data = data"
| "error_map ((r, e) # es) data =
     error_map es (case e of None \<Rightarrow> data | Some err \<Rightarrow> AList.update r err data)"

definition read_error :: "(string, string) gomap \<Rightarrow> string \<times> go_error \<Rightarrow> string \<times> go_error" where
  "read_error data = (\<lambda>(r, e). (r, case map_of data r of None \<Rightarrow> e | Some err \<Rightarrow> Some err))"

definition no_errors :: "(string \<times> go_error) list \<Rightarrow> bool" where
  "no_errors es \<longleftrightarrow> list_all (\<lambda>(r, e). e = None) es"

text \<open>The errors whose texts survive a round trip through JSON: those that are UTF-8.\<close>

definition printable :: "(string \<times> go_error) list \<Rightarrow> bool" where
  "printable es \<longleftrightarrow> list_all (\<lambda>(r, e). case e of None \<Rightarrow> True | Some err \<Rightarrow> utf8_valid err) es"

lemma first_error_None: "first_error es = None \<longleftrightarrow> no_errors es"
  by (induction es rule: first_error.induct) (auto simp: no_errors_def split: option.splits)

lemma first_error_Some:
  "first_error es = Some (r, err) \<Longrightarrow> \<exists>before after. es = before @ (r, Some err) # after \<and> no_errors before"
proof (induction es rule: first_error.induct)
  case (2 r' e es)
  show ?case
  proof (cases e)
    case None
    then obtain before after where "es = before @ (r, Some err) # after" "no_errors before"
      using 2 by auto
    then show ?thesis
      using None by (intro exI [of _ "(r', e) # before"] exI [of _ after]) (simp add: no_errors_def)
  next
    case (Some err')
    then show ?thesis
      using 2 by (intro exI [of _ "[]"] exI [of _ es]) (simp add: no_errors_def)
  qed
qed simp

lemma map_fst_eq:
  assumes "map fst xs = map fst ys" and "\<And>x y. x \<in> set xs \<Longrightarrow> y \<in> set ys \<Longrightarrow> fst x = fst y \<Longrightarrow> x = y"
  shows "xs = ys"
proof (rule nth_equalityI)
  show len: "length xs = length ys"
    using assms(1) by (metis length_map)
  show "xs ! i = ys ! i" if i: "i < length xs" for i
  proof (rule assms(2))
    show "xs ! i \<in> set xs" and "ys ! i \<in> set ys"
      using i len by simp_all
    show "fst (xs ! i) = fst (ys ! i)"
      using assms(1) i len by (metis nth_map)
  qed
qed

lemma gomap_ok_error_map: "gomap_ok data \<Longrightarrow> gomap_ok (error_map es data)"
  by (induction es data rule: error_map.induct) (auto split: option.splits)

lemma error_map_valid:
  "list_all (\<lambda>(k, v). utf8_valid k \<and> utf8_valid v) data \<Longrightarrow>
   list_all (\<lambda>(r, e). utf8_valid r \<and> (case e of None \<Rightarrow> True | Some err \<Rightarrow> utf8_valid err)) es \<Longrightarrow>
   list_all (\<lambda>(k, v). utf8_valid k \<and> utf8_valid v) (error_map es data)"
proof (induction es data rule: error_map.induct)
  case (2 r e es data)
  have "list_all (\<lambda>(k, v). utf8_valid k \<and> utf8_valid v) (case e of None \<Rightarrow> data | Some err \<Rightarrow> AList.update r err data)"
    using 2 set_update_subset [of r _ data] by (fastforce simp: list_all_iff split: option.splits)
  then show ?case
    using 2 by simp
qed simp

lemma lookup_error_map:
  "distinct (map fst es) \<Longrightarrow>
   map_of (error_map es data) r = (case map_of es r of Some (Some err) \<Rightarrow> Some err | _ \<Rightarrow> map_of data r)"
proof (induction es data rule: error_map.induct)
  case (2 r' e es data)
  then have "r' \<notin> fst ` set es" and "distinct (map fst es)"
    by auto
  moreover from this have "map_of es r' = None"
    by (simp add: map_of_eq_None_iff)
  ultimately show ?case
    using 2 by (cases e) (auto simp: lookup_update split: option.splits)
qed simp

section \<open>The contract of a generated status\<close>

locale status_condition =
  fixes errors :: "'s \<Rightarrow> (string \<times> go_error) list"
    and Condition_of :: "'s \<Rightarrow> int \<Rightarrow> string \<Rightarrow> Condition"
    and MarshalJSON :: "'s \<Rightarrow> string"
    and UnmarshalJSON :: "string \<Rightarrow> 's \<Rightarrow> go_error \<times> 's"
    and zero :: 's
    and condition_type ok_reason ok_message :: string
    and ok bad :: ConditionStatus
  assumes condition: "Condition_of s generation now =
      (case first_error (errors s) of
         Some (reason, err) \<Rightarrow> \<lparr>mc_Type = condition_type, mc_Status = bad, mc_Reason = reason, mc_Message = err,
           mc_ObservedGeneration = generation, mc_LastTransitionTime = now\<rparr>
       | None \<Rightarrow> \<lparr>mc_Type = condition_type, mc_Status = ok, mc_Reason = ok_reason, mc_Message = ok_message,
           mc_ObservedGeneration = generation, mc_LastTransitionTime = now\<rparr>)"
    and marshal: "MarshalJSON s = json_marshal (error_map (errors s) [])"
    and unmarshal_error: "json_unmarshal b = Inl err \<Longrightarrow> UnmarshalJSON b s = (Some err, s)"
    and unmarshal_ok: "json_unmarshal b = Inr data \<Longrightarrow> fst (UnmarshalJSON b s) = None"
    and unmarshal_errors: "json_unmarshal b = Inr data \<Longrightarrow>
      errors (snd (UnmarshalJSON b s)) = map (read_error data) (errors s)"
    and errors_inject: "errors s = errors s' \<Longrightarrow> s = s'"
    and errors_distinct: "distinct (map fst (errors s))"
    and errors_names: "map fst (errors s) = map fst (errors zero)"
    and errors_utf8: "list_all (\<lambda>r. utf8_valid r) (map fst (errors zero))"
    and errors_zero: "no_errors (errors zero)"
    and ok_not_error: "ok_reason \<notin> set (map fst (errors zero))"
    and ok_not_bad: "ok \<noteq> bad"
begin

lemma no_error_zero: "no_errors (errors s) \<longleftrightarrow> s = zero"
proof
  assume s: "no_errors (errors s)"
  have "e = e'" if "e \<in> set (errors s)" and "e' \<in> set (errors zero)" and "fst e = fst e'" for e e'
    using s errors_zero that by (auto simp: no_errors_def list_all_iff prod_eq_iff case_prod_beta)
  then have "errors s = errors zero"
    by (rule map_fst_eq [OF errors_names [of s]])
  then show "s = zero"
    by (rule errors_inject)
qed (use errors_zero in \<open>simp add: no_errors_def\<close>)

lemma status_ok: "mc_Status (Condition_of s generation now) = ok \<longleftrightarrow> no_errors (errors s)"
  using ok_not_bad by (auto simp: condition first_error_None [symmetric] split: option.splits)

lemma status_bad: "mc_Status (Condition_of s generation now) = bad \<longleftrightarrow> \<not> no_errors (errors s)"
  using ok_not_bad by (auto simp: condition first_error_None [symmetric] split: option.splits)

lemma reason_ok: "mc_Reason (Condition_of s generation now) = ok_reason \<longleftrightarrow> no_errors (errors s)"
proof (cases "first_error (errors s)")
  case (Some x)
  obtain r err where x: "x = (r, err)" by (rule prod.exhaust)
  have "r \<in> set (map fst (errors s))"
    using first_error_Some [of "errors s" r err] Some x by force
  then have "r \<noteq> ok_reason"
    using ok_not_error errors_names [of s] by metis
  then show ?thesis
    using Some x by (simp add: condition first_error_None [symmetric])
qed (simp add: condition first_error_None [symmetric])

lemma condition_error:
  assumes "\<not> no_errors (errors s)"
  shows "\<exists>before reason err after. errors s = before @ (reason, Some err) # after \<and> no_errors before \<and>
    mc_Reason (Condition_of s generation now) = reason \<and> mc_Message (Condition_of s generation now) = err"
proof -
  obtain reason err where f: "first_error (errors s) = Some (reason, err)"
    using assms by (auto simp: first_error_None [symmetric])
  then show ?thesis
    using first_error_Some [OF f] by (simp add: condition)
qed

lemma condition_type: "mc_Type (Condition_of s generation now) = condition_type"
  by (simp add: condition split: option.splits prod.splits)

lemma read_errors:
  assumes "map fst es = map fst zs" and "distinct (map fst es)" and "no_errors zs"
    and "\<And>r. map_of data r = (case map_of es r of Some (Some err) \<Rightarrow> Some err | _ \<Rightarrow> None)"
  shows "map (read_error data) zs = es"
proof (rule nth_equalityI)
  show len: "length (map (read_error data) zs) = length es"
    using assms(1) by (metis length_map)
  fix i assume i: "i < length (map (read_error data) zs)"
  obtain r e where e: "es ! i = (r, e)" by (rule prod.exhaust)
  have "fst (zs ! i) = r"
    using assms(1) i len e by (metis fst_conv length_map nth_map)
  moreover have "snd (zs ! i) = None"
    using assms(3) i by (simp add: no_errors_def list_all_length case_prod_beta)
  moreover have "map_of es r = Some e"
    using assms(2) i len e by (metis map_of_eq_Some_iff nth_mem)
  ultimately have "zs ! i = (r, None)" and "map_of data r = e"
    using assms(4) [of r] by (auto simp: prod_eq_iff split: option.splits)
  then show "map (read_error data) zs ! i = es ! i"
    using i by (simp add: read_error_def e split: option.splits)
qed

lemma json_status_roundtrip:
  assumes "printable (errors s)"
  shows "UnmarshalJSON (MarshalJSON s) zero = (None, s)"
proof -
  have "list_all (\<lambda>(r, e). utf8_valid r \<and> (case e of None \<Rightarrow> True | Some err \<Rightarrow> utf8_valid err)) (errors s)"
    using assms errors_utf8 by (auto simp: printable_def list_all_iff errors_names [of s, symmetric])
  then obtain data where data: "json_unmarshal (MarshalJSON s) = Inr data" "map_of data = map_of (error_map (errors s) [])"
    using json_roundtrip [of "error_map (errors s) []"] gomap_ok_error_map [of "[]" "errors s"] error_map_valid [of "[]" "errors s"]
    by (auto simp: marshal)
  have "map (read_error data) (errors zero) = errors s"
    by (rule read_errors [OF errors_names errors_distinct errors_zero])
      (simp add: data(2) lookup_error_map [OF errors_distinct] split: option.splits)
  then have "errors (snd (UnmarshalJSON (MarshalJSON s) zero)) = errors s"
    by (simp add: unmarshal_errors [OF data(1)])
  then show ?thesis
    using errors_inject unmarshal_ok [OF data(1)] by (metis prod.collapse)
qed

end

locale status_condition_error = status_condition +
  fixes HasError :: "'a \<Rightarrow> bool"
  assumes has_error: "HasError s \<longleftrightarrow> \<not> no_errors (errors s)"
begin

lemma HasError_condition:
  "HasError s \<longleftrightarrow> mc_Status (Condition_of s generation now) = bad"
  "HasError s \<longleftrightarrow> mc_Reason (Condition_of s generation now) \<noteq> ok_reason"
  "HasError s \<longleftrightarrow> s \<noteq> zero"
  using status_bad reason_ok no_error_zero by (auto simp: has_error)

end

section \<open>GatewayClassAcceptedStatus\<close>

record GatewayClassAcceptedStatus =
  gca_InvalidParameters :: go_error
  gca_Waiting :: go_error

abbreviation (input) GatewayClassConditionAccepted :: string where
  "GatewayClassConditionAccepted \<equiv> ''Accepted''"

abbreviation (input) GatewayClassConditionReasonAccepted :: string where
  "GatewayClassConditionReasonAccepted \<equiv> ''Accepted''"

abbreviation (input) GatewayClassConditionReasonInvalidParameters :: string where
  "GatewayClassConditionReasonInvalidParameters \<equiv> ''InvalidParameters''"

abbreviation (input) GatewayClassConditionReasonWaiting :: string where
  "GatewayClassConditionReasonWaiting \<equiv> ''Waiting''"

definition GatewayClassAcceptedStatus_Condition :: "GatewayClassAcceptedStatus \<Rightarrow> int \<Rightarrow> string \<Rightarrow> Condition" where
  "GatewayClassAcceptedStatus_Condition s generation now =
     (case gca_InvalidParameters s of
        Some err \<Rightarrow> \<lparr>mc_Type = GatewayClassConditionAccepted, mc_Status = ConditionFalse, mc_Reason = GatewayClassConditionReasonInvalidParameters,
          mc_Message = err, mc_ObservedGeneration = generation, mc_LastTransitionTime = now\<rparr>
      | None \<Rightarrow>
     (case gca_Waiting s of
        Some err \<Rightarrow> \<lparr>mc_Type = GatewayClassConditionAccepted, mc_Status = ConditionFalse, mc_Reason = GatewayClassConditionReasonWaiting,
          mc_Message = err, mc_ObservedGeneration = generation, mc_LastTransitionTime = now\<rparr>
      | None \<Rightarrow>
        \<lparr>mc_Type = GatewayClassConditionAccepted, mc_Status = ConditionTrue, mc_Reason = GatewayClassConditionReasonAccepted,
         mc_Message = ''Accepted'', mc_ObservedGeneration = generation, mc_LastTransitionTime = now\<rparr>))"

definition GatewayClassAcceptedStatus_MarshalJSON :: "GatewayClassAcceptedStatus \<Rightarrow> string" where
  "GatewayClassAcceptedStatus_MarshalJSON s =
     (let data = [];
          data = (case gca_InvalidParameters s of None \<Rightarrow> data | Some err \<Rightarrow> AList.update ''InvalidParameters'' err data);
          data = (case gca_Waiting s of None \<Rightarrow> data | Some err \<Rightarrow> AList.update ''Waiting'' err data) in
      json_marshal data)"

definition GatewayClassAcceptedStatus_UnmarshalJSON :: "string \<Rightarrow> GatewayClassAcceptedStatus \<Rightarrow> go_error \<times> GatewayClassAcceptedStatus" where
  "GatewayClassAcceptedStatus_UnmarshalJSON b s =
     (case json_unmarshal b of
        Inl err \<Rightarrow> (Some err, s)
      | Inr data \<Rightarrow>
          (let s = (case map_of data ''InvalidParameters'' of None \<Rightarrow> s | Some err \<Rightarrow> s\<lparr>gca_InvalidParameters := Some err\<rparr>);
               s = (case map_of data ''Waiting'' of None \<Rightarrow> s | Some err \<Rightarrow> s\<lparr>gca_Waiting := Some err\<rparr>) in
           (None, s)))"

definition GatewayClassAcceptedStatus_HasError :: "GatewayClassAcceptedStatus \<Rightarrow> bool" where
  "GatewayClassAcceptedStatus_HasError s \<longleftrightarrow> gca_InvalidParameters s \<noteq> None \<or> gca_Waiting s \<noteq> None"

definition zero_GatewayClassAcceptedStatus :: GatewayClassAcceptedStatus where
  "zero_GatewayClassAcceptedStatus = \<lparr>gca_InvalidParameters = None, gca_Waiting = None\<rparr>"

definition GatewayClassAcceptedStatus_errors :: "GatewayClassAcceptedStatus \<Rightarrow> (string \<times> go_error) list" where
  "GatewayClassAcceptedStatus_errors s = [(''InvalidParameters'', gca_InvalidParameters s), (''Waiting'', gca_Waiting s)]"

interpretation gca: status_condition_error GatewayClassAcceptedStatus_errors GatewayClassAcceptedStatus_Condition GatewayClassAcceptedStatus_MarshalJSON GatewayClassAcceptedStatus_UnmarshalJSON zero_GatewayClassAcceptedStatus
  GatewayClassConditionAccepted GatewayClassConditionReasonAccepted "''Accepted''" ConditionTrue ConditionFalse GatewayClassAcceptedStatus_HasError
  by unfold_locales
    (auto simp: GatewayClassAcceptedStatus_errors_def GatewayClassAcceptedStatus_Condition_def GatewayClassAcceptedStatus_MarshalJSON_def GatewayClassAcceptedStatus_UnmarshalJSON_def GatewayClassAcceptedStatus_HasError_def zero_GatewayClassAcceptedStatus_def read_error_def no_errors_def Let_def in_range_def byte_def split: option.splits)

section \<open>GatewayClassStatus\<close>

record GatewayClassStatus =
  gcs_Accepted :: GatewayClassAcceptedStatus

definition GatewayClassStatus_Conditions :: "GatewayClassStatus \<Rightarrow> int \<Rightarrow> string \<Rightarrow> Condition list" where
  "GatewayClassStatus_Conditions s generation now =
     [GatewayClassAcceptedStatus_Condition (gcs_Accepted s) generation now]"

section \<open>GatewayReadyStatus\<close>

record GatewayReadyStatus =
  grd_ListenersNotValid :: go_error
  grd_ListenersNotReady :: go_error
  grd_AddressNotAssigned :: go_error

abbreviation (input) GatewayConditionReady :: string where
  "GatewayConditionReady \<equiv> ''Ready''"

abbreviation (input) GatewayConditionReasonReady :: string where
  "GatewayConditionReasonReady \<equiv> ''Ready''"

abbreviation (input) GatewayConditionReasonListenersNotValid :: string where
  "GatewayConditionReasonListenersNotValid \<equiv> ''ListenersNotValid''"

abbreviation (input) GatewayConditionReasonListenersNotReady :: string where
  "GatewayConditionReasonListenersNotReady \<equiv> ''ListenersNotReady''"

abbreviation (input) GatewayConditionReasonAddressNotAssigned :: string where
  "GatewayConditionReasonAddressNotAssigned \<equiv> ''AddressNotAssigned''"

definition GatewayReadyStatus_Condition :: "GatewayReadyStatus \<Rightarrow> int \<Rightarrow> string \<Rightarrow> Condition" where
  "GatewayReadyStatus_Condition s generation now =
     (case grd_ListenersNotValid s of
        Some err \<Rightarrow> \<lparr>mc_Type = GatewayConditionReady, mc_Status = ConditionFalse, mc_Reason = GatewayConditionReasonListenersNotValid,
          mc_Message = err, mc_ObservedGeneration = generation, mc_LastTransitionTime = now\<rparr>
      | None \<Rightarrow>
     (case grd_ListenersNotReady s of
        Some err \<Rightarrow> \<lparr>mc_Type = GatewayConditionReady, mc_Status = ConditionFalse, mc_Reason = GatewayConditionReasonListenersNotReady,
          mc_Message = err, mc_ObservedGeneration = generation, mc_LastTransitionTime = now\<rparr>
      | None \<Rightarrow>
     (case grd_AddressNotAssigned s of
        Some err \<Rightarrow> \<lparr>mc_Type = GatewayConditionReady, mc_Status = ConditionFalse, mc_Reason = GatewayConditionReasonAddressNotAssigned,
          mc_Message = err, mc_ObservedGeneration = generation, mc_LastTransitionTime = now\<rparr>
      | None \<Rightarrow>
        \<lparr>mc_Type = GatewayConditionReady, mc_Status = ConditionTrue, mc_Reason = GatewayConditionReasonReady,
         mc_Message = ''Ready'', mc_ObservedGeneration = generation, mc_LastTransitionTime = now\<rparr>)))"

definition GatewayReadyStatus_MarshalJSON :: "GatewayReadyStatus \<Rightarrow> string" where
  "GatewayReadyStatus_MarshalJSON s =
     (let data = [];
          data = (case grd_ListenersNotValid s of None \<Rightarrow> data | Some err \<Rightarrow> AList.update ''ListenersNotValid'' err data);
          data = (case grd_ListenersNotReady s of None \<Rightarrow> data | Some err \<Rightarrow> AList.update ''ListenersNotReady'' err data);
          data = (case grd_AddressNotAssigned s of None \<Rightarrow> data | Some err \<Rightarrow> AList.update ''AddressNotAssigned'' err data) in
      json_marshal data)"

definition GatewayReadyStatus_UnmarshalJSON :: "string \<Rightarrow> GatewayReadyStatus \<Rightarrow> go_error \<times> GatewayReadyStatus" where
  "GatewayReadyStatus_UnmarshalJSON b s =
     (case json_unmarshal b of
        Inl err \<Rightarrow> (Some err, s)
      | Inr data \<Rightarrow>
          (let s = (case map_of data ''ListenersNotValid'' of None \<Rightarrow> s | Some err \<Rightarrow> s\<lparr>grd_ListenersNotValid := Some err\<rparr>);
               s = (case map_of data ''ListenersNotReady'' of None \<Rightarrow> s | Some err \<Rightarrow> s\<lparr>grd_ListenersNotReady := Some err\<rparr>);
               s = (case map_of data ''AddressNotAssigned'' of None \<Rightarrow> s | Some err \<Rightarrow> s\<lparr>grd_AddressNotAssigned := Some err\<rparr>) in
           (None, s)))"

definition GatewayReadyStatus_HasError :: "GatewayReadyStatus \<Rightarrow> bool" where
  "GatewayReadyStatus_HasError s \<longleftrightarrow> grd_ListenersNotValid s \<noteq> None \<or> grd_ListenersNotReady s \<noteq> None \<or> grd_AddressNotAssigned s \<noteq> None"

definition zero_GatewayReadyStatus :: GatewayReadyStatus where
  "zero_GatewayReadyStatus = \<lparr>grd_ListenersNotValid = None, grd_ListenersNotReady = None, grd_AddressNotAssigned = None\<rparr>"

definition GatewayReadyStatus_errors :: "GatewayReadyStatus \<Rightarrow> (string \<times> go_error) list" where
  "GatewayReadyStatus_errors s = [(''ListenersNotValid'', grd_ListenersNotValid s), (''ListenersNotReady'', grd_ListenersNotReady s), (''AddressNotAssigned'', grd_AddressNotAssigned s)]"

interpretation grd: status_condition_error GatewayReadyStatus_errors GatewayReadyStatus_Condition GatewayReadyStatus_MarshalJSON GatewayReadyStatus_UnmarshalJSON zero_GatewayReadyStatus
  GatewayConditionReady GatewayConditionReasonReady "''Ready''" ConditionTrue ConditionFalse GatewayReadyStatus_HasError
  by unfold_locales
    (auto simp: GatewayReadyStatus_errors_def GatewayReadyStatus_Condition_def GatewayReadyStatus_MarshalJSON_def GatewayReadyStatus_UnmarshalJSON_def GatewayReadyStatus_HasError_def zero_GatewayReadyStatus_def read_error_def no_errors_def Let_def in_range_def byte_def split: option.splits)

section \<open>GatewayScheduledStatus\<close>

record GatewayScheduledStatus =
  gsc_NotReconciled :: go_error
  gsc_PodFailed :: go_error
  gsc_Unknown :: go_error
  gsc_NoResources :: go_error

abbreviation (input) GatewayConditionScheduled :: string where
  "GatewayConditionScheduled \<equiv> ''Scheduled''"

abbreviation (input) GatewayConditionReasonScheduled :: string where
  "GatewayConditionReasonScheduled \<equiv> ''Scheduled''"

abbreviation (input) GatewayConditionReasonNotReconciled :: string where
  "GatewayConditionReasonNotReconciled \<equiv> ''NotReconciled''"

abbreviation (input) GatewayConditionReasonPodFailed :: string where
  "GatewayConditionReasonPodFailed \<equiv> ''PodFailed''"

abbreviation (input) GatewayConditionReasonUnknown :: string where
  "GatewayConditionReasonUnknown \<equiv> ''Unknown''"

abbreviation (input) GatewayConditionReasonNoResources :: string where
  "GatewayConditionReasonNoResources \<equiv> ''NoResources''"

definition GatewayScheduledStatus_Condition :: "GatewayScheduledStatus \<Rightarrow> int \<Rightarrow> string \<Rightarrow> Condition" where
  "GatewayScheduledStatus_Condition s generation now =
     (case gsc_NotReconciled s of
        Some err \<Rightarrow> \<lparr>mc_Type = GatewayConditionScheduled, mc_Status = ConditionFalse, mc_Reason = GatewayConditionReasonNotReconciled,
          mc_Message = err, mc_ObservedGeneration = generation, mc_LastTransitionTime = now\<rparr>
      | None \<Rightarrow>
     (case gsc_PodFailed s of
        Some err \<Rightarrow> \<lparr>mc_Type = GatewayConditionScheduled, mc_Status = ConditionFalse, mc_Reason = GatewayConditionReasonPodFailed,
          mc_Message = err, mc_ObservedGeneration = generation, mc_LastTransitionTime = now\<rparr>
      | None \<Rightarrow>
     (case gsc_Unknown s of
        Some err \<Rightarrow> \<lparr>mc_Type = GatewayConditionScheduled, mc_Status = ConditionFalse, mc_Reason = GatewayConditionReasonUnknown,
          mc_Message = err, mc_ObservedGeneration = generation, mc_LastTransitionTime = now\<rparr>
      | None \<Rightarrow>
     (case gsc_NoResources s of
        Some err \<Rightarrow> \<lparr>mc_Type = GatewayConditionScheduled, mc_Status = ConditionFalse, mc_Reason = GatewayConditionReasonNoResources,
          mc_Message = err, mc_ObservedGeneration = generation, mc_LastTransitionTime = now\<rparr>
      | None \<Rightarrow>
        \<lparr>mc_Type = GatewayConditionScheduled, mc_Status = ConditionTrue, mc_Reason = GatewayConditionReasonScheduled,
         mc_Message = ''Scheduled'', mc_ObservedGeneration = generation, mc_LastTransitionTime = now\<rparr>))))"

definition GatewayScheduledStatus_MarshalJSON :: "GatewayScheduledStatus \<Rightarrow> string" where
  "GatewayScheduledStatus_MarshalJSON s =
     (let data = [];
          data = (case gsc_NotReconciled s of None \<Rightarrow> data | Some err \<Rightarrow> AList.update ''NotReconciled'' err data);
          data = (case gsc_PodFailed s of None \<Rightarrow> data | Some err \<Rightarrow> AList.update ''PodFailed'' err data);
          data = (case gsc_Unknown s of None \<Rightarrow> data | Some err \<Rightarrow> AList.update ''Unknown'' err data);
          data = (case gsc_NoResources s of None \<Rightarrow> data | Some err \<Rightarrow> AList.update ''NoResources'' err data) in
      json_marshal data)"

definition GatewayScheduledStatus_UnmarshalJSON :: "string \<Rightarrow> GatewayScheduledStatus \<Rightarrow> go_error \<times> GatewayScheduledStatus" where
  "GatewayScheduledStatus_UnmarshalJSON b s =
     (case json_unmarshal b of
        Inl err \<Rightarrow> (Some err, s)
      | Inr data \<Rightarrow>
          (let s = (case map_of data ''NotReconciled'' of None \<Rightarrow> s | Some err \<Rightarrow> s\<lparr>gsc_NotReconciled := Some err\<rparr>);
               s = (case map_of data ''PodFailed'' of None \<Rightarrow> s | Some err \<Rightarrow> s\<lparr>gsc_PodFailed := Some err\<rparr>);
               s = (case map_of data ''Unknown'' of None \<Rightarrow> s | Some err \<Rightarrow> s\<lparr>gsc_Unknown := Some err\<rparr>);
               s = (case map_of data ''NoResources'' of None \<Rightarrow> s | Some err \<Rightarrow> s\<lparr>gsc_NoResources := Some err\<rparr>) in
           (None, s)))"

definition GatewayScheduledStatus_HasError :: "GatewayScheduledStatus \<Rightarrow> bool" where
  "GatewayScheduledStatus_HasError s \<longleftrightarrow> gsc_NotReconciled s \<noteq> None \<or> gsc_PodFailed s \<noteq> None \<or> gsc_Unknown s \<noteq> None \<or> gsc_NoResources s \<noteq> None"

definition zero_GatewayScheduledStatus :: GatewayScheduledStatus where
  "zero_GatewayScheduledStatus = \<lparr>gsc_NotReconciled = None, gsc_PodFailed = None, gsc_Unknown = None, gsc_NoResources = None\<rparr>"

definition GatewayScheduledStatus_errors :: "GatewayScheduledStatus \<Rightarrow> (string \<times> go_error) list" where
  "GatewayScheduledStatus_errors s = [(''NotReconciled'', gsc_NotReconciled s), (''PodFailed'', gsc_PodFailed s), (''Unknown'', gsc_Unknown s), (''NoResources'', gsc_NoResources s)]"

interpretation gsc: status_condition_error GatewayScheduledStatus_errors GatewayScheduledStatus_Condition GatewayScheduledStatus_MarshalJSON GatewayScheduledStatus_UnmarshalJSON zero_GatewayScheduledStatus
  GatewayConditionScheduled GatewayConditionReasonScheduled "''Scheduled''" ConditionTrue ConditionFalse GatewayScheduledStatus_HasError
  by unfold_locales
    (auto simp: GatewayScheduledStatus_errors_def GatewayScheduledStatus_Condition_def GatewayScheduledStatus_MarshalJSON_def GatewayScheduledStatus_UnmarshalJSON_def GatewayScheduledStatus_HasError_def zero_GatewayScheduledStatus_def read_error_def no_errors_def Let_def in_range_def byte_def split: option.splits)

section \<open>GatewayInSyncStatus\<close>

record GatewayInSyncStatus =
  gis_SyncError :: go_error

abbreviation (input) GatewayConditionInSync :: string where
  "GatewayConditionInSync \<equiv> ''InSync''"

abbreviation (input) GatewayConditionReasonInSync :: string where
  "GatewayConditionReasonInSync \<equiv> ''InSync''"

abbreviation (input) GatewayConditionReasonSyncError :: string where
  "GatewayConditionReasonSyncError \<equiv> ''SyncError''"

definition GatewayInSyncStatus_Condition :: "GatewayInSyncStatus \<Rightarrow> int \<Rightarrow> string \<Rightarrow> Condition" where
  "GatewayInSyncStatus_Condition s generation now =
     (case gis_SyncError s of
        Some err \<Rightarrow> \<lparr>mc_Type = GatewayConditionInSync, mc_Status = ConditionFalse, mc_Reason = GatewayConditionReasonSyncError,
          mc_Message = err, mc_ObservedGeneration = generation, mc_LastTransitionTime = now\<rparr>
      | None \<Rightarrow>
        \<lparr>mc_Type = GatewayConditionInSync, mc_Status = ConditionTrue, mc_Reason = GatewayConditionReasonInSync,
         mc_Message = ''InSync'', mc_ObservedGeneration = generation, mc_LastTransitionTime = now\<rparr>)"

definition GatewayInSyncStatus_MarshalJSON :: "GatewayInSyncStatus \<Rightarrow> string" where
  "GatewayInSyncStatus_MarshalJSON s =
     (let data = [];
          data = (case gis_SyncError s of None \<Rightarrow> data | Some err \<Rightarrow> AList.update ''SyncError'' err data) in
      json_marshal data)"

definition GatewayInSyncStatus_UnmarshalJSON :: "string \<Rightarrow> GatewayInSyncStatus \<Rightarrow> go_error \<times> GatewayInSyncStatus" where
  "GatewayInSyncStatus_UnmarshalJSON b s =
     (case json_unmarshal b of
        Inl err \<Rightarrow> (Some err, s)
      | Inr data \<Rightarrow>
          (let s = (case map_of data ''SyncError'' of None \<Rightarrow> s | Some err \<Rightarrow> s\<lparr>gis_SyncError := Some err\<rparr>) in
           (None, s)))"

definition GatewayInSyncStatus_HasError :: "GatewayInSyncStatus \<Rightarrow> bool" where
  "GatewayInSyncStatus_HasError s \<longleftrightarrow> gis_SyncError s \<noteq> None"

definition zero_GatewayInSyncStatus :: GatewayInSyncStatus where
  "zero_GatewayInSyncStatus = \<lparr>gis_SyncError = None\<rparr>"

definition GatewayInSyncStatus_errors :: "GatewayInSyncStatus \<Rightarrow> (string \<times> go_error) list" where
  "GatewayInSyncStatus_errors s = [(''SyncError'', gis_SyncError s)]"

interpretation gis: status_condition_error GatewayInSyncStatus_errors GatewayInSyncStatus_Condition GatewayInSyncStatus_MarshalJSON GatewayInSyncStatus_UnmarshalJSON zero_GatewayInSyncStatus
  GatewayConditionInSync GatewayConditionReasonInSync "''InSync''" ConditionTrue ConditionFalse GatewayInSyncStatus_HasError
  by unfold_locales
    (auto simp: GatewayInSyncStatus_errors_def GatewayInSyncStatus_Condition_def GatewayInSyncStatus_MarshalJSON_def GatewayInSyncStatus_UnmarshalJSON_def GatewayInSyncStatus_HasError_def zero_GatewayInSyncStatus_def read_error_def no_errors_def Let_def in_range_def byte_def split: option.splits)

section \<open>GatewayStatus\<close>

record GatewayStatus =
  gst_Ready :: GatewayReadyStatus
  gst_Scheduled :: GatewayScheduledStatus
  gst_InSync :: GatewayInSyncStatus

definition GatewayStatus_Conditions :: "GatewayStatus \<Rightarrow> int \<Rightarrow> string \<Rightarrow> Condition list" where
  "GatewayStatus_Conditions s generation now =
     [GatewayReadyStatus_Condition (gst_Ready s) generation now,
      GatewayScheduledStatus_Condition (gst_Scheduled s) generation now,
      GatewayInSyncStatus_Condition (gst_InSync s) generation now]"

section \<open>RouteAcceptedStatus\<close>

record RouteAcceptedStatus =
  rac_InvalidRouteKind :: go_error
  rac_ListenerNamespacePolicy :: go_error
  rac_ListenerHostnameMismatch :: go_error
  rac_BindError :: go_error

abbreviation (input) RouteConditionAccepted :: string where
  "RouteConditionAccepted \<equiv> ''Accepted''"

abbreviation (input) RouteConditionReasonAccepted :: string where
  "RouteConditionReasonAccepted \<equiv> ''Accepted''"

abbreviation (input) RouteConditionReasonInvalidRouteKind :: string where
  "RouteConditionReasonInvalidRouteKind \<equiv> ''InvalidRouteKind''"

abbreviation (input) RouteConditionReasonListenerNamespacePolicy :: string where
  "RouteConditionReasonListenerNamespacePolicy \<equiv> ''ListenerNamespacePolicy''"

abbreviation (input) RouteConditionReasonListenerHostnameMismatch :: string where
  "RouteConditionReasonListenerHostnameMismatch \<equiv> ''ListenerHostnameMismatch''"

abbreviation (input) RouteConditionReasonBindError :: string where
  "RouteConditionReasonBindError \<equiv> ''BindError''"

definition RouteAcceptedStatus_Condition :: "RouteAcceptedStatus \<Rightarrow> int \<Rightarrow> string \<Rightarrow> Condition" where
  "RouteAcceptedStatus_Condition s generation now =
     (case rac_InvalidRouteKind s of
        Some err \<Rightarrow> \<lparr>mc_Type = RouteConditionAccepted, mc_Status = ConditionFalse, mc_Reason = RouteConditionReasonInvalidRouteKind,
          mc_Message = err, mc_ObservedGeneration = generation, mc_LastTransitionTime = now\<rparr>
      | None \<Rightarrow>
     (case rac_ListenerNamespacePolicy s of
        Some err \<Rightarrow> \<lparr>mc_Type = RouteConditionAccepted, mc_Status = ConditionFalse, mc_Reason = RouteConditionReasonListenerNamespacePolicy,
          mc_Message = err, mc_ObservedGeneration = generation, mc_LastTransitionTime = now\<rparr>
      | None \<Rightarrow>
     (case rac_ListenerHostnameMismatch s of
        Some err \<Rightarrow> \<lparr>mc_Type = RouteConditionAccepted, mc_Status = ConditionFalse, mc_Reason = RouteConditionReasonListenerHostnameMismatch,
          mc_Message = err, mc_ObservedGeneration = generation, mc_LastTransitionTime = now\<rparr>
      | None \<Rightarrow>
     (case rac_BindError s of
        Some err \<Rightarrow> \<lparr>mc_Type = RouteConditionAccepted, mc_Status = ConditionFalse, mc_Reason = RouteConditionReasonBindError,
          mc_Message = err, mc_ObservedGeneration = generation, mc_LastTransitionTime = now\<rparr>
      | None \<Rightarrow>
        \<lparr>mc_Type = RouteConditionAccepted, mc_Status = ConditionTrue, mc_Reason = RouteConditionReasonAccepted,
         mc_Message = ''Route accepted.'', mc_ObservedGeneration = generation, mc_LastTransitionTime = now\<rparr>))))"

definition RouteAcceptedStatus_MarshalJSON :: "RouteAcceptedStatus \<Rightarrow> string" where
  "RouteAcceptedStatus_MarshalJSON s =
     (let data = [];
          data = (case rac_InvalidRouteKind s of None \<Rightarrow> data | Some err \<Rightarrow> AList.update ''InvalidRouteKind'' err data);
          data = (case rac_ListenerNamespacePolicy s of None \<Rightarrow> data | Some err \<Rightarrow> AList.update ''ListenerNamespacePolicy'' err data);
          data = (case rac_ListenerHostnameMismatch s of None \<Rightarrow> data | Some err \<Rightarrow> AList.update ''ListenerHostnameMismatch'' err data);
          data = (case rac_BindError s of None \<Rightarrow> data | Some err \<Rightarrow> AList.update ''BindError'' err data) in
      json_marshal data)"

definition RouteAcceptedStatus_UnmarshalJSON :: "string \<Rightarrow> RouteAcceptedStatus \<Rightarrow> go_error \<times> RouteAcceptedStatus" where
  "RouteAcceptedStatus_UnmarshalJSON b s =
     (case json_unmarshal b of
        Inl err \<Rightarrow> (Some err, s)
      | Inr data \<Rightarrow>
          (let s = (case map_of data ''InvalidRouteKind'' of None \<Rightarrow> s | Some err \<Rightarrow> s\<lparr>rac_InvalidRouteKind := Some err\<rparr>);
               s = (case map_of data ''ListenerNamespacePolicy'' of None \<Rightarrow> s | Some err \<Rightarrow> s\<lparr>rac_ListenerNamespacePolicy := Some err\<rparr>);
               s = (case map_of data ''ListenerHostnameMismatch'' of None \<Rightarrow> s | Some err \<Rightarrow> s\<lparr>rac_ListenerHostnameMismatch := Some err\<rparr>);
               s = (case map_of data ''BindError'' of None \<Rightarrow> s | Some err \<Rightarrow> s\<lparr>rac_BindError := Some err\<rparr>) in
           (None, s)))"

definition zero_RouteAcceptedStatus :: RouteAcceptedStatus where
  "zero_RouteAcceptedStatus = \<lparr>rac_InvalidRouteKind = None, rac_ListenerNamespacePolicy = None, rac_ListenerHostnameMismatch = None, rac_BindError = None\<rparr>"

definition RouteAcceptedStatus_errors :: "RouteAcceptedStatus \<Rightarrow> (string \<times> go_error) list" where
  "RouteAcceptedStatus_errors s = [(''InvalidRouteKind'', rac_InvalidRouteKind s), (''ListenerNamespacePolicy'', rac_ListenerNamespacePolicy s), (''ListenerHostnameMismatch'', rac_ListenerHostnameMismatch s), (''BindError'', rac_BindError s)]"

interpretation rac: status_condition RouteAcceptedStatus_errors RouteAcceptedStatus_Condition RouteAcceptedStatus_MarshalJSON RouteAcceptedStatus_UnmarshalJSON zero_RouteAcceptedStatus
  RouteConditionAccepted RouteConditionReasonAccepted "''Route accepted.''" ConditionTrue ConditionFalse
  by unfold_locales
    (auto simp: RouteAcceptedStatus_errors_def RouteAcceptedStatus_Condition_def RouteAcceptedStatus_MarshalJSON_def RouteAcceptedStatus_UnmarshalJSON_def zero_RouteAcceptedStatus_def read_error_def no_errors_def Let_def in_range_def byte_def split: option.splits)

section \<open>RouteResolvedRefsStatus\<close>

record RouteResolvedRefsStatus =
  rrr_Errors :: go_error
  rrr_ServiceNotFound :: go_error
  rrr_ConsulServiceNotFound :: go_error
  rrr_RefNotPermitted :: go_error
  rrr_InvalidKind :: go_error
  rrr_BackendNotFound :: go_error

abbreviation (input) RouteConditionResolvedRefs :: string where
  "RouteConditionResolvedRefs \<equiv> ''ResolvedRefs''"

abbreviation (input) RouteConditionReasonResolvedRefs :: string where
  "RouteConditionReasonResolvedRefs \<equiv> ''ResolvedRefs''"

abbreviation (input) RouteConditionReasonErrors :: string where
  "RouteConditionReasonErrors \<equiv> ''Errors''"

abbreviation (input) RouteConditionReasonServiceNotFound :: string where
  "RouteConditionReasonServiceNotFound \<equiv> ''ServiceNotFound''"

abbreviation (input) RouteConditionReasonConsulServiceNotFound :: string where
  "RouteConditionReasonConsulServiceNotFound \<equiv> ''ConsulServiceNotFound''"

abbreviation (input) RouteConditionReasonRefNotPermitted :: string where
  "RouteConditionReasonRefNotPermitted \<equiv> ''RefNotPermitted''"

abbreviation (input) RouteConditionReasonInvalidKind :: string where
  "RouteConditionReasonInvalidKind \<equiv> ''InvalidKind''"

abbreviation (input) RouteConditionReasonBackendNotFound :: string where
  "RouteConditionReasonBackendNotFound \<equiv> ''BackendNotFound''"

definition RouteResolvedRefsStatus_Condition :: "RouteResolvedRefsStatus \<Rightarrow> int \<Rightarrow> string \<Rightarrow> Condition" where
  "RouteResolvedRefsStatus_Condition s generation now =
     (case rrr_Errors s of
        Some err \<Rightarrow> \<lparr>mc_Type = RouteConditionResolvedRefs, mc_Status = ConditionFalse, mc_Reason = RouteConditionReasonErrors,
          mc_Message = err, mc_ObservedGeneration = generation, mc_LastTransitionTime = now\<rparr>
      | None \<Rightarrow>
     (case rrr_ServiceNotFound s of
        Some err \<Rightarrow> \<lparr>mc_Type = RouteConditionResolvedRefs, mc_Status = ConditionFalse, mc_Reason = RouteConditionReasonServiceNotFound,
          mc_Message = err, mc_ObservedGeneration = generation, mc_LastTransitionTime = now\<rparr>
      | None \<Rightarrow>
     (case rrr_ConsulServiceNotFound s of
        Some err \<Rightarrow> \<lparr>mc_Type = RouteConditionResolvedRefs, mc_Status = ConditionFalse, mc_Reason = RouteConditionReasonConsulServiceNotFound,
          mc_Message = err, mc_ObservedGeneration = generation, mc_LastTransitionTime = now\<rparr>
      | None \<Rightarrow>
     (case rrr_RefNotPermitted s of
        Some err \<Rightarrow> \<lparr>mc_Type = RouteConditionResolvedRefs, mc_Status = ConditionFalse, mc_Reason = RouteConditionReasonRefNotPermitted,
          mc_Message = err, mc_ObservedGeneration = generation, mc_LastTransitionTime = now\<rparr>
      | None \<Rightarrow>
     (case rrr_InvalidKind s of
        Some err \<Rightarrow> \<lparr>mc_Type = RouteConditionResolvedRefs, mc_Status = ConditionFalse, mc_Reason = RouteConditionReasonInvalidKind,
          mc_Message = err, mc_ObservedGeneration = generation, mc_LastTransitionTime = now\<rparr>
      | None \<Rightarrow>
     (case rrr_BackendNotFound s of
        Some err \<Rightarrow> \<lparr>mc_Type = RouteConditionResolvedRefs, mc_Status = ConditionFalse, mc_Reason = RouteConditionReasonBackendNotFound,
          mc_Message = err, mc_ObservedGeneration = generation, mc_LastTransitionTime = now\<rparr>
      | None \<Rightarrow>
        \<lparr>mc_Type = RouteConditionResolvedRefs, mc_Status = ConditionTrue, mc_Reason = RouteConditionReasonResolvedRefs,
         mc_Message = ''ResolvedRefs'', mc_ObservedGeneration = generation, mc_LastTransitionTime = now\<rparr>))))))"

definition RouteResolvedRefsStatus_MarshalJSON :: "RouteResolvedRefsStatus \<Rightarrow> string" where
  "RouteResolvedRefsStatus_MarshalJSON s =
     (let data = [];
          data = (case rrr_Errors s of None \<Rightarrow> data | Some err \<Rightarrow> AList.update ''Errors'' err data);
          data = (case rrr_ServiceNotFound s of None \<Rightarrow> data | Some err \<Rightarrow> AList.update ''ServiceNotFound'' err data);
          data = (case rrr_ConsulServiceNotFound s of None \<Rightarrow> data | Some err \<Rightarrow> AList.update ''ConsulServiceNotFound'' err data);
          data = (case rrr_RefNotPermitted s of None \<Rightarrow> data | Some err \<Rightarrow> AList.update ''RefNotPermitted'' err data);
          data = (case rrr_InvalidKind s of None \<Rightarrow> data | Some err \<Rightarrow> AList.update ''InvalidKind'' err data);
          data = (case rrr_BackendNotFound s of None \<Rightarrow> data | Some err \<Rightarrow> AList.update ''BackendNotFound'' err data) in
      json_marshal data)"

definition RouteResolvedRefsStatus_UnmarshalJSON :: "string \<Rightarrow> RouteResolvedRefsStatus \<Rightarrow> go_error \<times> RouteResolvedRefsStatus" where
  "RouteResolvedRefsStatus_UnmarshalJSON b s =
     (case json_unmarshal b of
        Inl err \<Rightarrow> (Some err, s)
      | Inr data \<Rightarrow>
          (let s = (case map_of data ''Errors'' of None \<Rightarrow> s | Some err \<Rightarrow> s\<lparr>rrr_Errors := Some err\<rparr>);
               s = (case map_of data ''ServiceNotFound'' of None \<Rightarrow> s | Some err \<Rightarrow> s\<lparr>rrr_ServiceNotFound := Some err\<rparr>);
               s = (case map_of data ''ConsulServiceNotFound'' of None \<Rightarrow> s | Some err \<Rightarrow> s\<lparr>rrr_ConsulServiceNotFound := Some err\<rparr>);
               s = (case map_of data ''RefNotPermitted'' of None \<Rightarrow> s | Some err \<Rightarrow> s\<lparr>rrr_RefNotPermitted := Some err\<rparr>);
               s = (case map_of data ''InvalidKind'' of None \<Rightarrow> s | Some err \<Rightarrow> s\<lparr>rrr_InvalidKind := Some err\<rparr>);
               s = (case map_of data ''BackendNotFound'' of None \<Rightarrow> s | Some err \<Rightarrow> s\<lparr>rrr_BackendNotFound := Some err\<rparr>) in
           (None, s)))"

definition RouteResolvedRefsStatus_HasError :: "RouteResolvedRefsStatus \<Rightarrow> bool" where
  "RouteResolvedRefsStatus_HasError s \<longleftrightarrow> rrr_Errors s \<noteq> None \<or> rrr_ServiceNotFound s \<noteq> None \<or> rrr_ConsulServiceNotFound s \<noteq> None \<or> rrr_RefNotPermitted s \<noteq> None \<or> rrr_InvalidKind s \<noteq> None \<or> rrr_BackendNotFound s \<noteq> None"

definition zero_RouteResolvedRefsStatus :: RouteResolvedRefsStatus where
  "zero_RouteResolvedRefsStatus = \<lparr>rrr_Errors = None, rrr_ServiceNotFound = None, rrr_ConsulServiceNotFound = None, rrr_RefNotPermitted = None, rrr_InvalidKind = None, rrr_BackendNotFound = None\<rparr>"

definition RouteResolvedRefsStatus_errors :: "RouteResolvedRefsStatus \<Rightarrow> (string \<times> go_error) list" where
  "RouteResolvedRefsStatus_errors s = [(''Errors'', rrr_Errors s), (''ServiceNotFound'', rrr_ServiceNotFound s), (''ConsulServiceNotFound'', rrr_ConsulServiceNotFound s), (''RefNotPermitted'', rrr_RefNotPermitted s), (''InvalidKind'', rrr_InvalidKind s), (''BackendNotFound'', rrr_BackendNotFound s)]"

interpretation rrr: status_condition_error RouteResolvedRefsStatus_errors RouteResolvedRefsStatus_Condition RouteResolvedRefsStatus_MarshalJSON RouteResolvedRefsStatus_UnmarshalJSON zero_RouteResolvedRefsStatus
  RouteConditionResolvedRefs RouteConditionReasonResolvedRefs "''ResolvedRefs''" ConditionTrue ConditionFalse RouteResolvedRefsStatus_HasError
  by unfold_locales
    (auto simp: RouteResolvedRefsStatus_errors_def RouteResolvedRefsStatus_Condition_def RouteResolvedRefsStatus_MarshalJSON_def RouteResolvedRefsStatus_UnmarshalJSON_def RouteResolvedRefsStatus_HasError_def zero_RouteResolvedRefsStatus_def read_error_def no_errors_def Let_def in_range_def byte_def split: option.splits)

section \<open>RouteStatus\<close>

record RouteStatus =
  rst_Accepted :: RouteAcceptedStatus
  rst_ResolvedRefs :: RouteResolvedRefsStatus

definition RouteStatus_Conditions :: "RouteStatus \<Rightarrow> int \<Rightarrow> string \<Rightarrow> Condition list" where
  "RouteStatus_Conditions s generation now =
     [RouteAcceptedStatus_Condition (rst_Accepted s) generation now,
      RouteResolvedRefsStatus_Condition (rst_ResolvedRefs s) generation now]"

section \<open>ListenerConflictedStatus\<close>

record ListenerConflictedStatus =
  lcf_HostnameConflict :: go_error
  lcf_ProtocolConflict :: go_error
  lcf_RouteConflict :: go_error

abbreviation (input) ListenerConditionConflicted :: string where
  "ListenerConditionConflicted \<equiv> ''Conflicted''"

abbreviation (input) ListenerConditionReasonNoConflicts :: string where
  "ListenerConditionReasonNoConflicts \<equiv> ''NoConflicts''"

abbreviation (input) ListenerConditionReasonHostnameConflict :: string where
  "ListenerConditionReasonHostnameConflict \<equiv> ''HostnameConflict''"

abbreviation (input) ListenerConditionReasonProtocolConflict :: string where
  "ListenerConditionReasonProtocolConflict \<equiv> ''ProtocolConflict''"

abbreviation (input) ListenerConditionReasonRouteConflict :: string where
  "ListenerConditionReasonRouteConflict \<equiv> ''RouteConflict''"

definition ListenerConflictedStatus_Condition :: "ListenerConflictedStatus \<Rightarrow> int \<Rightarrow> string \<Rightarrow> Condition" where
  "ListenerConflictedStatus_Condition s generation now =
     (case lcf_HostnameConflict s of
        Some err \<Rightarrow> \<lparr>mc_Type = ListenerConditionConflicted, mc_Status = ConditionTrue, mc_Reason = ListenerConditionReasonHostnameConflict,
          mc_Message = err, mc_ObservedGeneration = generation, mc_LastTransitionTime = now\<rparr>
      | None \<Rightarrow>
     (case lcf_ProtocolConflict s of
        Some err \<Rightarrow> \<lparr>mc_Type = ListenerConditionConflicted, mc_Status = ConditionTrue, mc_Reason = ListenerConditionReasonProtocolConflict,
          mc_Message = err, mc_ObservedGeneration = generation, mc_LastTransitionTime = now\<rparr>
      | None \<Rightarrow>
     (case lcf_RouteConflict s of
        Some err \<Rightarrow> \<lparr>mc_Type = ListenerConditionConflicted, mc_Status = ConditionTrue, mc_Reason = ListenerConditionReasonRouteConflict,
          mc_Message = err, mc_ObservedGeneration = generation, mc_LastTransitionTime = now\<rparr>
      | None \<Rightarrow>
        \<lparr>mc_Type = ListenerConditionConflicted, mc_Status = ConditionFalse, mc_Reason = ListenerConditionReasonNoConflicts,
         mc_Message = ''NoConflicts'', mc_ObservedGeneration = generation, mc_LastTransitionTime = now\<rparr>)))"

definition ListenerConflictedStatus_MarshalJSON :: "ListenerConflictedStatus \<Rightarrow> string" where
  "ListenerConflictedStatus_MarshalJSON s =
     (let data = [];
          data = (case lcf_HostnameConflict s of None \<Rightarrow> data | Some err \<Rightarrow> AList.update ''HostnameConflict'' err data);
          data = (case lcf_ProtocolConflict s of None \<Rightarrow> data | Some err \<Rightarrow> AList.update ''ProtocolConflict'' err data);
          data = (case lcf_RouteConflict s of None \<Rightarrow> data | Some err \<Rightarrow> AList.update ''RouteConflict'' err data) in
      json_marshal data)"

definition ListenerConflictedStatus_UnmarshalJSON :: "string \<Rightarrow> ListenerConflictedStatus \<Rightarrow> go_error \<times> ListenerConflictedStatus" where
  "ListenerConflictedStatus_UnmarshalJSON b s =
     (case json_unmarshal b of
        Inl err \<Rightarrow> (Some err, s)
      | Inr data \<Rightarrow>
          (let s = (case map_of data ''HostnameConflict'' of None \<Rightarrow> s | Some err \<Rightarrow> s\<lparr>lcf_HostnameConflict := Some err\<rparr>);
               s = (case map_of data ''ProtocolConflict'' of None \<Rightarrow> s | Some err \<Rightarrow> s\<lparr>lcf_ProtocolConflict := Some err\<rparr>);
               s = (case map_of data ''RouteConflict'' of None \<Rightarrow> s | Some err \<Rightarrow> s\<lparr>lcf_RouteConflict := Some err\<rparr>) in
           (None, s)))"

definition ListenerConflictedStatus_HasError :: "ListenerConflictedStatus \<Rightarrow> bool" where
  "ListenerConflictedStatus_HasError s \<longleftrightarrow> lcf_HostnameConflict s \<noteq> None \<or> lcf_ProtocolConflict s \<noteq> None \<or> lcf_RouteConflict s \<noteq> None"

definition zero_ListenerConflictedStatus :: ListenerConflictedStatus where
  "zero_ListenerConflictedStatus = \<lparr>lcf_HostnameConflict = None, lcf_ProtocolConflict = None, lcf_RouteConflict = None\<rparr>"

definition ListenerConflictedStatus_errors :: "ListenerConflictedStatus \<Rightarrow> (string \<times> go_error) list" where
  "ListenerConflictedStatus_errors s = [(''HostnameConflict'', lcf_HostnameConflict s), (''ProtocolConflict'', lcf_ProtocolConflict s), (''RouteConflict'', lcf_RouteConflict s)]"

interpretation lcf: status_condition_error ListenerConflictedStatus_errors ListenerConflictedStatus_Condition ListenerConflictedStatus_MarshalJSON ListenerConflictedStatus_UnmarshalJSON zero_ListenerConflictedStatus
  ListenerConditionConflicted ListenerConditionReasonNoConflicts "''NoConflicts''" ConditionFalse ConditionTrue ListenerConflictedStatus_HasError
  by unfold_locales
    (auto simp: ListenerConflictedStatus_errors_def ListenerConflictedStatus_Condition_def ListenerConflictedStatus_MarshalJSON_def ListenerConflictedStatus_UnmarshalJSON_def ListenerConflictedStatus_HasError_def zero_ListenerConflictedStatus_def read_error_def no_errors_def Let_def in_range_def byte_def split: option.splits)

section \<open>ListenerDetachedStatus\<close>

record ListenerDetachedStatus =
  ldt_PortUnavailable :: go_error
  ldt_UnsupportedExtension :: go_error
  ldt_UnsupportedProtocol :: go_error
  ldt_UnsupportedAddress :: go_error

abbreviation (input) ListenerConditionDetached :: string where
  "ListenerConditionDetached \<equiv> ''Detached''"

abbreviation (input) ListenerConditionReasonAttached :: string where
  "ListenerConditionReasonAttached \<equiv> ''Attached''"

abbreviation (input) ListenerConditionReasonPortUnavailable :: string where
  "ListenerConditionReasonPortUnavailable \<equiv> ''PortUnavailable''"

abbreviation (input) ListenerConditionReasonUnsupportedExtension :: string where
  "ListenerConditionReasonUnsupportedExtension \<equiv> ''UnsupportedExtension''"

abbreviation (input) ListenerConditionReasonUnsupportedProtocol :: string where
  "ListenerConditionReasonUnsupportedProtocol \<equiv> ''UnsupportedProtocol''"

abbreviation (input) ListenerConditionReasonUnsupportedAddress :: string where
  "ListenerConditionReasonUnsupportedAddress \<equiv> ''UnsupportedAddress''"

definition ListenerDetachedStatus_Condition :: "ListenerDetachedStatus \<Rightarrow> int \<Rightarrow> string \<Rightarrow> Condition" where
  "ListenerDetachedStatus_Condition s generation now =
     (case ldt_PortUnavailable s of
        Some err \<Rightarrow> \<lparr>mc_Type = ListenerConditionDetached, mc_Status = ConditionTrue, mc_Reason = ListenerConditionReasonPortUnavailable,
          mc_Message = err, mc_ObservedGeneration = generation, mc_LastTransitionTime = now\<rparr>
      | None \<Rightarrow>
     (case ldt_UnsupportedExtension s of
        Some err \<Rightarrow> \<lparr>mc_Type = ListenerConditionDetached, mc_Status = ConditionTrue, mc_Reason = ListenerConditionReasonUnsupportedExtension,
          mc_Message = err, mc_ObservedGeneration = generation, mc_LastTransitionTime = now\<rparr>
      | None \<Rightarrow>
     (case ldt_UnsupportedProtocol s of
        Some err \<Rightarrow> \<lparr>mc_Type = ListenerConditionDetached, mc_Status = ConditionTrue, mc_Reason = ListenerConditionReasonUnsupportedProtocol,
          mc_Message = err, mc_ObservedGeneration = generation, mc_LastTransitionTime = now\<rparr>
      | None \<Rightarrow>
     (case ldt_UnsupportedAddress s of
        Some err \<Rightarrow> \<lparr>mc_Type = ListenerConditionDetached, mc_Status = ConditionTrue, mc_Reason = ListenerConditionReasonUnsupportedAddress,
          mc_Message = err, mc_ObservedGeneration = generation, mc_LastTransitionTime = now\<rparr>
      | None \<Rightarrow>
        \<lparr>mc_Type = ListenerConditionDetached, mc_Status = ConditionFalse, mc_Reason = ListenerConditionReasonAttached,
         mc_Message = ''Attached'', mc_ObservedGeneration = generation, mc_LastTransitionTime = now\<rparr>))))"

definition ListenerDetachedStatus_MarshalJSON :: "ListenerDetachedStatus \<Rightarrow> string" where
  "ListenerDetachedStatus_MarshalJSON s =
     (let data = [];
          data = (case ldt_PortUnavailable s of None \<Rightarrow> data | Some err \<Rightarrow> AList.update ''PortUnavailable'' err data);
          data = (case ldt_UnsupportedExtension s of None \<Rightarrow> data | Some err \<Rightarrow> AList.update ''UnsupportedExtension'' err data);
          data = (case ldt_UnsupportedProtocol s of None \<Rightarrow> data | Some err \<Rightarrow> AList.update ''UnsupportedProtocol'' err data);
          data = (case ldt_UnsupportedAddress s of None \<Rightarrow> data | Some err \<Rightarrow> AList.update ''UnsupportedAddress'' err data) in
      json_marshal data)"

definition ListenerDetachedStatus_UnmarshalJSON :: "string \<Rightarrow> ListenerDetachedStatus \<Rightarrow> go_error \<times> ListenerDetachedStatus" where
  "ListenerDetachedStatus_UnmarshalJSON b s =
     (case json_unmarshal b of
        Inl err \<Rightarrow> (Some err, s)
      | Inr data \<Rightarrow>
          (let s = (case map_of data ''PortUnavailable'' of None \<Rightarrow> s | Some err \<Rightarrow> s\<lparr>ldt_PortUnavailable := Some err\<rparr>);
               s = (case map_of data ''UnsupportedExtension'' of None \<Rightarrow> s | Some err \<Rightarrow> s\<lparr>ldt_UnsupportedExtension := Some err\<rparr>);
               s = (case map_of data ''UnsupportedProtocol'' of None \<Rightarrow> s | Some err \<Rightarrow> s\<lparr>ldt_UnsupportedProtocol := Some err\<rparr>);
               s = (case map_of data ''UnsupportedAddress'' of None \<Rightarrow> s | Some err \<Rightarrow> s\<lparr>ldt_UnsupportedAddress := Some err\<rparr>) in
           (None, s)))"

definition ListenerDetachedStatus_HasError :: "ListenerDetachedStatus \<Rightarrow> bool" where
  "ListenerDetachedStatus_HasError s \<longleftrightarrow> ldt_PortUnavailable s \<noteq> None \<or> ldt_UnsupportedExtension s \<noteq> None \<or> ldt_UnsupportedProtocol s \<noteq> None \<or> ldt_UnsupportedAddress s \<noteq> None"

definition zero_ListenerDetachedStatus :: ListenerDetachedStatus where
  "zero_ListenerDetachedStatus = \<lparr>ldt_PortUnavailable = None, ldt_UnsupportedExtension = None, ldt_UnsupportedProtocol = None, ldt_UnsupportedAddress = None\<rparr>"

definition ListenerDetachedStatus_errors :: "ListenerDetachedStatus \<Rightarrow> (string \<times> go_error) list" where
  "ListenerDetachedStatus_errors s = [(''PortUnavailable'', ldt_PortUnavailable s), (''UnsupportedExtension'', ldt_UnsupportedExtension s), (''UnsupportedProtocol'', ldt_UnsupportedProtocol s), (''UnsupportedAddress'', ldt_UnsupportedAddress s)]"

interpretation ldt: status_condition_error ListenerDetachedStatus_errors ListenerDetachedStatus_Condition ListenerDetachedStatus_MarshalJSON ListenerDetachedStatus_UnmarshalJSON zero_ListenerDetachedStatus
  ListenerConditionDetached ListenerConditionReasonAttached "''Attached''" ConditionFalse ConditionTrue ListenerDetachedStatus_HasError
  by unfold_locales
    (auto simp: ListenerDetachedStatus_errors_def ListenerDetachedStatus_Condition_def ListenerDetachedStatus_MarshalJSON_def ListenerDetachedStatus_UnmarshalJSON_def ListenerDetachedStatus_HasError_def zero_ListenerDetachedStatus_def read_error_def no_errors_def Let_def in_range_def byte_def split: option.splits)

section \<open>ListenerReadyStatus\<close>

record ListenerReadyStatus =
  lrd_Invalid :: go_error
  lrd_Pending :: go_error

abbreviation (input) ListenerConditionReady :: string where
  "ListenerConditionReady \<equiv> ''Ready''"

abbreviation (input) ListenerConditionReasonReady :: string where
  "ListenerConditionReasonReady \<equiv> ''Ready''"

abbreviation (input) ListenerConditionReasonInvalid :: string where
  "ListenerConditionReasonInvalid \<equiv> ''Invalid''"

abbreviation (input) ListenerConditionReasonPending :: string where
  "ListenerConditionReasonPending \<equiv> ''Pending''"

definition ListenerReadyStatus_Condition :: "ListenerReadyStatus \<Rightarrow> int \<Rightarrow> string \<Rightarrow> Condition" where
  "ListenerReadyStatus_Condition s generation now =
     (case lrd_Invalid s of
        Some err \<Rightarrow> \<lparr>mc_Type = ListenerConditionReady, mc_Status = ConditionFalse, mc_Reason = ListenerConditionReasonInvalid,
          mc_Message = err, mc_ObservedGeneration = generation, mc_LastTransitionTime = now\<rparr>
      | None \<Rightarrow>
     (case lrd_Pending s of
        Some err \<Rightarrow> \<lparr>mc_Type = ListenerConditionReady, mc_Status = ConditionFalse, mc_Reason = ListenerConditionReasonPending,
          mc_Message = err, mc_ObservedGeneration = generation, mc_LastTransitionTime = now\<rparr>
      | None \<Rightarrow>
        \<lparr>mc_Type = ListenerConditionReady, mc_Status = ConditionTrue, mc_Reason = ListenerConditionReasonReady,
         mc_Message = ''Ready'', mc_ObservedGeneration = generation, mc_LastTransitionTime = now\<rparr>))"

definition ListenerReadyStatus_MarshalJSON :: "ListenerReadyStatus \<Rightarrow> string" where
  "ListenerReadyStatus_MarshalJSON s =
     (let data = [];
          data = (case lrd_Invalid s of None \<Rightarrow> data | Some err \<Rightarrow> AList.update ''Invalid'' err data);
          data = (case lrd_Pending s of None \<Rightarrow> data | Some err \<Rightarrow> AList.update ''Pending'' err data) in
      json_marshal data)"

definition ListenerReadyStatus_UnmarshalJSON :: "string \<Rightarrow> ListenerReadyStatus \<Rightarrow> go_error \<times> ListenerReadyStatus" where
  "ListenerReadyStatus_UnmarshalJSON b s =
     (case json_unmarshal b of
        Inl err \<Rightarrow> (Some err, s)
      | Inr data \<Rightarrow>
          (let s = (case map_of data ''Invalid'' of None \<Rightarrow> s | Some err \<Rightarrow> s\<lparr>lrd_Invalid := Some err\<rparr>);
               s = (case map_of data ''Pending'' of None \<Rightarrow> s | Some err \<Rightarrow> s\<lparr>lrd_Pending := Some err\<rparr>) in
           (None, s)))"

definition ListenerReadyStatus_HasError :: "ListenerReadyStatus \<Rightarrow> bool" where
  "ListenerReadyStatus_HasError s \<longleftrightarrow> lrd_Invalid s \<noteq> None \<or> lrd_Pending s \<noteq> None"

definition zero_ListenerReadyStatus :: ListenerReadyStatus where
  "zero_ListenerReadyStatus = \<lparr>lrd_Invalid = None, lrd_Pending = None\<rparr>"

definition ListenerReadyStatus_errors :: "ListenerReadyStatus \<Rightarrow> (string \<times> go_error) list" where
  "ListenerReadyStatus_errors s = [(''Invalid'', lrd_Invalid s), (''Pending'', lrd_Pending s)]"

interpretation lrd: status_condition_error ListenerReadyStatus_errors ListenerReadyStatus_Condition ListenerReadyStatus_MarshalJSON ListenerReadyStatus_UnmarshalJSON zero_ListenerReadyStatus
  ListenerConditionReady ListenerConditionReasonReady "''Ready''" ConditionTrue ConditionFalse ListenerReadyStatus_HasError
  by unfold_locales
    (auto simp: ListenerReadyStatus_errors_def ListenerReadyStatus_Condition_def ListenerReadyStatus_MarshalJSON_def ListenerReadyStatus_UnmarshalJSON_def ListenerReadyStatus_HasError_def zero_ListenerReadyStatus_def read_error_def no_errors_def Let_def in_range_def byte_def split: option.splits)

section \<open>ListenerResolvedRefsStatus\<close>

record ListenerResolvedRefsStatus =
  lrr_InvalidCertificateRef :: go_error
  lrr_InvalidRouteKinds :: go_error
  lrr_RefNotPermitted :: go_error

abbreviation (input) ListenerConditionResolvedRefs :: string where
  "ListenerConditionResolvedRefs \<equiv> ''ResolvedRefs''"

abbreviation (input) ListenerConditionReasonResolvedRefs :: string where
  "ListenerConditionReasonResolvedRefs \<equiv> ''ResolvedRefs''"

abbreviation (input) ListenerConditionReasonInvalidCertificateRef :: string where
  "ListenerConditionReasonInvalidCertificateRef \<equiv> ''InvalidCertificateRef''"

abbreviation (input) ListenerConditionReasonInvalidRouteKinds :: string where
  "ListenerConditionReasonInvalidRouteKinds \<equiv> ''InvalidRouteKinds''"

abbreviation (input) ListenerConditionReasonRefNotPermitted :: string where
  "ListenerConditionReasonRefNotPermitted \<equiv> ''RefNotPermitted''"

definition ListenerResolvedRefsStatus_Condition :: "ListenerResolvedRefsStatus \<Rightarrow> int \<Rightarrow> string \<Rightarrow> Condition" where
  "ListenerResolvedRefsStatus_Condition s generation now =
     (case lrr_InvalidCertificateRef s of
        Some err \<Rightarrow> \<lparr>mc_Type = ListenerConditionResolvedRefs, mc_Status = ConditionFalse, mc_Reason = ListenerConditionReasonInvalidCertificateRef,
          mc_Message = err, mc_ObservedGeneration = generation, mc_LastTransitionTime = now\<rparr>
      | None \<Rightarrow>
     (case lrr_InvalidRouteKinds s of
        Some err \<Rightarrow> \<lparr>mc_Type = ListenerConditionResolvedRefs, mc_Status = ConditionFalse, mc_Reason = ListenerConditionReasonInvalidRouteKinds,
          mc_Message = err, mc_ObservedGeneration = generation, mc_LastTransitionTime = now\<rparr>
      | None \<Rightarrow>
     (case lrr_RefNotPermitted s of
        Some err \<Rightarrow> \<lparr>mc_Type = ListenerConditionResolvedRefs, mc_Status = ConditionFalse, mc_Reason = ListenerConditionReasonRefNotPermitted,
          mc_Message = err, mc_ObservedGeneration = generation, mc_LastTransitionTime = now\<rparr>
      | None \<Rightarrow>
        \<lparr>mc_Type = ListenerConditionResolvedRefs, mc_Status = ConditionTrue, mc_Reason = ListenerConditionReasonResolvedRefs,
         mc_Message = ''ResolvedRefs'', mc_ObservedGeneration = generation, mc_LastTransitionTime = now\<rparr>)))"

definition ListenerResolvedRefsStatus_MarshalJSON :: "ListenerResolvedRefsStatus \<Rightarrow> string" where
  "ListenerResolvedRefsStatus_MarshalJSON s =
     (let data = [];
          data = (case lrr_InvalidCertificateRef s of None \<Rightarrow> data | Some err \<Rightarrow> AList.update ''InvalidCertificateRef'' err data);
          data = (case lrr_InvalidRouteKinds s of None \<Rightarrow> data | Some err \<Rightarrow> AList.update ''InvalidRouteKinds'' err data);
          data = (case lrr_RefNotPermitted s of None \<Rightarrow> data | Some err \<Rightarrow> AList.update ''RefNotPermitted'' err data) in
      json_marshal data)"

definition ListenerResolvedRefsStatus_UnmarshalJSON :: "string \<Rightarrow> ListenerResolvedRefsStatus \<Rightarrow> go_error \<times> ListenerResolvedRefsStatus" where
  "ListenerResolvedRefsStatus_UnmarshalJSON b s =
     (case json_unmarshal b of
        Inl err \<Rightarrow> (Some err, s)
      | Inr data \<Rightarrow>
          (let s = (case map_of data ''InvalidCertificateRef'' of None \<Rightarrow> s | Some err \<Rightarrow> s\<lparr>lrr_InvalidCertificateRef := Some err\<rparr>);
               s = (case map_of data ''InvalidRouteKinds'' of None \<Rightarrow> s | Some err \<Rightarrow> s\<lparr>lrr_InvalidRouteKinds := Some err\<rparr>);
               s = (case map_of data ''RefNotPermitted'' of None \<Rightarrow> s | Some err \<Rightarrow> s\<lparr>lrr_RefNotPermitted := Some err\<rparr>) in
           (None, s)))"

definition ListenerResolvedRefsStatus_HasError :: "ListenerResolvedRefsStatus \<Rightarrow> bool" where
  "ListenerResolvedRefsStatus_HasError s \<longleftrightarrow> lrr_InvalidCertificateRef s \<noteq> None \<or> lrr_InvalidRouteKinds s \<noteq> None \<or> lrr_RefNotPermitted s \<noteq> None"

definition zero_ListenerResolvedRefsStatus :: ListenerResolvedRefsStatus where
  "zero_ListenerResolvedRefsStatus = \<lparr>lrr_InvalidCertificateRef = None, lrr_InvalidRouteKinds = None, lrr_RefNotPermitted = None\<rparr>"

definition ListenerResolvedRefsStatus_errors :: "ListenerResolvedRefsStatus \<Rightarrow> (string \<times> go_error) list" where
  "ListenerResolvedRefsStatus_errors s = [(''InvalidCertificateRef'', lrr_InvalidCertificateRef s), (''InvalidRouteKinds'', lrr_InvalidRouteKinds s), (''RefNotPermitted'', lrr_RefNotPermitted s)]"

interpretation lrr: status_condition_error ListenerResolvedRefsStatus_errors ListenerResolvedRefsStatus_Condition ListenerResolvedRefsStatus_MarshalJSON ListenerResolvedRefsStatus_UnmarshalJSON zero_ListenerResolvedRefsStatus
  ListenerConditionResolvedRefs ListenerConditionReasonResolvedRefs "''ResolvedRefs''" ConditionTrue ConditionFalse ListenerResolvedRefsStatus_HasError
  by unfold_locales
    (auto simp: ListenerResolvedRefsStatus_errors_def ListenerResolvedRefsStatus_Condition_def ListenerResolvedRefsStatus_MarshalJSON_def ListenerResolvedRefsStatus_UnmarshalJSON_def ListenerResolvedRefsStatus_HasError_def zero_ListenerResolvedRefsStatus_def read_error_def no_errors_def Let_def in_range_def byte_def split: option.splits)

section \<open>ListenerStatus\<close>

record ListenerStatus =
  lst_Conflicted :: ListenerConflictedStatus
  lst_Detached :: ListenerDetachedStatus
  lst_Ready :: ListenerReadyStatus
  lst_ResolvedRefs :: ListenerResolvedRefsStatus

definition ListenerStatus_Conditions :: "ListenerStatus \<Rightarrow> int \<Rightarrow> string \<Rightarrow> Condition list" where
  "ListenerStatus_Conditions s generation now =
     [ListenerConflictedStatus_Condition (lst_Conflicted s) generation now,
      ListenerDetachedStatus_Condition (lst_Detached s) generation now,
      ListenerReadyStatus_Condition (lst_Ready s) generation now,
      ListenerResolvedRefsStatus_Condition (lst_ResolvedRefs s) generation now]"

definition ListenerStatus_Valid :: "ListenerStatus \<Rightarrow> bool" where
  "ListenerStatus_Valid s =
     (if ListenerConflictedStatus_HasError (lst_Conflicted s) \<or> ListenerDetachedStatus_HasError (lst_Detached s) \<or>
         ListenerResolvedRefsStatus_HasError (lst_ResolvedRefs s)
      then False else True)"

section \<open>What the statuses report\<close>

text \<open>C24: for every generated status, \<open>HasError\<close> holds exactly when the reported condition has the unwanted value:
  \<open>False\<close>, or \<open>True\<close> for \<open>Conflicted\<close> and \<open>Detached\<close>.\<close>

theorem HasError_reported:
  "(GatewayClassAcceptedStatus_HasError gca \<longleftrightarrow> mc_Status (GatewayClassAcceptedStatus_Condition gca g now) = ConditionFalse) \<and>
   (GatewayReadyStatus_HasError grd \<longleftrightarrow> mc_Status (GatewayReadyStatus_Condition grd g now) = ConditionFalse) \<and>
   (GatewayScheduledStatus_HasError gsc \<longleftrightarrow> mc_Status (GatewayScheduledStatus_Condition gsc g now) = ConditionFalse) \<and>
   (GatewayInSyncStatus_HasError gis \<longleftrightarrow> mc_Status (GatewayInSyncStatus_Condition gis g now) = ConditionFalse) \<and>
   (RouteResolvedRefsStatus_HasError rrr \<longleftrightarrow> mc_Status (RouteResolvedRefsStatus_Condition rrr g now) = ConditionFalse) \<and>
   (ListenerConflictedStatus_HasError lcf \<longleftrightarrow> mc_Status (ListenerConflictedStatus_Condition lcf g now) = ConditionTrue) \<and>
   (ListenerDetachedStatus_HasError ldt \<longleftrightarrow> mc_Status (ListenerDetachedStatus_Condition ldt g now) = ConditionTrue) \<and>
   (ListenerReadyStatus_HasError lrd \<longleftrightarrow> mc_Status (ListenerReadyStatus_Condition lrd g now) = ConditionFalse) \<and>
   (ListenerResolvedRefsStatus_HasError lrr \<longleftrightarrow> mc_Status (ListenerResolvedRefsStatus_Condition lrr g now) = ConditionFalse)"
  by (intro conjI gca.HasError_condition(1) grd.HasError_condition(1) gsc.HasError_condition(1) gis.HasError_condition(1)
      rrr.HasError_condition(1) lcf.HasError_condition(1) ldt.HasError_condition(1) lrd.HasError_condition(1)
      lrr.HasError_condition(1))

text \<open>C23: a status whose error texts are UTF-8 survives being stored: reading the JSON text that was written for it
  into a new status gives the same status, without an error.\<close>

theorem status_json_roundtrip:
  assumes "printable (GatewayClassAcceptedStatus_errors gca)" and "printable (GatewayReadyStatus_errors grd)"
    and "printable (GatewayScheduledStatus_errors gsc)" and "printable (GatewayInSyncStatus_errors gis)"
    and "printable (RouteAcceptedStatus_errors rac)" and "printable (RouteResolvedRefsStatus_errors rrr)"
    and "printable (ListenerConflictedStatus_errors lcf)" and "printable (ListenerDetachedStatus_errors ldt)"
    and "printable (ListenerReadyStatus_errors lrd)" and "printable (ListenerResolvedRefsStatus_errors lrr)"
  shows
    "GatewayClassAcceptedStatus_UnmarshalJSON (GatewayClassAcceptedStatus_MarshalJSON gca) zero_GatewayClassAcceptedStatus = (None, gca) \<and>
     GatewayReadyStatus_UnmarshalJSON (GatewayReadyStatus_MarshalJSON grd) zero_GatewayReadyStatus = (None, grd) \<and>
     GatewayScheduledStatus_UnmarshalJSON (GatewayScheduledStatus_MarshalJSON gsc) zero_GatewayScheduledStatus = (None, gsc) \<and>
     GatewayInSyncStatus_UnmarshalJSON (GatewayInSyncStatus_MarshalJSON gis) zero_GatewayInSyncStatus = (None, gis) \<and>
     RouteAcceptedStatus_UnmarshalJSON (RouteAcceptedStatus_MarshalJSON rac) zero_RouteAcceptedStatus = (None, rac) \<and>
     RouteResolvedRefsStatus_UnmarshalJSON (RouteResolvedRefsStatus_MarshalJSON rrr) zero_RouteResolvedRefsStatus = (None, rrr) \<and>
     ListenerConflictedStatus_UnmarshalJSON (ListenerConflictedStatus_MarshalJSON lcf) zero_ListenerConflictedStatus = (None, lcf) \<and>
     ListenerDetachedStatus_UnmarshalJSON (ListenerDetachedStatus_MarshalJSON ldt) zero_ListenerDetachedStatus = (None, ldt) \<and>
     ListenerReadyStatus_UnmarshalJSON (ListenerReadyStatus_MarshalJSON lrd) zero_ListenerReadyStatus = (None, lrd) \<and>
     ListenerResolvedRefsStatus_UnmarshalJSON (ListenerResolvedRefsStatus_MarshalJSON lrr) zero_ListenerResolvedRefsStatus = (None, lrr)"
  by (intro conjI gca.json_status_roundtrip grd.json_status_roundtrip gsc.json_status_roundtrip gis.json_status_roundtrip
      rac.json_status_roundtrip rrr.json_status_roundtrip lcf.json_status_roundtrip ldt.json_status_roundtrip
      lrd.json_status_roundtrip lrr.json_status_roundtrip assms)

theorem status_json_roundtrip_witness:
  "RouteAcceptedStatus_UnmarshalJSON (RouteAcceptedStatus_MarshalJSON (zero_RouteAcceptedStatus\<lparr>rac_BindError := Some ''a<b''\<rparr>))
     zero_RouteAcceptedStatus = (None, zero_RouteAcceptedStatus\<lparr>rac_BindError := Some ''a<b''\<rparr>) \<and>
   ListenerReadyStatus_UnmarshalJSON (ListenerReadyStatus_MarshalJSON (zero_ListenerReadyStatus\<lparr>lrd_Pending := Some ''pending''\<rparr>))
     zero_ListenerReadyStatus = (None, zero_ListenerReadyStatus\<lparr>lrd_Pending := Some ''pending''\<rparr>)"
  using status_json_roundtrip [of zero_GatewayClassAcceptedStatus zero_GatewayReadyStatus zero_GatewayScheduledStatus
      zero_GatewayInSyncStatus "zero_RouteAcceptedStatus\<lparr>rac_BindError := Some ''a<b''\<rparr>" zero_RouteResolvedRefsStatus
      zero_ListenerConflictedStatus zero_ListenerDetachedStatus "zero_ListenerReadyStatus\<lparr>lrd_Pending := Some ''pending''\<rparr>"
      zero_ListenerResolvedRefsStatus]
  by (simp add: printable_def byte_def zero_GatewayClassAcceptedStatus_def zero_GatewayReadyStatus_def
      zero_GatewayScheduledStatus_def zero_GatewayInSyncStatus_def zero_RouteAcceptedStatus_def zero_RouteResolvedRefsStatus_def
      zero_ListenerConflictedStatus_def zero_ListenerDetachedStatus_def zero_ListenerReadyStatus_def zero_ListenerResolvedRefsStatus_def
      GatewayClassAcceptedStatus_errors_def GatewayReadyStatus_errors_def GatewayScheduledStatus_errors_def
      GatewayInSyncStatus_errors_def RouteAcceptedStatus_errors_def RouteResolvedRefsStatus_errors_def
      ListenerConflictedStatus_errors_def ListenerDetachedStatus_errors_def ListenerReadyStatus_errors_def
      ListenerResolvedRefsStatus_errors_def)

text \<open>C25: a listener is valid exactly when its reported conditions are \<open>Conflicted=False\<close>, \<open>Detached=False\<close> and
  \<open>ResolvedRefs=True\<close>; the \<open>Ready\<close> condition is reported third and plays no part.\<close>

theorem ListenerStatus_Valid_conditions:
  "map mc_Type (ListenerStatus_Conditions s g now) = [''Conflicted'', ''Detached'', ''Ready'', ''ResolvedRefs''] \<and>
   (ListenerStatus_Valid s \<longleftrightarrow>
     map mc_Status (ListenerStatus_Conditions s g now) =
       [ConditionFalse, ConditionFalse, mc_Status (ListenerReadyStatus_Condition (lst_Ready s) g now), ConditionTrue])"
  using lcf.status_ok ldt.status_ok lrr.status_ok
  by (simp add: ListenerStatus_Conditions_def ListenerStatus_Valid_def lcf.condition_type ldt.condition_type
      lrd.condition_type lrr.condition_type lcf.has_error ldt.has_error lrr.has_error)

end
