(* ===== verification/Gateway_API.thy ===== *)
theory Gateway_API
  imports Status_Conditions Core_Model
begin

text \<open>
  The Kubernetes objects the controller reads and writes, with the fields the sources use: the Gateway API's gateways,
  listeners, routes and their statuses, and the helpers of \<open>internal/k8s/utils\<close> and of
  \<open>internal/k8s/reconciler/common\<close> on them. The types belong to the Kubernetes libraries; an optional field is a
  pointer there and an \<open>option\<close> here, a name or an enumeration is a string.
\<close>

section \<open>Objects and references\<close>

record NamespacedName =
  nn_Namespace :: string
  nn_Name :: string

definition NamespacedName_String :: "NamespacedName \<Rightarrow> string" where
  "NamespacedName_String n = nn_Namespace n @ ''/'' @ nn_Name n"

record GroupKind =
  gk_Group :: string
  gk_Kind :: string

record ObjectMeta =
  om_Name :: string
  om_Namespace :: string
  om_UID :: string
  om_Generation :: int
  om_ResourceVersion :: string
  om_CreationTimestamp :: int
  om_Labels :: "(string, string) gomap"
  om_Annotations :: "(string, string) gomap"
  om_Finalizers :: "string list"
  om_DeletionTimestamp :: "int option"
  om_GroupVersionKind :: GroupKind

text \<open>The metadata of an object the controller makes: the fields a literal leaves out are zero.\<close>

definition new_meta :: "string \<Rightarrow> string \<Rightarrow> (string, string) gomap \<Rightarrow> ObjectMeta" where
  "new_meta name ns labels =
     \<lparr>om_Name = name, om_Namespace = ns, om_UID = '''', om_Generation = 0, om_ResourceVersion = '''', om_CreationTimestamp = 0,
      om_Labels = labels, om_Annotations = [], om_Finalizers = [], om_DeletionTimestamp = None,
      om_GroupVersionKind = \<lparr>gk_Group = '''', gk_Kind = ''''\<rparr>\<rparr>"

definition NamespacedName_of :: "ObjectMeta \<Rightarrow> NamespacedName" where
  "NamespacedName_of obj = \<lparr>nn_Namespace = om_Namespace obj, nn_Name = om_Name obj\<rparr>"

record ParentReference =
  pr_Group :: "string option"
  pr_Kind :: "string option"
  pr_Namespace :: "string option"
  pr_Name :: string
  pr_SectionName :: "string option"
  pr_Port :: "int option"

record BackendObjectReference =
  bo_Group :: "string option"
  bo_Kind :: "string option"
  bo_Name :: string
  bo_Namespace :: "string option"
  bo_Port :: "int option"

record BackendRef = BackendObjectReference +
  br_Weight :: "32 word option"

record RouteGroupKind =
  rgk_Group :: "string option"
  rgk_Kind :: string

section \<open>Routes\<close>

record GwHTTPHeader =
  hh_Name :: string
  hh_Value :: string

record GwRequestHeaderModifier =
  rhm_Set :: "GwHTTPHeader list"
  rhm_Add :: "GwHTTPHeader list"
  rhm_Remove :: "string list"

record GwRequestRedirect =
  rrd_Scheme :: "string option"
  rrd_Hostname :: "string option"
  rrd_Port :: "int option"
  rrd_StatusCode :: "int option"

record GwHTTPPathModifier =
  hpm_Type :: string
  hpm_ReplacePrefixMatch :: "string option"

record GwURLRewrite =
  gur_Path :: "GwHTTPPathModifier option"

text \<open>A filter names its type and has a pointer for each kind of settings; nothing forces the pointer for the type
  to be set. The settings of the types that the code does not know are left out.\<close>

record GwHTTPRouteFilter =
  gf_Type :: string
  gf_RequestHeaderModifier :: "GwRequestHeaderModifier option"
  gf_RequestRedirect :: "GwRequestRedirect option"
  gf_URLRewrite :: "GwURLRewrite option"

record GwHTTPPathMatch =
  gpm_Type :: "string option"
  gpm_Value :: "string option"

record GwHTTPHeaderMatch =
  ghm_Type :: "string option"
  ghm_Name :: string
  ghm_Value :: string

record GwHTTPQueryParamMatch =
  gqm_Type :: "string option"
  gqm_Name :: string
  gqm_Value :: string

record GwHTTPRouteMatch =
  grm_Path :: "GwHTTPPathMatch option"
  grm_Headers :: "GwHTTPHeaderMatch list"
  grm_QueryParams :: "GwHTTPQueryParamMatch list"
  grm_Method :: "string option"

record HTTPBackendRef = BackendRef +
  hbr_Filters :: "GwHTTPRouteFilter list"

record GwHTTPRouteRule =
  ghr_Matches :: "GwHTTPRouteMatch list"
  ghr_Filters :: "GwHTTPRouteFilter list"
  ghr_BackendRefs :: "HTTPBackendRef list"

record GwTCPRouteRule =
  gtr_BackendRefs :: "BackendRef list"

record RouteParentStatus =
  rps_ParentRef :: ParentReference
  rps_ControllerName :: string
  rps_Conditions :: "Condition list"

record GwHTTPRoute =
  ghrt_Meta :: ObjectMeta
  ghrt_ParentRefs :: "ParentReference list"
  ghrt_Hostnames :: "string list"
  ghrt_Rules :: "GwHTTPRouteRule list"
  ghrt_Parents :: "RouteParentStatus list"

record GwTCPRoute =
  gtrt_Meta :: ObjectMeta
  gtrt_ParentRefs :: "ParentReference list"
  gtrt_Rules :: "GwTCPRouteRule list"
  gtrt_Parents :: "RouteParentStatus list"

text \<open>The interface \<open>Route\<close>: the two kinds of route the controller watches.\<close>

datatype Route = GwHTTP GwHTTPRoute | GwTCP GwTCPRoute

fun route_meta :: "Route \<Rightarrow> ObjectMeta" where
  "route_meta (GwHTTP r) = ghrt_Meta r"
| "route_meta (GwTCP r) = gtrt_Meta r"

section \<open>Gateways\<close>

record LabelSelectorRequirement =
  lsr_Key :: string
  lsr_Operator :: string
  lsr_Values :: "string list"

record LabelSelector =
  ls_MatchLabels :: "(string, string) gomap"
  ls_MatchExpressions :: "LabelSelectorRequirement list"

record RouteNamespaces =
  rn_From :: "string option"
  rn_Selector :: "LabelSelector option"

record AllowedRoutes =
  ar_Namespaces :: "RouteNamespaces option"
  ar_Kinds :: "RouteGroupKind list"

record SecretObjectReference =
  so_Group :: "string option"
  so_Kind :: "string option"
  so_Name :: string
  so_Namespace :: "string option"

record GatewayTLS =
  gt_Mode :: "string option"
  gt_CertificateRefs :: "SecretObjectReference list"
  gt_Options :: "(string, string) gomap"

record Listener =
  li_Name :: string
  li_Hostname :: "string option"
  li_Port :: int
  li_Protocol :: string
  li_TLS :: "GatewayTLS option"
  li_AllowedRoutes :: "AllowedRoutes option"

record GwListenerStatus =
  gls_Name :: string
  gls_SupportedKinds :: "RouteGroupKind list option"
  gls_AttachedRoutes :: "32 word"
  gls_Conditions :: "Condition list"

record GatewayAddress =
  ga_Type :: "string option"
  ga_Value :: string

record GwGatewayStatus =
  ggs_Addresses :: "GatewayAddress list"
  ggs_Conditions :: "Condition list"
  ggs_Listeners :: "GwListenerStatus list"

record Gateway =
  gw_Meta :: ObjectMeta
  gw_GatewayClassName :: string
  gw_Listeners :: "Listener list"
  gw_Addresses :: "GatewayAddress list"
  gw_Status :: GwGatewayStatus

abbreviation (input) GroupName :: string where
  "GroupName \<equiv> ''gateway.networking.k8s.io''"

abbreviation (input) HTTPProtocolType :: string where "HTTPProtocolType \<equiv> ''HTTP''"
abbreviation (input) HTTPSProtocolType :: string where "HTTPSProtocolType \<equiv> ''HTTPS''"
abbreviation (input) TLSProtocolType :: string where "TLSProtocolType \<equiv> ''TLS''"
abbreviation (input) TCPProtocolType :: string where "TCPProtocolType \<equiv> ''TCP''"
abbreviation (input) UDPProtocolType :: string where "UDPProtocolType \<equiv> ''UDP''"

section \<open>Helpers\<close>

definition ProtocolToConsul :: "string \<Rightarrow> string \<times> bool" where
  "ProtocolToConsul protocolType =
     (if protocolType \<in> {TCPProtocolType, TLSProtocolType} then (''tcp'', protocolType = TLSProtocolType)
      else if protocolType \<in> {HTTPProtocolType, HTTPSProtocolType} then (''http'', protocolType = HTTPSProtocolType)
      else if protocolType = UDPProtocolType then ('''', False)
      else ('''', False))"

definition ReferencesGateway :: "string \<Rightarrow> ParentReference \<Rightarrow> NamespacedName \<times> bool" where
  "ReferencesGateway ns ref =
     (if pr_Group ref \<notin> {None, Some GroupName} then (\<lparr>nn_Namespace = '''', nn_Name = ''''\<rparr>, False)
      else if pr_Kind ref \<notin> {None, Some ''Gateway''} then (\<lparr>nn_Namespace = '''', nn_Name = ''''\<rparr>, False)
      else (\<lparr>nn_Namespace = (case pr_Namespace ref of None \<Rightarrow> ns | Some n \<Rightarrow> n), nn_Name = pr_Name ref\<rparr>, True))"

abbreviation (input) ManagedLabel :: string where
  "ManagedLabel \<equiv> ''api-gateway.consul.hashicorp.com/managed''"
abbreviation (input) nameLabel :: string where
  "nameLabel \<equiv> ''api-gateway.consul.hashicorp.com/name''"
abbreviation (input) namespaceLabel :: string where
  "namespaceLabel \<equiv> ''api-gateway.consul.hashicorp.com/namespace''"
abbreviation (input) createdAtLabel :: string where
  "createdAtLabel \<equiv> ''api-gateway.consul.hashicorp.com/created''"

definition format_int :: "int \<Rightarrow> string" where
  "format_int i = (if i < 0 then ''-'' @ format_uint 10 (nat (- i)) else format_uint 10 (nat i))"

definition LabelsForGateway :: "Gateway \<Rightarrow> (string, string) gomap" where
  "LabelsForGateway gw =
     [(nameLabel, om_Name (gw_Meta gw)), (namespaceLabel, om_Namespace (gw_Meta gw)),
      (createdAtLabel, format_int (om_CreationTimestamp (gw_Meta gw))), (ManagedLabel, ''true'')]"

definition GatewayByLabels :: "ObjectMeta \<Rightarrow> NamespacedName" where
  "GatewayByLabels object =
     \<lparr>nn_Namespace = get_string (om_Labels object) namespaceLabel, nn_Name = get_string (om_Labels object) nameLabel\<rparr>"

definition IsManagedGateway :: "(string, string) gomap \<Rightarrow> string \<times> bool" where
  "IsManagedGateway labels =
     (if map_of labels ManagedLabel \<noteq> Some ''true'' then ('''', False)
      else (case map_of labels nameLabel of None \<Rightarrow> ('''', False) | Some name \<Rightarrow> (name, True)))"

definition ResourceVersionGreater :: "string \<Rightarrow> string \<Rightarrow> bool" where
  "ResourceVersionGreater a b =
     (case atoi a of
        None \<Rightarrow> False
      | Some aVal \<Rightarrow> (case atoi b of None \<Rightarrow> True | Some bVal \<Rightarrow> aVal > bVal))"

definition supportedKindsForProtocol :: "(string, RouteGroupKind list) gomap" where
  "supportedKindsForProtocol =
     [(HTTPProtocolType, [\<lparr>rgk_Group = Some GroupName, rgk_Kind = ''HTTPRoute''\<rparr>]),
      (HTTPSProtocolType, [\<lparr>rgk_Group = Some GroupName, rgk_Kind = ''HTTPRoute''\<rparr>]),
      (TCPProtocolType, [\<lparr>rgk_Group = Some GroupName, rgk_Kind = ''TCPRoute''\<rparr>])]"

text \<open>A protocol without an entry gives \<open>nil\<close>, which the callers tell from an empty list: \<^const>\<open>None\<close> here.\<close>

definition SupportedKindsFor :: "string \<Rightarrow> RouteGroupKind list option" where
  "SupportedKindsFor protocol = map_of supportedKindsForProtocol protocol"

lemma labels_select_gateway:
  "GatewayByLabels (om\<lparr>om_Labels := LabelsForGateway gw\<rparr>) = NamespacedName_of (gw_Meta gw) \<and>
   IsManagedGateway (LabelsForGateway gw) = (om_Name (gw_Meta gw), True)"
  by (simp add: GatewayByLabels_def LabelsForGateway_def NamespacedName_of_def IsManagedGateway_def get_string_def)

end
