(* ===== verification/Backend_Resolver.thy ===== *)
theory Backend_Resolver
  imports Gateway_API Intentions
begin

text \<open>
  \<open>internal/k8s/service\<close>: the errors of resolving a route's backends, and the resolver that finds the Consul service
  for a Kubernetes service or a mesh service. The Kubernetes client, the Consul catalog and the retry library are
  arguments; they act on a world of type \<open>'w\<close>, so that every call may see a new state of the outside. The lemmas show
  how a collection of errors is summarised, what of it survives being stored, and that a resolved reference names
  a service the catalog listed.
\<close>

section \<open>Resolution errors\<close>

type_synonym ServiceResolutionErrorType = string

abbreviation (input) K8sServiceResolutionErrorType :: ServiceResolutionErrorType where
  "K8sServiceResolutionErrorType \<equiv> ''''"
abbreviation (input) BackendNotFoundErrorType :: ServiceResolutionErrorType where
  "BackendNotFoundErrorType \<equiv> ''BackendNotFoundError''"
abbreviation (input) ConsulServiceResolutionErrorType :: ServiceResolutionErrorType where
  "ConsulServiceResolutionErrorType \<equiv> ''ConsulServiceResolutionError''"
abbreviation (input) GenericResolutionErrorType :: ServiceResolutionErrorType where
  "GenericResolutionErrorType \<equiv> ''GenericResolutionError''"
abbreviation (input) InvalidKindErrorType :: ServiceResolutionErrorType where
  "InvalidKindErrorType \<equiv> ''InvalidKindError''"
abbreviation (input) NoResolutionErrorType :: ServiceResolutionErrorType where
  "NoResolutionErrorType \<equiv> ''NoResolutionError''"
abbreviation (input) RefNotPermittedErrorType :: ServiceResolutionErrorType where
  "RefNotPermittedErrorType \<equiv> ''RefNotPermittedError''"

definition errorTypePrefixMap :: "(ServiceResolutionErrorType, string) gomap" where
  "errorTypePrefixMap = [(K8sServiceResolutionErrorType, ''k8s: ''), (ConsulServiceResolutionErrorType, ''consul: '')]"

record ResolutionError =
  re_inner :: string
  re_remote :: ServiceResolutionErrorType

definition NewResolutionError :: "string \<Rightarrow> ResolutionError" where
  "NewResolutionError inner = \<lparr>re_inner = inner, re_remote = GenericResolutionErrorType\<rparr>"

definition NewK8sResolutionError :: "string \<Rightarrow> ResolutionError" where
  "NewK8sResolutionError inner = \<lparr>re_inner = inner, re_remote = K8sServiceResolutionErrorType\<rparr>"

definition NewBackendNotFoundError :: "string \<Rightarrow> ResolutionError" where
  "NewBackendNotFoundError inner = \<lparr>re_inner = inner, re_remote = BackendNotFoundErrorType\<rparr>"

definition NewConsulResolutionError :: "string \<Rightarrow> ResolutionError" where
  "NewConsulResolutionError inner = \<lparr>re_inner = inner, re_remote = ConsulServiceResolutionErrorType\<rparr>"

definition NewInvalidKindError :: "string \<Rightarrow> ResolutionError" where
  "NewInvalidKindError inner = \<lparr>re_inner = inner, re_remote = InvalidKindErrorType\<rparr>"

definition NewRefNotPermittedError :: "string \<Rightarrow> ResolutionError" where
  "NewRefNotPermittedError inner = \<lparr>re_inner = inner, re_remote = RefNotPermittedErrorType\<rparr>"

definition getErrorTypePrefix :: "ServiceResolutionErrorType \<Rightarrow> string" where
  "getErrorTypePrefix errType = get_string errorTypePrefixMap errType"

type_synonym ResolutionErrors = "(ServiceResolutionErrorType, ResolutionError list) gomap"

definition NewResolutionErrors :: ResolutionErrors where
  "NewResolutionErrors = []"

definition ResolutionErrors_Add :: "ResolutionErrors \<Rightarrow> ResolutionError \<Rightarrow> ResolutionErrors" where
  "ResolutionErrors_Add r err =
     AList.update (re_remote err) ((case map_of r (re_remote err) of None \<Rightarrow> [] | Some es \<Rightarrow> es) @ [err]) r"

fun errors_string_loop :: "ResolutionErrors \<Rightarrow> string list" where
  "errors_string_loop [] = []"
| "errors_string_loop ((errType, es) # r) =
     (if length es > 0 then [getErrorTypePrefix errType @ join '', '' (map re_inner es)] else []) @ errors_string_loop r"

definition ResolutionErrors_String :: "ResolutionErrors \<Rightarrow> string" where
  "ResolutionErrors_String r = join ''; '' (errors_string_loop r)"

definition ResolutionErrors_Empty :: "ResolutionErrors \<Rightarrow> bool" where
  "ResolutionErrors_Empty r \<longleftrightarrow> length r = 0"

definition Flatten :: "ResolutionErrors \<Rightarrow> ServiceResolutionErrorType \<times> go_error" where
  "Flatten r =
     (if ResolutionErrors_Empty r then (NoResolutionErrorType, None)
      else if length (case map_of r GenericResolutionErrorType of None \<Rightarrow> [] | Some es \<Rightarrow> es) \<noteq> 0 \<or> length r > 1
      then (GenericResolutionErrorType, Some (ResolutionErrors_String r))
      else (case r of
              (errType, _) # _ \<Rightarrow> (errType, Some (ResolutionErrors_String r))
            | [] \<Rightarrow> (GenericResolutionErrorType, Some (ResolutionErrors_String r))))"

text \<open>
  The stored form, as a JSON value. \<open>encoding/json\<close> writes the exported fields of a struct, those whose names begin
  with a capital letter, in the order of their declaration, and a map with its keys in order. It reads an object into a
  struct by setting the exported fields that a member names up to case, and leaves the other fields as they are.
\<close>

datatype json_value =
    JNull
  | JString string
  | JArray "json_value list"
  | JObject "(string \<times> json_value) list"

definition exported :: "string \<Rightarrow> bool" where
  "exported name = (case name of [] \<Rightarrow> False | c # _ \<Rightarrow> CHR ''A'' \<le> c \<and> c \<le> CHR ''Z'')"

definition marshal_struct :: "(string \<times> json_value) list \<Rightarrow> json_value" where
  "marshal_struct members = JObject (filter (\<lambda>(name, _). exported name) members)"

definition unmarshal_string :: "string \<Rightarrow> (string \<times> json_value) list \<Rightarrow> string \<Rightarrow> string option" where
  "unmarshal_string name members old =
     (if \<not> exported name then Some old
      else (case find (\<lambda>(k, _). equal_fold k name) (rev members) of
              None \<Rightarrow> Some old
            | Some (_, JString v) \<Rightarrow> Some v
            | Some (_, JNull) \<Rightarrow> Some old
            | Some _ \<Rightarrow> None))"

definition marshal_resolution_error :: "ResolutionError \<Rightarrow> json_value" where
  "marshal_resolution_error e = marshal_struct [(''inner'', JString (re_inner e)), (''remote'', JString (re_remote e))]"

definition ResolutionErrors_MarshalJSON :: "ResolutionErrors \<Rightarrow> json_value" where
  "ResolutionErrors_MarshalJSON r =
     JObject (map (\<lambda>(errType, es). (errType, JArray (map marshal_resolution_error es))) (sort_key fst r))"

definition read_resolution_error :: "json_value \<Rightarrow> ResolutionError option" where
  "read_resolution_error v =
     (case v of
        JObject members \<Rightarrow>
          (case (unmarshal_string ''inner'' members '''', unmarshal_string ''remote'' members '''') of
             (Some inner, Some remote) \<Rightarrow> Some \<lparr>re_inner = inner, re_remote = remote\<rparr>
           | _ \<Rightarrow> None)
      | JNull \<Rightarrow> Some \<lparr>re_inner = '''', re_remote = ''''\<rparr>
      | _ \<Rightarrow> None)"

definition read_error_list :: "json_value \<Rightarrow> ResolutionError list option" where
  "read_error_list v =
     (case v of
        JNull \<Rightarrow> Some []
      | JArray vs \<Rightarrow> (if list_all (\<lambda>v. read_resolution_error v \<noteq> None) vs
                    then Some (map (the \<circ> read_resolution_error) vs) else None)
      | _ \<Rightarrow> None)"

fun read_errors_loop :: "(string \<times> json_value) list \<Rightarrow> ResolutionErrors \<Rightarrow> ResolutionErrors option" where
  "read_errors_loop [] errs = Some errs"
| "read_errors_loop ((k, v) # kvs) errs =
     (case read_error_list v of None \<Rightarrow> None | Some es \<Rightarrow> read_errors_loop kvs (AList.update k es errs))"

definition ResolutionErrors_UnmarshalJSON :: "json_value \<Rightarrow> ResolutionErrors \<Rightarrow> go_error \<times> ResolutionErrors" where
  "ResolutionErrors_UnmarshalJSON b r =
     (case b of
        JObject kvs \<Rightarrow> (case read_errors_loop kvs [] of Some errs \<Rightarrow> (None, errs) | None \<Rightarrow> (Some ''invalid JSON'', r))
      | JNull \<Rightarrow> (None, [])
      | _ \<Rightarrow> (Some ''invalid JSON'', r))"

section \<open>References\<close>

abbreviation (input) ConsulServiceReference :: string where
  "ConsulServiceReference \<equiv> ''ConsulService''"
abbreviation (input) HTTPRouteReference :: string where
  "HTTPRouteReference \<equiv> ''HTTPRoute''"

record ConsulService =
  cs_Namespace :: string
  cs_Name :: string

record BackendReference =
  bf_HTTPRef :: "HTTPBackendRef option"
  bf_BackendRef :: "BackendRef option"

datatype backend_ref_arg = HTTPBackendRefArg HTTPBackendRef | BackendRefArg BackendRef

fun BackendReference_Set :: "BackendReference \<Rightarrow> backend_ref_arg \<Rightarrow> BackendReference" where
  "BackendReference_Set b (HTTPBackendRefArg ref) = b\<lparr>bf_HTTPRef := Some ref\<rparr>"
| "BackendReference_Set b (BackendRefArg ref) = b\<lparr>bf_BackendRef := Some ref\<rparr>"

record ResolvedReference =
  rf_Type :: string
  rf_Reference :: BackendReference
  rf_Consul :: "ConsulService option"

definition NewConsulServiceReference :: "ConsulService \<Rightarrow> ResolvedReference" where
  "NewConsulServiceReference consul =
     \<lparr>rf_Type = ConsulServiceReference, rf_Reference = \<lparr>bf_HTTPRef = None, bf_BackendRef = None\<rparr>, rf_Consul = Some consul\<rparr>"

text \<open>A rule is a pair of pointers: an address and what is stored there. Two rules are the same key of a map
  exactly when their addresses are the same.\<close>

record RouteRule =
  ru_HTTPRule :: "(nat \<times> GwHTTPRouteRule) option"
  ru_TCPRule :: "(nat \<times> GwTCPRouteRule) option"

datatype rule_arg = HTTPRulePointer nat GwHTTPRouteRule | TCPRulePointer nat GwTCPRouteRule | OtherRule

fun NewRouteRule :: "rule_arg \<Rightarrow> RouteRule" where
  "NewRouteRule (HTTPRulePointer p r) = \<lparr>ru_HTTPRule = Some (p, r), ru_TCPRule = None\<rparr>"
| "NewRouteRule (TCPRulePointer p r) = \<lparr>ru_HTTPRule = None, ru_TCPRule = Some (p, r)\<rparr>"
| "NewRouteRule OtherRule = \<lparr>ru_HTTPRule = None, ru_TCPRule = None\<rparr>"

type_synonym RouteRuleReferenceMap = "(RouteRule, ResolvedReference list) gomap"

definition References_Add :: "RouteRuleReferenceMap \<Rightarrow> RouteRule \<Rightarrow> ResolvedReference \<Rightarrow> RouteRuleReferenceMap" where
  "References_Add r rule resolved =
     (case map_of r rule of
        Some refs \<Rightarrow> AList.update rule (refs @ [resolved]) r
      | None \<Rightarrow> AList.update rule [resolved] r)"

section \<open>The resolver\<close>

record K8sService =
  ks_Name :: string
  ks_Namespace :: string

record MeshService =
  ms_Name :: string
  ms_Namespace :: string
  ms_SpecName :: string
  ms_Peer :: "string option"

record AgentService =
  as_Service :: string
  as_Namespace :: string

text \<open>What the resolver calls: the Kubernetes client, the catalog, the peerings, the mapper, and \<open>backoff.Retry\<close>.
  A failed call gives the text of its error. \<open>rv_Node\<close> takes the node, the filter and the namespace.\<close>

record 'w Resolver =
  rv_GetService :: "NamespacedName \<Rightarrow> 'w \<Rightarrow> (string + K8sService option) \<times> 'w"
  rv_GetMeshService :: "NamespacedName \<Rightarrow> 'w \<Rightarrow> (string + MeshService option) \<times> 'w"
  rv_Nodes :: "'w \<Rightarrow> (string + string list) \<times> 'w"
  rv_Namespaces :: "'w \<Rightarrow> (string + string list) \<times> 'w"
  rv_Node :: "string \<Rightarrow> string \<Rightarrow> string \<Rightarrow> 'w \<Rightarrow> (string + (string, AgentService) gomap option) \<times> 'w"
  rv_CatalogService :: "string \<Rightarrow> string \<Rightarrow> 'w \<Rightarrow> (string + AgentService list) \<times> 'w"
  rv_Peering :: "string \<Rightarrow> string \<Rightarrow> 'w \<Rightarrow> (string + string list option) \<times> 'w"
  rv_mapper :: "string \<Rightarrow> string"

text \<open>An error of the resolver: a \<open>ResolutionError\<close> or any other error.\<close>

datatype resolve_error = Resolution ResolutionError | OtherError string

type_synonym 'w attempt = "'w \<Rightarrow> (resolve_error + ResolvedReference) \<times> 'w"

type_synonym 'w Backoff = "nat \<Rightarrow> 'w attempt \<Rightarrow> 'w attempt"

text \<open>The verb \<open>%q\<close>, on the names of Kubernetes and Consul objects, which need no escapes.\<close>

definition quote :: "string \<Rightarrow> string" where
  "quote s = CHR 0x22 # s @ [CHR 0x22]"

definition conflict_error :: "string \<Rightarrow> string \<Rightarrow> AgentService \<Rightarrow> ResolutionError" where
  "conflict_error ns name s = NewConsulResolutionError
     (''must have a single service map to a kubernetes service, found - ('' @ quote ns @ '', '' @ quote name @ '') and ('' @
      quote (as_Namespace s) @ '', '' @ quote (as_Service s) @ '')'')"

fun validate_services_loop :: "AgentService list \<Rightarrow> string \<Rightarrow> string \<Rightarrow> ResolutionError + ConsulService" where
  "validate_services_loop [] name ns = Inr \<lparr>cs_Namespace = ns, cs_Name = name\<rparr>"
| "validate_services_loop (s # services) name ns =
     (let name' = (if name = '''' then as_Service s else name);
          ns' = (if ns = '''' then as_Namespace s else ns) in
      if as_Service s \<noteq> name' \<or> as_Namespace s \<noteq> ns' then Inl (conflict_error ns' name' s)
      else validate_services_loop services name' ns')"

definition validateAgentConsulReference :: "(string, AgentService) gomap \<Rightarrow> ResolutionError + ResolvedReference" where
  "validateAgentConsulReference services =
     map_sum id NewConsulServiceReference (validate_services_loop (map snd services) '''' '''')"

definition validateCatalogConsulReference :: "AgentService list \<Rightarrow> ResolutionError + ResolvedReference" where
  "validateCatalogConsulReference services =
     map_sum id NewConsulServiceReference (validate_services_loop services '''' '''')"

fun node_namespaces_loop ::
  "'w Resolver \<Rightarrow> string \<Rightarrow> string \<Rightarrow> string list \<Rightarrow> 'w \<Rightarrow> (resolve_error + ResolvedReference option) \<times> 'w" where
  "node_namespaces_loop rv flt node [] w = (Inr None, w)"
| "node_namespaces_loop rv flt node (ns # namespaces) w =
     (case rv_Node rv node flt ns w of
        (Inl err, w1) \<Rightarrow> (Inl (OtherError err), w1)
      | (Inr None, w1) \<Rightarrow> node_namespaces_loop rv flt node namespaces w1
      | (Inr (Some services), w1) \<Rightarrow>
          if length services = 0 then node_namespaces_loop rv flt node namespaces w1
          else (case validateAgentConsulReference services of
                  Inl err \<Rightarrow> (Inl (Resolution err), w1)
                | Inr resolved \<Rightarrow> (Inr (Some resolved), w1)))"

fun nodes_loop ::
  "'w Resolver \<Rightarrow> string \<Rightarrow> string list \<Rightarrow> string list \<Rightarrow> 'w \<Rightarrow> (resolve_error + ResolvedReference option) \<times> 'w" where
  "nodes_loop rv flt [] namespaces w = (Inr None, w)"
| "nodes_loop rv flt (node # nodes) namespaces w =
     (case node_namespaces_loop rv flt node namespaces w of
        (Inl err, w1) \<Rightarrow> (Inl err, w1)
      | (Inr (Some resolved), w1) \<Rightarrow> (Inr (Some resolved), w1)
      | (Inr None, w1) \<Rightarrow> nodes_loop rv flt nodes namespaces w1)"

definition service_filter :: "K8sService \<Rightarrow> string" where
  "service_filter service =
     ''Meta['' @ quote ''k8s-service-name'' @ ''] == '' @ quote (ks_Name service) @ '' and Meta['' @ quote ''k8s-namespace'' @
     ''] == '' @ quote (ks_Namespace service) @ '' and Kind != '' @ quote ''connect-proxy''"

definition findGlobalCatalogService ::
  "'w Resolver \<Rightarrow> K8sService \<Rightarrow> 'w \<Rightarrow> (resolve_error + ResolvedReference option) \<times> 'w" where
  "findGlobalCatalogService rv service w =
     (case rv_Nodes rv w of
        (Inl err, w1) \<Rightarrow> (Inl (OtherError err), w1)
      | (Inr nodes, w1) \<Rightarrow>
          (case rv_Namespaces rv w1 of
             (Inl err, w2) \<Rightarrow>
               if \<not> contains err ''Unexpected response code: 404'' then (Inl (OtherError err), w2)
               else nodes_loop rv (service_filter service) nodes [''''] w2
           | (Inr namespaces, w2) \<Rightarrow> nodes_loop rv (service_filter service) nodes ('''' # namespaces) w2))"

definition k8s_service_attempt :: "'w Resolver \<Rightarrow> NamespacedName \<Rightarrow> K8sService \<Rightarrow> 'w attempt" where
  "k8s_service_attempt rv name service w =
     (case findGlobalCatalogService rv service w of
        (Inl err, w1) \<Rightarrow> (Inl err, w1)
      | (Inr None, w1) \<Rightarrow>
          (Inl (Resolution (NewBackendNotFoundError (''consul service '' @ NamespacedName_String name @ '' not found''))), w1)
      | (Inr (Some resolved), w1) \<Rightarrow> (Inr resolved, w1))"

definition consulServiceForK8SService :: "'w Resolver \<Rightarrow> 'w Backoff \<Rightarrow> NamespacedName \<Rightarrow> 'w attempt" where
  "consulServiceForK8SService rv backoff name w =
     (case rv_GetService rv name w of
        (Inl err, w1) \<Rightarrow> (Inl (OtherError err), w1)
      | (Inr None, w1) \<Rightarrow>
          (Inl (Resolution (NewBackendNotFoundError (''service '' @ NamespacedName_String name @ '' not found''))), w1)
      | (Inr (Some service), w1) \<Rightarrow> backoff 30 (k8s_service_attempt rv name service) w1)"

definition findPeerService :: "'w Resolver \<Rightarrow> MeshService \<Rightarrow> 'w \<Rightarrow> (resolve_error + ResolvedReference option) \<times> 'w" where
  "findPeerService rv service w =
     (if ms_Peer service \<in> {None, Some ''''} then (Inl (Resolution (NewConsulResolutionError ''peer name expected but not provided'')), w)
      else
        (let consulNamespace = rv_mapper rv (ms_Namespace service);
             consulName = ms_SpecName service;
             consulPeer = the (ms_Peer service) in
         case rv_Peering rv consulPeer consulNamespace w of
           (Inl err, w1) \<Rightarrow> (Inl (OtherError err), w1)
         | (Inr None, w1) \<Rightarrow> (Inl (Resolution (NewConsulResolutionError (''no peer '' @ quote consulPeer @ '' found''))), w1)
         | (Inr (Some imported), w1) \<Rightarrow>
             if consulName \<in> set imported
             then (Inr (Some (NewConsulServiceReference \<lparr>cs_Namespace = consulNamespace, cs_Name = consulName\<rparr>)), w1)
             else (Inl (Resolution (NewConsulResolutionError
                     (''no service '' @ consulName @ '' found from peer '' @ consulPeer))), w1)))"

definition findCatalogService :: "'w Resolver \<Rightarrow> MeshService \<Rightarrow> 'w \<Rightarrow> (resolve_error + ResolvedReference option) \<times> 'w" where
  "findCatalogService rv service w =
     (let consulNamespace = rv_mapper rv (ms_Namespace service);
          consulName = ms_SpecName service in
      case rv_CatalogService rv consulName consulNamespace w of
        (Inl err, w1) \<Rightarrow> (Inl (OtherError err), w1)
      | (Inr services, w1) \<Rightarrow>
          if length services = 0
          then (Inl (Resolution (NewBackendNotFoundError
                  (''consul service ('' @ consulNamespace @ '', '' @ consulName @ '') not found''))), w1)
          else (case validateCatalogConsulReference services of
                  Inl err \<Rightarrow> (Inl (Resolution err), w1)
                | Inr resolved \<Rightarrow> (Inr (Some resolved), w1)))"

definition mesh_service_attempt :: "'w Resolver \<Rightarrow> NamespacedName \<Rightarrow> MeshService \<Rightarrow> 'w attempt" where
  "mesh_service_attempt rv name service w =
     (if ms_Peer service \<notin> {None, Some ''''} then
        (case findPeerService rv service w of
           (Inl err, w1) \<Rightarrow> (Inl err, w1)
         | (Inr None, w1) \<Rightarrow>
             (Inl (Resolution (NewConsulResolutionError (''imported consul service '' @ NamespacedName_String name @
                '' from peer '' @ the (ms_Peer service) @ '' not found''))), w1)
         | (Inr (Some resolved), w1) \<Rightarrow> (Inr resolved, w1))
      else
        (case findCatalogService rv service w of
           (Inl err, w1) \<Rightarrow> (Inl err, w1)
         | (Inr None, w1) \<Rightarrow>
             (Inl (Resolution (NewConsulResolutionError (''consul service '' @ NamespacedName_String name @ '' not found''))), w1)
         | (Inr (Some resolved), w1) \<Rightarrow> (Inr resolved, w1)))"

definition consulServiceForMeshService :: "'w Resolver \<Rightarrow> 'w Backoff \<Rightarrow> NamespacedName \<Rightarrow> 'w attempt" where
  "consulServiceForMeshService rv backoff name w =
     (case rv_GetMeshService rv name w of
        (Inl err, w1) \<Rightarrow> (Inl (OtherError err), w1)
      | (Inr None, w1) \<Rightarrow>
          (Inl (Resolution (NewBackendNotFoundError
             (''kubernetes mesh service object '' @ NamespacedName_String name @ '' not found''))), w1)
      | (Inr (Some service), w1) \<Rightarrow> backoff 30 (mesh_service_attempt rv name service) w1)"

definition Resolve :: "'w Resolver \<Rightarrow> 'w Backoff \<Rightarrow> string \<Rightarrow> BackendObjectReference \<Rightarrow> 'w attempt" where
  "Resolve rv backoff ns ref w =
     (let group = (case bo_Group ref of None \<Rightarrow> '''' | Some g \<Rightarrow> g);
          kind = (case bo_Kind ref of None \<Rightarrow> ''Service'' | Some k \<Rightarrow> k);
          ns' = (case bo_Namespace ref of None \<Rightarrow> ns | Some n \<Rightarrow> n);
          name = \<lparr>nn_Namespace = ns', nn_Name = bo_Name ref\<rparr> in
      if group = '''' \<and> kind = ''Service'' then
        (if bo_Port ref = None then (Inl (Resolution (NewK8sResolutionError ''service port must not be empty'')), w)
         else consulServiceForK8SService rv backoff name w)
      else if group = ''api-gateway.consul.hashicorp.com'' \<and> kind = ''MeshService'' then
        consulServiceForMeshService rv backoff name w
      else (Inl (Resolution (NewInvalidKindError (''unsupported reference kind '' @ kind))), w))"


section \<open>What the errors say\<close>

text \<open>The errors as they arise: a map from the type of an error to a nonempty list of errors of that type.\<close>

definition errors_ok :: "ResolutionErrors \<Rightarrow> bool" where
  "errors_ok r \<longleftrightarrow> gomap_ok r \<and> list_all (\<lambda>(t, es). es \<noteq> [] \<and> list_all (\<lambda>e. re_remote e = t) es) r"

definition errors_of :: "ResolutionErrors \<Rightarrow> ResolutionError set" where
  "errors_of r = {e. \<exists>t es. map_of r t = Some es \<and> e \<in> set es}"

lemma errors_ok_New: "errors_ok NewResolutionErrors"
  by (simp add: errors_ok_def NewResolutionErrors_def)

lemma errors_ok_Add:
  assumes "errors_ok r"
  shows "errors_ok (ResolutionErrors_Add r err)"
proof -
  have "list_all (\<lambda>e. re_remote e = t) es \<and> es \<noteq> []" if "(t, es) \<in> set r" for t es
    using assms that by (auto simp: errors_ok_def list_all_iff)
  then have "list_all (\<lambda>(t, es). es \<noteq> [] \<and> list_all (\<lambda>e. re_remote e = t) es) (ResolutionErrors_Add r err)"
    using set_update_subset [of "re_remote err" _ r]
    by (fastforce simp: ResolutionErrors_Add_def list_all_iff dest: map_of_SomeD split: option.splits)
  then show ?thesis
    using assms by (simp add: errors_ok_def ResolutionErrors_Add_def)
qed

lemma errors_of_Add: "errors_of (ResolutionErrors_Add r err) = insert err (errors_of r)"
proof (rule set_eqI)
  fix e
  let ?k = "re_remote err"
  let ?rest = "\<exists>t es. t \<noteq> ?k \<and> map_of r t = Some es \<and> e \<in> set es"
  define old where "old = (case map_of r ?k of None \<Rightarrow> [] | Some es \<Rightarrow> es)"
  have "e \<in> errors_of r \<longleftrightarrow> e \<in> set old \<or> ?rest"
    unfolding errors_of_def old_def mem_Collect_eq
    by (cases "map_of r ?k") (simp_all, metis option.distinct(1), metis option.inject)
  moreover have "e \<in> errors_of (ResolutionErrors_Add r err) \<longleftrightarrow> e \<in> set (old @ [err]) \<or> ?rest"
    unfolding errors_of_def ResolutionErrors_Add_def old_def [symmetric] lookup_update by auto
  ultimately show "e \<in> errors_of (ResolutionErrors_Add r err) \<longleftrightarrow> e \<in> insert err (errors_of r)"
    by auto
qed

lemma errors_types:
  assumes "errors_ok r"
  shows "re_remote ` errors_of r = keys r"
proof (rule set_eqI, rule iffI)
  have ok: "gomap_ok r" and typed: "(t, es) \<in> set r \<Longrightarrow> es \<noteq> [] \<and> list_all (\<lambda>e. re_remote e = t) es" for t es
    using assms by (auto simp: errors_ok_def list_all_iff)
  show "t \<in> keys r" if t: "t \<in> re_remote ` errors_of r" for t
  proof -
    obtain e u es where "map_of r u = Some es" "e \<in> set es" "t = re_remote e"
      using t by (auto simp: errors_of_def)
    then show ?thesis
      using typed [of u es] map_of_SomeD [of r u es] lookup_keys [of r u es] by (auto simp: list_all_iff)
  qed
  show "t \<in> re_remote ` errors_of r" if t: "t \<in> keys r" for t
  proof -
    obtain es where es: "map_of r t = Some es"
      using keys_lookup [OF t] by blast
    then have "hd es \<in> set es" and "re_remote (hd es) = t"
      using typed [OF map_of_SomeD] by (auto simp: list_all_iff)
    then have "hd es \<in> errors_of r"
      unfolding errors_of_def using es by blast
    then show ?thesis
      using \<open>re_remote (hd es) = t\<close> by blast
  qed
qed

text \<open>C28: the summary of a collection of errors names the one type that all errors have, the generic type when there are
  several types, and no error exactly when there is none; adding an error keeps the collection well formed and adds
  nothing else.\<close>

theorem Flatten_spec:
  assumes "errors_ok r"
  shows "errors_ok (ResolutionErrors_Add r err) \<and> errors_of (ResolutionErrors_Add r err) = insert err (errors_of r) \<and>
    (case Flatten r of (t, e) \<Rightarrow> (e = None \<longleftrightarrow> errors_of r = {}) \<and>
       t = (if errors_of r = {} then NoResolutionErrorType
            else if is_singleton (re_remote ` errors_of r) then the_elem (re_remote ` errors_of r)
            else GenericResolutionErrorType))"
proof -
  have ok: "gomap_ok r"
    using assms by (simp add: errors_ok_def)
  have types: "re_remote ` errors_of r = keys r"
    by (rule errors_types [OF assms])
  then have empty: "errors_of r = {} \<longleftrightarrow> r = []"
    by (metis empty_is_image set_empty)
  have "case Flatten r of (t, e) \<Rightarrow> (e = None \<longleftrightarrow> r = []) \<and>
       t = (if r = [] then NoResolutionErrorType
            else if is_singleton (keys r) then the_elem (keys r) else GenericResolutionErrorType)"
  proof (cases r rule: remdups_adj.cases)
    case 1
    then show ?thesis
      by (simp add: Flatten_def ResolutionErrors_Empty_def)
  next
    case (2 x)
    then show ?thesis
      by (cases x) (simp add: Flatten_def ResolutionErrors_Empty_def)
  next
    case (3 x y xs)
    then have "fst x \<noteq> fst y"
      using ok by (auto simp: gomap_ok_def)
    then have "\<not> is_singleton (keys r)"
      by (auto simp: 3 is_singleton_def)
    then show ?thesis
      by (simp add: Flatten_def ResolutionErrors_Empty_def 3)
  qed
  then show ?thesis
    using errors_ok_Add [OF assms] errors_of_Add unfolding types empty by (intro conjI)
qed

theorem Flatten_spec_witness:
  "errors_of (ResolutionErrors_Add (ResolutionErrors_Add NewResolutionErrors (NewInvalidKindError ''a'')) (NewConsulResolutionError ''b'')) =
     {NewConsulResolutionError ''b'', NewInvalidKindError ''a''}"
  using Flatten_spec [OF errors_ok_Add [OF errors_ok_New], of "NewInvalidKindError ''a''" "NewConsulResolutionError ''b''"]
    Flatten_spec [OF errors_ok_New, of "NewInvalidKindError ''a''"]
  by (simp add: errors_of_def NewResolutionErrors_def)

lemma read_marshalled_error: "read_resolution_error (marshal_resolution_error e) = Some \<lparr>re_inner = '''', re_remote = ''''\<rparr>"
  by (simp add: marshal_resolution_error_def marshal_struct_def read_resolution_error_def unmarshal_string_def exported_def less_eq_char_def)

lemma read_marshalled_errors:
  "read_errors_loop (map (\<lambda>(errType, es). (errType, JArray (map marshal_resolution_error es))) r) errs =
     Some (put_all errs (map (\<lambda>(errType, es). (errType, replicate (length es) \<lparr>re_inner = '''', re_remote = ''''\<rparr>)) r))"
  by (induction r arbitrary: errs)
    (auto simp: read_error_list_def read_marshalled_error list_all_iff comp_def map_replicate_const)

lemma length_by_keys: "gomap_ok m \<Longrightarrow> length m = card (keys m)"
  using distinct_card [of "map fst m"] by (simp add: gomap_ok_def)

lemma Flatten_type_cong:
  assumes "gomap_ok r" and "gomap_ok r'" and "\<And>t. map_option length (map_of r' t) = map_option length (map_of r t)"
  shows "fst (Flatten r') = fst (Flatten r)"
proof -
  have "t \<in> keys r' \<longleftrightarrow> t \<in> keys r" for t
    using assms(3) [of t] by (simp add: map_of_eq_None_iff flip: not_None_eq) (metis map_of_eq_None_iff option.map_disc_iff)
  then have keys: "keys r' = keys r"
    by blast
  then have len: "length r' = length r"
    by (simp add: length_by_keys assms(1,2))
  have generic: "length (case map_of r' t of None \<Rightarrow> [] | Some es \<Rightarrow> es) = length (case map_of r t of None \<Rightarrow> [] | Some es \<Rightarrow> es)" for t
    using assms(3) [of t] by (cases "map_of r t"; cases "map_of r' t") simp_all
  show ?thesis
  proof (cases "\<exists>t es. r = [(t, es)]")
    case True
    then obtain t es where r: "r = [(t, es)]" by blast
    obtain t' es' where r': "r' = [(t', es')]"
      using len r by (auto simp: length_Suc_conv)
    then have "t' = t"
      using keys by (simp add: r)
    then show ?thesis
      using generic [of GenericResolutionErrorType] by (simp add: Flatten_def ResolutionErrors_Empty_def r r')
  next
    case False
    then show ?thesis
      using len by (cases r rule: remdups_adj.cases) (auto simp: Flatten_def ResolutionErrors_Empty_def)
  qed
qed

text \<open>C38: the texts of the errors do not survive being stored. Whatever errors were collected, reading back what was
  written gives as many errors of each type, and so the condition a route reports, but the message and the type inside
  every single error are empty: neither field of the struct is exported.\<close>

theorem stored_errors_lose_messages:
  assumes "gomap_ok r"
  shows "\<exists>r'. ResolutionErrors_UnmarshalJSON (ResolutionErrors_MarshalJSON r) r0 = (None, r') \<and>
    (\<forall>t. map_of r' t = map_option (\<lambda>es. replicate (length es) \<lparr>re_inner = '''', re_remote = ''''\<rparr>) (map_of r t)) \<and>
    fst (Flatten r') = fst (Flatten r)"
proof -
  let ?blank = "\<lambda>(t, es). (t, replicate (length es) \<lparr>re_inner = '''', re_remote = ''''\<rparr>)"
  let ?r' = "put_all [] (map ?blank (sort_key fst r))"
  have sorted: "gomap_ok (sort_key fst r)"
    using assms gomap_ok_mset [of "sort_key fst r" r] by simp
  then have ok: "gomap_ok (map ?blank (sort_key fst r))"
    by (simp add: gomap_ok_def comp_def case_prod_unfold)
  have "map_of (sort_key fst r) t = Some v \<longleftrightarrow> map_of r t = Some v" for t v
    unfolding entry_lookup [OF assms, symmetric] entry_lookup [OF sorted, symmetric] by simp
  then have "map_of (sort_key fst r) t = map_of r t" for t
    by (metis not_Some_eq)
  then have look: "map_of ?r' t = map_option (\<lambda>es. replicate (length es) \<lparr>re_inner = '''', re_remote = ''''\<rparr>) (map_of r t)" for t
    by (simp add: lookup_put_all [OF ok] map_of_map split: option.split)
  moreover have "fst (Flatten ?r') = fst (Flatten r)"
    by (rule Flatten_type_cong [OF assms]) (simp_all add: look option.map_comp comp_def)
  moreover have "ResolutionErrors_UnmarshalJSON (ResolutionErrors_MarshalJSON r) r0 = (None, ?r')"
    by (simp add: ResolutionErrors_UnmarshalJSON_def ResolutionErrors_MarshalJSON_def read_marshalled_errors)
  ultimately show ?thesis
    by blast
qed

theorem stored_errors_lose_messages_witness:
  "\<exists>r'. ResolutionErrors_UnmarshalJSON (ResolutionErrors_MarshalJSON
       (ResolutionErrors_Add NewResolutionErrors (NewConsulResolutionError ''no service''))) NewResolutionErrors = (None, r') \<and>
     map_of r' ConsulServiceResolutionErrorType = Some [\<lparr>re_inner = '''', re_remote = ''''\<rparr>]"
proof -
  have "gomap_ok (ResolutionErrors_Add NewResolutionErrors (NewConsulResolutionError ''no service''))"
    by (simp add: ResolutionErrors_Add_def NewResolutionErrors_def gomap_ok_def)
  from stored_errors_lose_messages [OF this, of NewResolutionErrors] obtain r' where
    "ResolutionErrors_UnmarshalJSON (ResolutionErrors_MarshalJSON
       (ResolutionErrors_Add NewResolutionErrors (NewConsulResolutionError ''no service''))) NewResolutionErrors = (None, r')"
    "map_of r' ConsulServiceResolutionErrorType = Some [\<lparr>re_inner = '''', re_remote = ''''\<rparr>]"
    by (auto simp: ResolutionErrors_Add_def NewResolutionErrors_def NewConsulResolutionError_def)
  then show ?thesis
    by (intro exI conjI)
qed

section \<open>What is resolved\<close>

text \<open>\<open>backoff.Retry\<close> returns what one of its attempts returned.\<close>

definition backoff_laws :: "'w Backoff \<Rightarrow> bool" where
  "backoff_laws backoff \<longleftrightarrow> (\<forall>n attempt w. \<exists>w0. backoff n attempt w = attempt w0)"

text \<open>All listed services have the name and the namespace of the resolved one, where they have any.\<close>

definition agrees :: "ConsulService \<Rightarrow> AgentService list \<Rightarrow> bool" where
  "agrees c services \<longleftrightarrow>
     list_all (\<lambda>s. as_Service s \<in> {'''', cs_Name c} \<and> as_Namespace s \<in> {'''', cs_Namespace c}) services \<and>
     cs_Name c \<in> as_Service ` set services \<and> cs_Namespace c \<in> as_Namespace ` set services"

lemma validate_services_loop_Inr:
  assumes "validate_services_loop services name ns = Inr c"
  shows "list_all (\<lambda>s. as_Service s \<in> {'''', cs_Name c} \<and> as_Namespace s \<in> {'''', cs_Namespace c}) services \<and>
    (if name = '''' \<and> services \<noteq> [] then cs_Name c \<in> as_Service ` set services else cs_Name c = name) \<and>
    (if ns = '''' \<and> services \<noteq> [] then cs_Namespace c \<in> as_Namespace ` set services else cs_Namespace c = ns)"
  using assms
proof (induction services arbitrary: name ns)
  case (Cons s services)
  define name' where "name' = (if name = '''' then as_Service s else name)"
  define ns' where "ns' = (if ns = '''' then as_Namespace s else ns)"
  have eq: "as_Service s = name'" "as_Namespace s = ns'" and rest: "validate_services_loop services name' ns' = Inr c"
    using Cons.prems by (auto simp: Let_def name'_def [symmetric] ns'_def [symmetric] split: if_splits)
  have old: "name \<noteq> '''' \<Longrightarrow> name' = name" "ns \<noteq> '''' \<Longrightarrow> ns' = ns"
    by (simp_all add: name'_def ns'_def)
  note IH = Cons.IH [OF rest]
  have "as_Service s \<in> {'''', cs_Name c} \<and> as_Namespace s \<in> {'''', cs_Namespace c}"
    unfolding eq using IH by (auto split: if_splits)
  moreover have "if name = '''' then cs_Name c \<in> as_Service ` set (s # services) else cs_Name c = name"
    using IH eq(1) old(1) by (auto split: if_splits)
  moreover have "if ns = '''' then cs_Namespace c \<in> as_Namespace ` set (s # services) else cs_Namespace c = ns"
    using IH eq(2) old(2) by (auto split: if_splits)
  ultimately show ?case
    using IH by simp
qed auto

lemma validate_agrees:
  "validate_services_loop services '''' '''' = Inr c \<Longrightarrow> services \<noteq> [] \<Longrightarrow> agrees c services"
  using validate_services_loop_Inr [of services "''''" "''''" c] by (simp add: agrees_def)

lemma map_sum_Inr: "map_sum id f x = Inr y \<longleftrightarrow> (\<exists>z. x = Inr z \<and> y = f z)"
  by (cases x) auto

text \<open>Where a resolved reference comes from: the services of a node that pass the filter, the services of the
  catalog with the mesh service's name, or the services imported from its peer.\<close>

definition from_node :: "'w Resolver \<Rightarrow> string \<Rightarrow> ResolvedReference \<Rightarrow> bool" where
  "from_node rv flt r \<longleftrightarrow> (\<exists>node ns w0 w1 services c. rv_Node rv node flt ns w0 = (Inr (Some services), w1) \<and>
     agrees c (map snd services) \<and> r = NewConsulServiceReference c)"

definition from_catalog :: "'w Resolver \<Rightarrow> MeshService \<Rightarrow> ResolvedReference \<Rightarrow> bool" where
  "from_catalog rv service r \<longleftrightarrow> (\<exists>w0 w1 services c.
     rv_CatalogService rv (ms_SpecName service) (rv_mapper rv (ms_Namespace service)) w0 = (Inr services, w1) \<and>
     agrees c services \<and> r = NewConsulServiceReference c)"

definition from_peer :: "'w Resolver \<Rightarrow> MeshService \<Rightarrow> ResolvedReference \<Rightarrow> bool" where
  "from_peer rv service r \<longleftrightarrow> (\<exists>peer w0 w1 imported. ms_Peer service = Some peer \<and> peer \<noteq> '''' \<and>
     rv_Peering rv peer (rv_mapper rv (ms_Namespace service)) w0 = (Inr (Some imported), w1) \<and>
     ms_SpecName service \<in> set imported \<and>
     r = NewConsulServiceReference \<lparr>cs_Namespace = rv_mapper rv (ms_Namespace service), cs_Name = ms_SpecName service\<rparr>)"

lemma node_namespaces_loop_Some:
  "node_namespaces_loop rv flt node namespaces w = (Inr (Some r), w') \<Longrightarrow> from_node rv flt r"
proof (induction rv flt node namespaces w rule: node_namespaces_loop.induct)
  case (2 rv flt node ns namespaces w)
  obtain x w1 where x: "rv_Node rv node flt ns w = (x, w1)" by (rule prod.exhaust)
  consider (bad) err where "x = Inl err" | (none) "x = Inr None" | (empty) "x = Inr (Some [])"
    | (some) services where "x = Inr (Some services)" "services \<noteq> []"
    by (metis not_Some_eq sum.exhaust)
  then show ?case
  proof cases
    case some
    then obtain c where c: "validate_services_loop (map snd services) '''' '''' = Inr c" "r = NewConsulServiceReference c"
      using "2.prems" x by (auto simp: validateAgentConsulReference_def map_sum_Inr split: sum.splits)
    then have "agrees c (map snd services)"
      using validate_agrees some by simp
    then show ?thesis
      unfolding from_node_def using x some c by blast
  qed (use "2.prems" "2.IH" x in auto)
qed simp

lemma nodes_loop_Some: "nodes_loop rv flt nodes namespaces w = (Inr (Some r), w') \<Longrightarrow> from_node rv flt r"
proof (induction rv flt nodes namespaces w rule: nodes_loop.induct)
  case (2 rv flt node nodes namespaces w)
  obtain x w1 where x: "node_namespaces_loop rv flt node namespaces w = (x, w1)" by (rule prod.exhaust)
  consider (bad) err where "x = Inl err" | (none) "x = Inr None" | (some) r' where "x = Inr (Some r')"
    by (metis not_Some_eq sum.exhaust)
  then show ?case
    by cases (use "2.prems" "2.IH" x node_namespaces_loop_Some [of rv flt node namespaces w r] in auto)
qed simp

lemma findGlobalCatalogService_Some:
  "findGlobalCatalogService rv service w = (Inr (Some r), w') \<Longrightarrow> from_node rv (service_filter service) r"
  by (auto simp: findGlobalCatalogService_def split: prod.splits sum.splits if_splits dest!: nodes_loop_Some)

lemma findCatalogService_Some:
  assumes "findCatalogService rv service w = (Inr (Some r), w')"
  shows "from_catalog rv service r"
proof -
  obtain x w1 where x: "rv_CatalogService rv (ms_SpecName service) (rv_mapper rv (ms_Namespace service)) w = (x, w1)"
    by (rule prod.exhaust)
  obtain services where "x = Inr services" "services \<noteq> []"
    using assms x by (cases x) (auto simp: findCatalogService_def Let_def split: if_splits)
  moreover from this obtain c where "validate_services_loop services '''' '''' = Inr c" "r = NewConsulServiceReference c"
    using assms x
    by (auto simp: findCatalogService_def Let_def validateCatalogConsulReference_def map_sum_Inr split: sum.splits)
  ultimately show ?thesis
    unfolding from_catalog_def using x validate_agrees by blast
qed

lemma findPeerService_Some:
  assumes "findPeerService rv service w = (Inr (Some r), w')"
  shows "from_peer rv service r"
proof -
  obtain peer where peer: "ms_Peer service = Some peer" "peer \<noteq> ''''"
    using assms by (cases "ms_Peer service") (auto simp: findPeerService_def split: if_splits)
  obtain x w1 where x: "rv_Peering rv peer (rv_mapper rv (ms_Namespace service)) w = (x, w1)"
    by (rule prod.exhaust)
  obtain imported where "x = Inr (Some imported)"
    using assms x peer by (cases x) (auto simp: findPeerService_def Let_def split: option.splits)
  then show ?thesis
    using assms x peer unfolding from_peer_def by (auto simp: findPeerService_def Let_def split: if_splits)
qed

lemma attempt_result:
  assumes "backoff_laws backoff" and "backoff n attempt w = (Inr r, w')"
    and "\<And>w0 w1. attempt w0 = (Inr r, w1) \<Longrightarrow> P"
  shows P
proof -
  obtain w0 where "backoff n attempt w = attempt w0"
    using assms(1) [unfolded backoff_laws_def, rule_format, of n attempt w] by (elim exE)
  then have "attempt w0 = (Inr r, w')"
    using assms(2) by simp
  then show P
    by (rule assms(3))
qed

lemma k8s_service_sound:
  assumes "backoff_laws backoff" and "consulServiceForK8SService rv backoff name w = (Inr r, w')"
  shows "\<exists>service w1. rv_GetService rv name w = (Inr (Some service), w1) \<and> from_node rv (service_filter service) r"
proof -
  obtain x w1 where x: "rv_GetService rv name w = (x, w1)" by (rule prod.exhaust)
  obtain service where s: "x = Inr (Some service)" and run: "backoff 30 (k8s_service_attempt rv name service) w1 = (Inr r, w')"
    using assms(2) x by (cases x) (auto simp: consulServiceForK8SService_def split: option.splits)
  have "from_node rv (service_filter service) r"
    by (rule attempt_result [OF assms(1) run])
      (auto simp: k8s_service_attempt_def split: prod.splits sum.splits option.splits dest: findGlobalCatalogService_Some)
  then show ?thesis
    using x s by blast
qed

lemma mesh_attempt_sound:
  assumes "mesh_service_attempt rv name service w = (Inr r, w')"
  shows "from_catalog rv service r \<or> from_peer rv service r"
proof (cases "ms_Peer service \<notin> {None, Some ''''}")
  case True
  have "findPeerService rv service w = (Inr (Some r), w')"
    using assms unfolding mesh_service_attempt_def if_P [OF True] by (simp split: prod.split_asm sum.split_asm option.split_asm)
  then show ?thesis
    by (rule disjI2 [OF findPeerService_Some])
next
  case False
  have "findCatalogService rv service w = (Inr (Some r), w')"
    using assms unfolding mesh_service_attempt_def if_not_P [OF False] by (simp split: prod.split_asm sum.split_asm option.split_asm)
  then show ?thesis
    by (rule disjI1 [OF findCatalogService_Some])
qed

lemma mesh_service_sound:
  assumes "backoff_laws backoff" and "consulServiceForMeshService rv backoff name w = (Inr r, w')"
  shows "\<exists>service w1. rv_GetMeshService rv name w = (Inr (Some service), w1) \<and> (from_catalog rv service r \<or> from_peer rv service r)"
proof -
  obtain x w1 where x: "rv_GetMeshService rv name w = (x, w1)" by (rule prod.exhaust)
  obtain service where s: "x = Inr (Some service)" and run: "backoff 30 (mesh_service_attempt rv name service) w1 = (Inr r, w')"
    using assms(2) x that by (cases x) (simp_all add: consulServiceForMeshService_def split: option.split_asm)
  have "from_catalog rv service r \<or> from_peer rv service r"
    by (rule attempt_result [OF assms(1) run]) (rule mesh_attempt_sound)
  then show ?thesis
    using x s by blast
qed

text \<open>C22: a reference is resolved only to a service that Consul listed. A Kubernetes service needs a port, and resolves
  to the one service that a node of the catalog lists for it; a mesh service resolves to the service of its name in
  the mapped namespace, or to a service imported from its peer; every other kind is refused.\<close>

theorem Resolve_sound:
  assumes "backoff_laws backoff" and "Resolve rv backoff ns ref w = (Inr r, w')"
  shows "(bo_Group ref \<in> {None, Some ''''} \<and> bo_Kind ref \<in> {None, Some ''Service''} \<and> bo_Port ref \<noteq> None \<and>
      (\<exists>service w1. rv_GetService rv \<lparr>nn_Namespace = (case bo_Namespace ref of None \<Rightarrow> ns | Some n \<Rightarrow> n), nn_Name = bo_Name ref\<rparr> w =
         (Inr (Some service), w1) \<and> from_node rv (service_filter service) r)) \<or>
    (bo_Group ref = Some ''api-gateway.consul.hashicorp.com'' \<and> bo_Kind ref = Some ''MeshService'' \<and>
      (\<exists>service w1. rv_GetMeshService rv \<lparr>nn_Namespace = (case bo_Namespace ref of None \<Rightarrow> ns | Some n \<Rightarrow> n), nn_Name = bo_Name ref\<rparr> w =
         (Inr (Some service), w1) \<and> (from_catalog rv service r \<or> from_peer rv service r)))"
proof -
  let ?name = "\<lparr>nn_Namespace = (case bo_Namespace ref of None \<Rightarrow> ns | Some n \<Rightarrow> n), nn_Name = bo_Name ref\<rparr>"
  define group where "group = (case bo_Group ref of None \<Rightarrow> '''' | Some g \<Rightarrow> g)"
  define kind where "kind = (case bo_Kind ref of None \<Rightarrow> ''Service'' | Some k \<Rightarrow> k)"
  define k8s where "k8s \<longleftrightarrow> group = '''' \<and> kind = ''Service''"
  define mesh where "mesh \<longleftrightarrow> group = ''api-gateway.consul.hashicorp.com'' \<and> kind = ''MeshService''"
  have res: "(if k8s then
        (if bo_Port ref = None then (Inl (Resolution (NewK8sResolutionError ''service port must not be empty'')), w)
         else consulServiceForK8SService rv backoff ?name w)
      else if mesh then consulServiceForMeshService rv backoff ?name w
      else (Inl (Resolution (NewInvalidKindError (''unsupported reference kind '' @ kind))), w)) = (Inr r, w')"
    using assms(2) unfolding Resolve_def Let_def group_def kind_def k8s_def mesh_def .
  show ?thesis
  proof (cases k8s)
    case True
    then have "bo_Port ref \<noteq> None" and run: "consulServiceForK8SService rv backoff ?name w = (Inr r, w')"
      using res by (simp_all split: if_split_asm)
    moreover have "bo_Group ref \<in> {None, Some ''''}"
      using True by (cases "bo_Group ref") (simp_all add: k8s_def group_def)
    moreover have "bo_Kind ref \<in> {None, Some ''Service''}"
      using True by (cases "bo_Kind ref") (simp_all add: k8s_def kind_def)
    ultimately show ?thesis
      using k8s_service_sound [OF assms(1) run] by blast
  next
    case False
    then have m: mesh and run: "consulServiceForMeshService rv backoff ?name w = (Inr r, w')"
      using res by (simp_all split: if_split_asm)
    have "bo_Group ref = Some ''api-gateway.consul.hashicorp.com''"
      using m by (cases "bo_Group ref") (simp_all add: mesh_def group_def)
    moreover have "bo_Kind ref = Some ''MeshService''"
      using m by (cases "bo_Kind ref") (simp_all add: mesh_def kind_def)
    ultimately show ?thesis
      using mesh_service_sound [OF assms(1) run] by blast
  qed
qed

text \<open>A catalog with one node that lists one service.\<close>

definition small_resolver :: "unit Resolver" where
  "small_resolver =
     \<lparr>rv_GetService = (\<lambda>n w. (Inr (Some \<lparr>ks_Name = nn_Name n, ks_Namespace = nn_Namespace n\<rparr>), w)),
      rv_GetMeshService = (\<lambda>n w. (Inr None, w)), rv_Nodes = (\<lambda>w. (Inr [''node''], w)),
      rv_Namespaces = (\<lambda>w. (Inl ''Unexpected response code: 404'', w)),
      rv_Node = (\<lambda>node flt ns w. (Inr (Some [(''id'', \<lparr>as_Service = ''web'', as_Namespace = ''''\<rparr>)]), w)),
      rv_CatalogService = (\<lambda>n ns w. (Inr [], w)), rv_Peering = (\<lambda>p ns w. (Inr None, w)), rv_mapper = id\<rparr>"

definition small_backend :: BackendObjectReference where
  "small_backend = \<lparr>bo_Group = None, bo_Kind = None, bo_Name = ''svc'', bo_Namespace = None, bo_Port = Some 80\<rparr>"

theorem Resolve_sound_witness:
  "Resolve small_resolver (\<lambda>n attempt. attempt) ''ns'' small_backend () =
     (Inr (NewConsulServiceReference \<lparr>cs_Namespace = '''', cs_Name = ''web''\<rparr>), ()) \<and>
   (\<exists>service. from_node small_resolver (service_filter service) (NewConsulServiceReference \<lparr>cs_Namespace = '''', cs_Name = ''web''\<rparr>))"
proof -
  have run: "Resolve small_resolver (\<lambda>n attempt. attempt) ''ns'' small_backend () =
     (Inr (NewConsulServiceReference \<lparr>cs_Namespace = '''', cs_Name = ''web''\<rparr>), ())"
    by (simp add: Resolve_def small_resolver_def small_backend_def consulServiceForK8SService_def findGlobalCatalogService_def
        k8s_service_attempt_def validateAgentConsulReference_def has_prefix_def)
  moreover have "backoff_laws (\<lambda>n attempt. attempt)"
    by (auto simp: backoff_laws_def)
  ultimately show ?thesis
    using Resolve_sound [of "\<lambda>n attempt. attempt" small_resolver "''ns''" small_backend "()"] by (auto simp: small_backend_def)
qed

end
