(* ===== verification/K8s_Objects.thy ===== *)
theory K8s_Objects
  imports Gateway_API
begin

text \<open>
  The Kubernetes objects of a deployed gateway and the custom resources of \<open>pkg/apis/v1alpha1/types.go\<close>: the class
  configuration, the role, the role binding and the service account it asks for, and the three merges that bring an
  existing object up to date. The lemmas show that a merge makes an object equal to the wanted one in what the
  controller manages, keeps the rest, and changes nothing the second time.
\<close>

section \<open>Objects\<close>

record LoadBalancerIngress =
  lbi_IP :: string
  lbi_Hostname :: string

record ServicePort =
  sp_Name :: string
  sp_Protocol :: string
  sp_Port :: int

record Service =
  sv_Meta :: ObjectMeta
  sv_Selector :: "(string, string) gomap"
  sv_Type :: string
  sv_Ports :: "ServicePort list"
  sv_ClusterIP :: string
  sv_Ingress :: "LoadBalancerIngress list"

record Secret =
  sec_Meta :: ObjectMeta
  sec_Data :: "(string, string) gomap"

record Toleration =
  tol_Key :: string
  tol_Operator :: string
  tol_Value :: string
  tol_Effect :: string

record ContainerPort =
  cp_Name :: string
  cp_Protocol :: string
  cp_ContainerPort :: int
  cp_HostPort :: int

record EnvVar =
  ev_Name :: string
  ev_Value :: string
  ev_FieldPath :: "string option"

record VolumeMount =
  vm_Name :: string
  vm_MountPath :: string

datatype VolumeSource =
    EmptyDir
  | SecretVolume string "(string \<times> string) list" bool

record Volume =
  vo_Name :: string
  vo_Source :: VolumeSource

record Container =
  ct_Image :: string
  ct_Name :: string
  ct_VolumeMounts :: "VolumeMount list"
  ct_Ports :: "ContainerPort list"
  ct_Env :: "EnvVar list"
  ct_Command :: "string list"
  ct_Args :: "string list"
  ct_ReadinessProbe :: "(string \<times> int) option"

record PodAffinityTerm =
  pat_Weight :: int
  pat_MatchLabels :: "(string, string) gomap"
  pat_TopologyKey :: string

record PodSpec =
  ps_AntiAffinity :: "PodAffinityTerm list"
  ps_NodeSelector :: "(string, string) gomap"
  ps_Tolerations :: "Toleration list"
  ps_ServiceAccountName :: string
  ps_InitContainers :: "Container list"
  ps_Containers :: "Container list"
  ps_Volumes :: "Volume list"

record PodTemplateSpec =
  pts_Labels :: "(string, string) gomap"
  pts_Annotations :: "(string, string) gomap"
  pts_Spec :: PodSpec

record Deployment =
  dp_Meta :: ObjectMeta
  dp_Replicas :: "32 word option"
  dp_MatchLabels :: "(string, string) gomap"
  dp_Template :: PodTemplateSpec

record PodCondition =
  pc_Type :: string
  pc_Status :: string
  pc_Reason :: string
  pc_Message :: string

record Pod =
  pod_Meta :: ObjectMeta
  pod_Phase :: string
  pod_Conditions :: "PodCondition list"
  pod_PodIP :: string
  pod_HostIP :: string

record Namespace =
  nsp_Name :: string
  nsp_Labels :: "(string, string) gomap"

record ReferenceGrantFrom =
  rgf_Group :: string
  rgf_Kind :: string
  rgf_Namespace :: string

record ReferenceGrantTo =
  rgt_Group :: string
  rgt_Kind :: string
  rgt_Name :: "string option"

record ReferenceGrant =
  rg_From :: "ReferenceGrantFrom list"
  rg_To :: "ReferenceGrantTo list"

record OwnerReference =
  or_UID :: string
  or_Name :: string

record ServiceAccount =
  sa_Meta :: ObjectMeta
  sa_OwnerReferences :: "OwnerReference list"

record PolicyRule =
  pol_APIGroups :: "string list"
  pol_Resources :: "string list"
  pol_ResourceNames :: "string list"
  pol_Verbs :: "string list"

record Role =
  ro_Meta :: ObjectMeta
  ro_Rules :: "PolicyRule list"

record RoleRef =
  rref_APIGroup :: string
  rref_Kind :: string
  rref_Name :: string

record Subject =
  sub_Kind :: string
  sub_Name :: string
  sub_Namespace :: string

record RoleBinding =
  rb_Meta :: ObjectMeta
  rb_RoleRef :: RoleRef
  rb_Subjects :: "Subject list"

record ParametersReference =
  pref_Group :: string
  pref_Kind :: string
  pref_Name :: string

record GatewayClass =
  gc_Meta :: ObjectMeta
  gc_ControllerName :: string
  gc_ParametersRef :: "ParametersReference option"
  gc_Conditions :: "Condition list"

definition gateway_meta :: "Gateway \<Rightarrow> ObjectMeta" where
  "gateway_meta gw = new_meta (om_Name (gw_Meta gw)) (om_Namespace (gw_Meta gw)) (LabelsForGateway gw)"

section \<open>The class configuration\<close>

record ConnectionManagementSpec =
  cms_MaxConnections :: "32 word option"

record DeploymentSpec =
  ds_DefaultInstances :: "32 word option"
  ds_MaxInstances :: "32 word option"
  ds_MinInstances :: "32 word option"

record PortSpec =
  pos_HTTP :: int
  pos_GRPC :: int

record AuthSpec =
  aus_Managed :: bool
  aus_Method :: string
  aus_Account :: string
  aus_Namespace :: string
  aus_PodSecurityPolicy :: string

record ConsulSpec =
  css_AuthSpec :: AuthSpec
  css_Scheme :: string
  css_Partition :: string
  css_ServerName :: string
  css_Address :: string
  css_PortSpec :: PortSpec

record ImageSpec =
  ims_ConsulAPIGateway :: string
  ims_Envoy :: string

record CopyAnnotationsSpec =
  cas_Service :: "string list option"

record GatewayClassConfigSpec =
  gcc_ServiceType :: "string option"
  gcc_NodeSelector :: "(string, string) gomap"
  gcc_Tolerations :: "Toleration list"
  gcc_UseHostPorts :: bool
  gcc_ConsulSpec :: ConsulSpec
  gcc_ImageSpec :: ImageSpec
  gcc_CopyAnnotations :: CopyAnnotationsSpec
  gcc_LogLevel :: string
  gcc_DeploymentSpec :: DeploymentSpec
  gcc_ConnectionManagement :: ConnectionManagementSpec

record GatewayClassConfig =
  gcf_Meta :: ObjectMeta
  gcf_Spec :: GatewayClassConfigSpec

definition zero_GatewayClassConfigSpec :: GatewayClassConfigSpec where
  "zero_GatewayClassConfigSpec =
     \<lparr>gcc_ServiceType = None, gcc_NodeSelector = [], gcc_Tolerations = [], gcc_UseHostPorts = False,
      gcc_ConsulSpec = \<lparr>css_AuthSpec = \<lparr>aus_Managed = False, aus_Method = '''', aus_Account = '''', aus_Namespace = '''',
          aus_PodSecurityPolicy = ''''\<rparr>,
        css_Scheme = '''', css_Partition = '''', css_ServerName = '''', css_Address = '''',
        css_PortSpec = \<lparr>pos_HTTP = 0, pos_GRPC = 0\<rparr>\<rparr>,
      gcc_ImageSpec = \<lparr>ims_ConsulAPIGateway = '''', ims_Envoy = ''''\<rparr>,
      gcc_CopyAnnotations = \<lparr>cas_Service = None\<rparr>, gcc_LogLevel = '''',
      gcc_DeploymentSpec = \<lparr>ds_DefaultInstances = None, ds_MaxInstances = None, ds_MinInstances = None\<rparr>,
      gcc_ConnectionManagement = \<lparr>cms_MaxConnections = None\<rparr>\<rparr>"

definition zero_GatewayClassConfig :: GatewayClassConfig where
  "zero_GatewayClassConfig = \<lparr>gcf_Meta = new_meta '''' '''' [], gcf_Spec = zero_GatewayClassConfigSpec\<rparr>"

abbreviation (input) auth_spec :: "GatewayClassConfig \<Rightarrow> AuthSpec" where
  "auth_spec c \<equiv> css_AuthSpec (gcc_ConsulSpec (gcf_Spec c))"

definition RoleFor :: "GatewayClassConfig \<Rightarrow> Gateway \<Rightarrow> Role option" where
  "RoleFor c gw =
     (if \<not> aus_Managed (auth_spec c) \<or> aus_PodSecurityPolicy (auth_spec c) = '''' then None
      else Some \<lparr>ro_Meta = gateway_meta gw,
             ro_Rules = [\<lparr>pol_APIGroups = [''policy''], pol_Resources = [''podsecuritypolicies''],
               pol_ResourceNames = [aus_PodSecurityPolicy (auth_spec c)], pol_Verbs = [''use'']\<rparr>]\<rparr>)"

definition ServiceAccountFor :: "GatewayClassConfig \<Rightarrow> Gateway \<Rightarrow> ServiceAccount option" where
  "ServiceAccountFor c gw =
     (if \<not> aus_Managed (auth_spec c) then None else Some \<lparr>sa_Meta = gateway_meta gw, sa_OwnerReferences = []\<rparr>)"

definition RoleBindingFor :: "GatewayClassConfig \<Rightarrow> Gateway \<Rightarrow> RoleBinding option" where
  "RoleBindingFor c gw =
     (case ServiceAccountFor c gw of
        None \<Rightarrow> None
      | Some serviceAccount \<Rightarrow>
          (case RoleFor c gw of
             None \<Rightarrow> None
           | Some role \<Rightarrow>
               Some \<lparr>rb_Meta = gateway_meta gw,
                 rb_RoleRef = \<lparr>rref_APIGroup = ''rbac.authorization.k8s.io'', rref_Kind = ''Role'', rref_Name = om_Name (ro_Meta role)\<rparr>,
                 rb_Subjects = [\<lparr>sub_Kind = ''ServiceAccount'', sub_Name = om_Name (sa_Meta serviceAccount),
                   sub_Namespace = om_Namespace (sa_Meta serviceAccount)\<rparr>]\<rparr>))"

section \<open>Merging\<close>

text \<open>\<open>equality.Semantic.DeepEqual\<close> on maps: the same entries.\<close>

definition gomap_equal :: "('k, 'v) gomap \<Rightarrow> ('k, 'v) gomap \<Rightarrow> bool" where
  "gomap_equal a b \<longleftrightarrow> length a = length b \<and> list_all (\<lambda>(k, v). map_of b k = Some v) a"

definition compareSecrets :: "Secret \<Rightarrow> Secret \<Rightarrow> bool" where
  "compareSecrets a b =
     (if \<not> gomap_equal (om_Annotations (sec_Meta a)) (om_Annotations (sec_Meta b)) then False
      else if length (sec_Data b) \<noteq> length (sec_Data a) then False
      else list_all (\<lambda>(k, v). map_of (sec_Data b) k = Some v) (sec_Data a))"

definition MergeSecret :: "Secret \<Rightarrow> Secret \<Rightarrow> Secret" where
  "MergeSecret a b =
     (if \<not> compareSecrets a b
      then b\<lparr>sec_Meta := (sec_Meta b)\<lparr>om_Annotations := om_Annotations (sec_Meta a)\<rparr>, sec_Data := sec_Data a\<rparr>
      else b)"

definition compareServices :: "Service \<Rightarrow> Service \<Rightarrow> bool" where
  "compareServices a b =
     (if \<not> gomap_equal (om_Annotations (sv_Meta a)) (om_Annotations (sv_Meta b)) then False
      else if length (sv_Ports b) \<noteq> length (sv_Ports a) then False
      else list_all (\<lambda>(p, q). sp_Port p = sp_Port q \<and> sp_Protocol p = sp_Protocol q) (zip (sv_Ports a) (sv_Ports b)))"

definition MergeService :: "Service \<Rightarrow> Service \<Rightarrow> Service" where
  "MergeService a b =
     (if \<not> compareServices a b
      then b\<lparr>sv_Meta := (sv_Meta b)\<lparr>om_Annotations := om_Annotations (sv_Meta a)\<rparr>, sv_Ports := sv_Ports a\<rparr>
      else b)"

definition same_ports :: "ContainerPort list \<Rightarrow> ContainerPort list \<Rightarrow> bool" where
  "same_ports ps qs \<longleftrightarrow> length ps = length qs \<and>
     list_all (\<lambda>(p, q). cp_ContainerPort p = cp_ContainerPort q \<and> cp_Protocol p = cp_Protocol q) (zip ps qs)"

definition same_containers :: "Container list \<Rightarrow> Container list \<Rightarrow> bool" where
  "same_containers as bs \<longleftrightarrow> length bs = length as \<and>
     list_all (\<lambda>(x, y). same_ports (ct_Ports x) (ct_Ports y)) (zip as bs)"

text \<open>The replica counts are read through pointers: \<^const>\<open>None\<close> is a nil pointer.\<close>

definition compareDeployments :: "Deployment \<Rightarrow> Deployment \<Rightarrow> bool option" where
  "compareDeployments a b =
     (if \<not> same_containers (ps_Containers (pts_Spec (dp_Template a))) (ps_Containers (pts_Spec (dp_Template b))) then Some False
      else (case (dp_Replicas b, dp_Replicas a) of (Some m, Some n) \<Rightarrow> Some (m = n) | _ \<Rightarrow> None))"

definition MergeDeployment :: "Deployment \<Rightarrow> Deployment \<Rightarrow> Deployment option" where
  "MergeDeployment a b =
     map_option (\<lambda>same. if \<not> same then b\<lparr>dp_Template := dp_Template a, dp_Replicas := dp_Replicas a\<rparr> else b)
       (compareDeployments a b)"

section \<open>A merge settles\<close>

lemma gomap_equal_refl [simp]: "gomap_ok m \<Longrightarrow> gomap_equal m m"
  by (auto simp: gomap_equal_def list_all_iff gomap_ok_def)

lemma list_all_zip_same: "(\<And>x. P (x, x)) \<Longrightarrow> list_all P (zip xs xs)"
  by (induction xs) auto

lemma same_ports_refl [simp]: "same_ports ps ps"
  by (simp add: same_ports_def list_all_zip_same)

lemma same_containers_refl [simp]: "same_containers cs cs"
  by (simp add: same_containers_def list_all_zip_same)

lemma gomap_ok_entries: "gomap_ok m \<Longrightarrow> list_all (\<lambda>(k, v). map_of m k = Some v) m"
  by (auto simp: list_all_iff gomap_ok_def)

lemma gomap_equal_map_of:
  assumes "gomap_ok a" and "gomap_ok b"
  shows "gomap_equal a b \<longleftrightarrow> map_of a = map_of b"
proof
  assume eq: "gomap_equal a b"
  then have "set a \<subseteq> set b"
    using assms(2) by (auto simp: gomap_equal_def list_all_iff entry_lookup)
  moreover have "card (set a) = length a" and "card (set b) = length b"
    using assms by (auto simp: gomap_ok_def distinct_map intro: distinct_card)
  ultimately have "set a = set b"
    using eq by (intro card_subset_eq) (simp_all add: gomap_equal_def)
  then have "map_of a k = Some v \<longleftrightarrow> map_of b k = Some v" for k v
    by (simp flip: entry_lookup [OF assms(1)] entry_lookup [OF assms(2)])
  then show "map_of a = map_of b"
    by (intro ext) (metis not_Some_eq)
next
  assume eq: "map_of a = map_of b"
  then have "set a = set b"
    using entry_lookup [OF assms(1)] entry_lookup [OF assms(2)] by auto
  moreover have "card (set a) = length a" and "card (set b) = length b"
    using assms by (auto simp: gomap_ok_def distinct_map intro: distinct_card)
  ultimately show "gomap_equal a b"
    using gomap_ok_entries [OF assms(1)] eq by (simp add: gomap_equal_def)
qed

lemma list_all_zip_map_eq:
  "length xs = length ys \<and> list_all (\<lambda>(x, y). f x = f y) (zip xs ys) \<longleftrightarrow> map f xs = map f ys"
  by (auto simp: list_all_length list_eq_iff_nth_eq)

text \<open>What the controller manages of a service and of a deployment: the numbers and protocols of the ports.\<close>

definition service_ports :: "Service \<Rightarrow> (int \<times> string) list" where
  "service_ports v = map (\<lambda>p. (sp_Port p, sp_Protocol p)) (sv_Ports v)"

definition container_ports :: "Deployment \<Rightarrow> (int \<times> string) list list" where
  "container_ports d =
     map (\<lambda>c. map (\<lambda>p. (cp_ContainerPort p, cp_Protocol p)) (ct_Ports c)) (ps_Containers (pts_Spec (dp_Template d)))"

lemma compareSecrets_iff:
  assumes "gomap_ok (om_Annotations (sec_Meta a))" and "gomap_ok (om_Annotations (sec_Meta b))" and "gomap_ok (sec_Data a)" and "gomap_ok (sec_Data b)"
  shows "compareSecrets a b \<longleftrightarrow> map_of (om_Annotations (sec_Meta a)) = map_of (om_Annotations (sec_Meta b)) \<and> map_of (sec_Data a) = map_of (sec_Data b)"
  using gomap_equal_map_of [OF assms(1,2)] gomap_equal_map_of [OF assms(3,4)] by (auto simp: compareSecrets_def gomap_equal_def)

lemma compareServices_iff:
  assumes "gomap_ok (om_Annotations (sv_Meta a))" and "gomap_ok (om_Annotations (sv_Meta b))"
  shows "compareServices a b \<longleftrightarrow> map_of (om_Annotations (sv_Meta a)) = map_of (om_Annotations (sv_Meta b)) \<and> service_ports a = service_ports b"
  using gomap_equal_map_of [OF assms] list_all_zip_map_eq [where f = "\<lambda>p. (sp_Port p, sp_Protocol p)" and xs = "sv_Ports a" and ys = "sv_Ports b"]
  by (auto simp: compareServices_def service_ports_def)

lemma same_containers_iff:
  "same_containers as bs \<longleftrightarrow> map (\<lambda>c. map (\<lambda>p. (cp_ContainerPort p, cp_Protocol p)) (ct_Ports c)) as =
     map (\<lambda>c. map (\<lambda>p. (cp_ContainerPort p, cp_Protocol p)) (ct_Ports c)) bs"
proof -
  have "same_ports ps qs \<longleftrightarrow> map (\<lambda>p. (cp_ContainerPort p, cp_Protocol p)) ps = map (\<lambda>p. (cp_ContainerPort p, cp_Protocol p)) qs" for ps qs
    using list_all_zip_map_eq [where f = "\<lambda>p. (cp_ContainerPort p, cp_Protocol p)" and xs = ps and ys = qs] by (simp add: same_ports_def)
  then show ?thesis
    using list_all_zip_map_eq [where f = "\<lambda>c. map (\<lambda>p. (cp_ContainerPort p, cp_Protocol p)) (ct_Ports c)" and xs = as and ys = bs]
    by (auto simp: same_containers_def)
qed

lemma compareDeployments_iff:
  assumes "dp_Replicas a \<noteq> None" and "dp_Replicas b \<noteq> None"
  shows "compareDeployments a b = Some (container_ports a = container_ports b \<and> dp_Replicas a = dp_Replicas b)"
  using assms by (auto simp: compareDeployments_def same_containers_iff container_ports_def)

text \<open>C33: bringing an object up to date settles. Merging the wanted object into any existing one gives an object that
  agrees with the wanted one in what the controller manages: the annotations and the data of a secret, the annotations and
  the ports of a service, the ports of the containers and the replica count of a deployment. Every other field of a secret or a service is
  that of the existing object, of a deployment every other field but the pod template. Merging again changes nothing. The
  maps are Go maps, and the deployment's merge never stops at a missing replica count when both have one.\<close>

theorem merge_settles:
  assumes "gomap_ok (om_Annotations (sec_Meta s))" and "gomap_ok (sec_Data s)"
    and "gomap_ok (om_Annotations (sec_Meta s'))" and "gomap_ok (sec_Data s')"
    and "gomap_ok (om_Annotations (sv_Meta v))" and "gomap_ok (om_Annotations (sv_Meta v'))"
    and "dp_Replicas d \<noteq> None" and "dp_Replicas d' \<noteq> None"
  shows "(let m = MergeSecret s s' in
      map_of (om_Annotations (sec_Meta m)) = map_of (om_Annotations (sec_Meta s)) \<and> map_of (sec_Data m) = map_of (sec_Data s) \<and>
      m = s'\<lparr>sec_Meta := (sec_Meta s')\<lparr>om_Annotations := om_Annotations (sec_Meta m)\<rparr>, sec_Data := sec_Data m\<rparr> \<and>
      MergeSecret s m = m) \<and>
    (let m = MergeService v v' in
      map_of (om_Annotations (sv_Meta m)) = map_of (om_Annotations (sv_Meta v)) \<and> service_ports m = service_ports v \<and>
      m = v'\<lparr>sv_Meta := (sv_Meta v')\<lparr>om_Annotations := om_Annotations (sv_Meta m)\<rparr>, sv_Ports := sv_Ports m\<rparr> \<and>
      MergeService v m = m) \<and>
    (\<exists>m. MergeDeployment d d' = Some m \<and> container_ports m = container_ports d \<and> dp_Replicas m = dp_Replicas d \<and>
      m = d'\<lparr>dp_Template := dp_Template m, dp_Replicas := dp_Replicas m\<rparr> \<and> MergeDeployment d m = Some m)"
proof (intro conjI)
  note sec = compareSecrets_iff [OF assms(1) _ assms(2)]
  show "let m = MergeSecret s s' in
      map_of (om_Annotations (sec_Meta m)) = map_of (om_Annotations (sec_Meta s)) \<and> map_of (sec_Data m) = map_of (sec_Data s) \<and>
      m = s'\<lparr>sec_Meta := (sec_Meta s')\<lparr>om_Annotations := om_Annotations (sec_Meta m)\<rparr>, sec_Data := sec_Data m\<rparr> \<and>
      MergeSecret s m = m"
    using sec [OF assms(3,4)] by (cases "compareSecrets s s'") (simp_all add: MergeSecret_def sec assms(1,2))
  note svc = compareServices_iff [OF assms(5)]
  show "let m = MergeService v v' in
      map_of (om_Annotations (sv_Meta m)) = map_of (om_Annotations (sv_Meta v)) \<and> service_ports m = service_ports v \<and>
      m = v'\<lparr>sv_Meta := (sv_Meta v')\<lparr>om_Annotations := om_Annotations (sv_Meta m)\<rparr>, sv_Ports := sv_Ports m\<rparr> \<and>
      MergeService v m = m"
    using svc [OF assms(6)] by (cases "compareServices v v'") (simp_all add: MergeService_def svc assms(5) service_ports_def)
  note dep = compareDeployments_iff [OF assms(7)]
  show "\<exists>m. MergeDeployment d d' = Some m \<and> container_ports m = container_ports d \<and> dp_Replicas m = dp_Replicas d \<and>
      m = d'\<lparr>dp_Template := dp_Template m, dp_Replicas := dp_Replicas m\<rparr> \<and> MergeDeployment d m = Some m"
    using dep [OF assms(8)] assms(7)
    by (cases "container_ports d = container_ports d' \<and> dp_Replicas d = dp_Replicas d'")
      (auto simp: MergeDeployment_def dep container_ports_def)
qed

text \<open>A deployment with a number of replicas, a service with a port and a secret.\<close>

definition sample_deployment :: "32 word \<Rightarrow> Deployment" where
  "sample_deployment n = \<lparr>dp_Meta = new_meta ''gw'' ''ns'' [], dp_Replicas = Some n, dp_MatchLabels = [],
     dp_Template = \<lparr>pts_Labels = [], pts_Annotations = [],
       pts_Spec = \<lparr>ps_AntiAffinity = [], ps_NodeSelector = [], ps_Tolerations = [], ps_ServiceAccountName = '''',
         ps_InitContainers = [], ps_Containers = [], ps_Volumes = []\<rparr>\<rparr>\<rparr>"

definition sample_service :: "int \<Rightarrow> Service" where
  "sample_service port = \<lparr>sv_Meta = new_meta ''gw'' ''ns'' [], sv_Selector = [], sv_Type = ''ClusterIP'',
     sv_Ports = [\<lparr>sp_Name = ''http'', sp_Protocol = ''TCP'', sp_Port = port\<rparr>], sv_ClusterIP = ''10.0.0.1'', sv_Ingress = []\<rparr>"

definition sample_secret :: "string \<Rightarrow> Secret" where
  "sample_secret ca = \<lparr>sec_Meta = new_meta ''gw'' ''ns'' [], sec_Data = [(''consul-ca-cert'', ca)]\<rparr>"

theorem merge_settles_witness:
  "map_of (sec_Data (MergeSecret (sample_secret ''a'') (sample_secret ''b''))) ''consul-ca-cert'' = Some ''a'' \<and>
   service_ports (MergeService (sample_service 80) (sample_service 443)) = [(80, ''TCP'')] \<and>
   map_option dp_Replicas (MergeDeployment (sample_deployment 2) (sample_deployment 1)) = Some (Some 2)"
proof -
  have ok: "gomap_ok (om_Annotations (sec_Meta (sample_secret ca)))" "gomap_ok (sec_Data (sample_secret ca))"
    "gomap_ok (om_Annotations (sv_Meta (sample_service port)))" "dp_Replicas (sample_deployment n) \<noteq> None" for ca port n
    by (simp_all add: sample_secret_def sample_service_def sample_deployment_def new_meta_def gomap_ok_def)
  have ports: "service_ports (sample_service 80) = [(80, ''TCP'')]" and data: "map_of (sec_Data (sample_secret ''a'')) ''consul-ca-cert'' = Some ''a''"
    and replicas: "dp_Replicas (sample_deployment 2) = Some 2"
    by (simp_all add: service_ports_def sample_service_def sample_secret_def sample_deployment_def)
  note merged = merge_settles [OF ok(1,2) [of "''a''"] ok(1,2) [of "''b''"] ok(3) [of 80] ok(3) [of 443] ok(4) [of 2] ok(4) [of 1]]
  show ?thesis
    using merged data ports replicas unfolding Let_def by auto
qed

end
