(* ===== verification/Route_State.thy ===== *)
theory Route_State
  imports Backend_Resolver
begin

text \<open>
  The state of a route: \<open>internal/k8s/reconciler/errors\<close>, \<open>internal/k8s/reconciler/status/route.go\<close> and
  \<open>equality.go\<close>, and \<open>internal/k8s/reconciler/state/route.go\<close>. A route keeps one status per parent reference, keyed
  by the JSON text of the reference; the texts of Kubernetes objects are an argument, \<open>Texts\<close>. The lemmas show what
  a bound and a refused route report, and that a status that was written does not ask to be written again.
\<close>

section \<open>Errors\<close>

datatype BindErrorType =
    BindErrorTypeRouteKind
  | BindErrorTypeListenerNamespacePolicy
  | BindErrorTypeHostnameMismatch
  | BindErrorTypeRouteInvalid

record BindError =
  be_inner :: string
  be_errorType :: BindErrorType

definition NewBindErrorRouteKind :: "string \<Rightarrow> BindError" where
  "NewBindErrorRouteKind inner = \<lparr>be_inner = inner, be_errorType = BindErrorTypeRouteKind\<rparr>"

definition NewBindErrorListenerNamespacePolicy :: "string \<Rightarrow> BindError" where
  "NewBindErrorListenerNamespacePolicy inner = \<lparr>be_inner = inner, be_errorType = BindErrorTypeListenerNamespacePolicy\<rparr>"

definition NewBindErrorHostnameMismatch :: "string \<Rightarrow> BindError" where
  "NewBindErrorHostnameMismatch inner = \<lparr>be_inner = inner, be_errorType = BindErrorTypeHostnameMismatch\<rparr>"

definition NewBindErrorRouteInvalid :: "string \<Rightarrow> BindError" where
  "NewBindErrorRouteInvalid inner = \<lparr>be_inner = inner, be_errorType = BindErrorTypeRouteInvalid\<rparr>"

datatype CertificateResolutionErrorType =
    CertificateResolutionErrorTypeNotFound
  | CertificateResolutionErrorTypeNotPermitted
  | CertificateResolutionErrorTypeUnsupported

record CertificateResolutionError =
  ce_inner :: string
  ce_errorType :: CertificateResolutionErrorType

definition NewCertificateResolutionErrorNotFound :: "string \<Rightarrow> CertificateResolutionError" where
  "NewCertificateResolutionErrorNotFound inner =
     \<lparr>ce_inner = inner, ce_errorType = CertificateResolutionErrorTypeNotFound\<rparr>"

definition NewCertificateResolutionErrorNotPermitted :: "string \<Rightarrow> CertificateResolutionError" where
  "NewCertificateResolutionErrorNotPermitted inner =
     \<lparr>ce_inner = inner, ce_errorType = CertificateResolutionErrorTypeNotPermitted\<rparr>"

definition NewCertificateResolutionErrorUnsupported :: "string \<Rightarrow> CertificateResolutionError" where
  "NewCertificateResolutionErrorUnsupported inner =
     \<lparr>ce_inner = inner, ce_errorType = CertificateResolutionErrorTypeUnsupported\<rparr>"

text \<open>An error handed to \<open>BindFailed\<close>: a \<open>BindError\<close> or any other error.\<close>

datatype bind_failure = Binding BindError | OtherFailure string

fun failure_text :: "bind_failure \<Rightarrow> string" where
  "failure_text (Binding e) = be_inner e"
| "failure_text (OtherFailure s) = s"

section \<open>Statuses per parent\<close>

type_synonym RouteStatuses = "(string, RouteStatus) gomap"

text \<open>The JSON texts of parent references, conditions and parent statuses, and the reader of references.\<close>

record Texts =
  tx_ref :: "ParentReference \<Rightarrow> string"
  tx_parse :: "string \<Rightarrow> ParentReference"
  tx_condition :: "Condition \<Rightarrow> string"
  tx_parent :: "RouteParentStatus \<Rightarrow> string"

fun statuses_loop :: "Texts \<Rightarrow> RouteStatuses \<Rightarrow> string \<Rightarrow> int \<Rightarrow> string \<Rightarrow> RouteParentStatus list" where
  "statuses_loop tx [] controllerName generation now = []"
| "statuses_loop tx ((ref, status) # r) controllerName generation now =
     \<lparr>rps_ParentRef = tx_parse tx ref, rps_ControllerName = controllerName,
      rps_Conditions = RouteStatus_Conditions status generation now\<rparr> # statuses_loop tx r controllerName generation now"

text \<open>\<open>Statuses\<close> ranges over a map, in an order that is an argument here.\<close>

definition Statuses ::
  "Texts \<Rightarrow> (RouteStatuses \<Rightarrow> RouteStatuses) \<Rightarrow> RouteStatuses \<Rightarrow> string \<Rightarrow> int \<Rightarrow> string \<Rightarrow> RouteParentStatus list" where
  "Statuses tx ord r controllerName generation now = statuses_loop tx (go_range ord r) controllerName generation now"

definition filterParentStatuses :: "RouteParentStatus list \<Rightarrow> string \<Rightarrow> RouteParentStatus list" where
  "filterParentStatuses routeStatus controllerName = filter (\<lambda>status. rps_ControllerName status \<noteq> controllerName) routeStatus"

definition sort_conditions :: "Texts \<Rightarrow> RouteParentStatus \<Rightarrow> RouteParentStatus" where
  "sort_conditions tx parent =
     parent\<lparr>rps_Conditions := slice_stable (\<lambda>a b. tx_condition tx a < tx_condition tx b) (rps_Conditions parent)\<rparr>"

definition sortParents :: "Texts \<Rightarrow> RouteParentStatus list \<Rightarrow> RouteParentStatus list" where
  "sortParents tx parents =
     slice_stable (\<lambda>a b. tx_parent tx a < tx_parent tx b) (map (sort_conditions tx) parents)"

definition mergedStatus ::
  "Texts \<Rightarrow> (RouteStatuses \<Rightarrow> RouteStatuses) \<Rightarrow> RouteStatuses \<Rightarrow> RouteParentStatus list \<Rightarrow> string \<Rightarrow> int \<Rightarrow> string \<Rightarrow> RouteParentStatus list" where
  "mergedStatus tx ord r routeStatus controllerName generation now =
     sortParents tx (filterParentStatuses routeStatus controllerName @ Statuses tx ord r controllerName generation now)"

definition conditionEqual :: "Condition \<Rightarrow> Condition \<Rightarrow> bool" where
  "conditionEqual a b =
     (if mc_Type a \<noteq> mc_Type b \<or> mc_ObservedGeneration a \<noteq> mc_ObservedGeneration b \<or> mc_Status a \<noteq> mc_Status b \<or>
         mc_Reason a \<noteq> mc_Reason b \<or> mc_Message a \<noteq> mc_Message b
      then False else True)"

definition ConditionsEqual :: "Condition list \<Rightarrow> Condition list \<Rightarrow> bool" where
  "ConditionsEqual a b \<longleftrightarrow> length a = length b \<and> list_all (\<lambda>(x, y). conditionEqual x y) (zip a b)"

definition listenerStatusEqual :: "GwListenerStatus \<Rightarrow> GwListenerStatus \<Rightarrow> bool" where
  "listenerStatusEqual a b =
     (if gls_Name a \<noteq> gls_Name b then False
      else if gls_SupportedKinds a \<noteq> gls_SupportedKinds b then False
      else if gls_AttachedRoutes a \<noteq> gls_AttachedRoutes b then False
      else ConditionsEqual (gls_Conditions a) (gls_Conditions b))"

definition ListenerStatusesEqual :: "GwListenerStatus list \<Rightarrow> GwListenerStatus list \<Rightarrow> bool" where
  "ListenerStatusesEqual a b \<longleftrightarrow> length a = length b \<and> list_all (\<lambda>(x, y). listenerStatusEqual x y) (zip a b)"

definition parentStatusEqual :: "Texts \<Rightarrow> RouteParentStatus \<Rightarrow> RouteParentStatus \<Rightarrow> bool" where
  "parentStatusEqual tx a b =
     (if rps_ControllerName a \<noteq> rps_ControllerName b then False
      else if tx_ref tx (rps_ParentRef a) \<noteq> tx_ref tx (rps_ParentRef b) then False
      else ConditionsEqual (rps_Conditions a) (rps_Conditions b))"

definition RouteStatusEqual :: "Texts \<Rightarrow> RouteParentStatus list \<Rightarrow> RouteParentStatus list \<Rightarrow> bool" where
  "RouteStatusEqual tx a b \<longleftrightarrow> length a = length b \<and> list_all (\<lambda>(x, y). parentStatusEqual tx x y) (zip a b)"

definition GatewayStatusEqual :: "GwGatewayStatus \<Rightarrow> GwGatewayStatus \<Rightarrow> bool" where
  "GatewayStatusEqual a b =
     (if \<not> ConditionsEqual (ggs_Conditions a) (ggs_Conditions b) then False
      else if \<not> ListenerStatusesEqual (ggs_Listeners a) (ggs_Listeners b) then False
      else True)"

text \<open>\<open>sortParents\<close> sorts in place: the statuses that \<open>mergedStatus\<close> reads are already sorted.\<close>

definition NeedsUpdate ::
  "Texts \<Rightarrow> (RouteStatuses \<Rightarrow> RouteStatuses) \<Rightarrow> RouteStatuses \<Rightarrow> RouteParentStatus list \<Rightarrow> string \<Rightarrow> int \<Rightarrow> string
   \<Rightarrow> RouteParentStatus list \<times> bool" where
  "NeedsUpdate tx ord r routeStatus controllerName generation now =
     (let currentStatus = sortParents tx routeStatus;
          updatedStatus = mergedStatus tx ord r currentStatus controllerName generation now in
      (updatedStatus, \<not> RouteStatusEqual tx currentStatus updatedStatus))"

definition zero_RouteStatus :: RouteStatus where
  "zero_RouteStatus = \<lparr>rst_Accepted = zero_RouteAcceptedStatus, rst_ResolvedRefs = zero_RouteResolvedRefsStatus\<rparr>"

definition accepted_failure :: "bind_failure \<Rightarrow> RouteAcceptedStatus \<Rightarrow> RouteAcceptedStatus" where
  "accepted_failure err s =
     (case err of
        Binding e \<Rightarrow>
          (case be_errorType e of
             BindErrorTypeHostnameMismatch \<Rightarrow> s\<lparr>rac_ListenerHostnameMismatch := Some (be_inner e)\<rparr>
           | BindErrorTypeListenerNamespacePolicy \<Rightarrow> s\<lparr>rac_ListenerNamespacePolicy := Some (be_inner e)\<rparr>
           | BindErrorTypeRouteKind \<Rightarrow> s\<lparr>rac_InvalidRouteKind := Some (be_inner e)\<rparr>
           | BindErrorTypeRouteInvalid \<Rightarrow> s\<lparr>rac_BindError := Some (be_inner e)\<rparr>)
      | OtherFailure text \<Rightarrow> s\<lparr>rac_BindError := Some text\<rparr>)"

definition resolved_failure :: "ResolutionErrors \<Rightarrow> RouteResolvedRefsStatus \<Rightarrow> RouteResolvedRefsStatus" where
  "resolved_failure resolutionErrors s =
     (case Flatten resolutionErrors of (errorType, err) \<Rightarrow>
        if errorType = GenericResolutionErrorType then s\<lparr>rrr_Errors := err\<rparr>
        else if errorType = ConsulServiceResolutionErrorType then s\<lparr>rrr_ConsulServiceNotFound := err\<rparr>
        else if errorType = K8sServiceResolutionErrorType then s\<lparr>rrr_ServiceNotFound := err\<rparr>
        else if errorType = RefNotPermittedErrorType then s\<lparr>rrr_RefNotPermitted := err\<rparr>
        else if errorType = InvalidKindErrorType then s\<lparr>rrr_InvalidKind := err\<rparr>
        else if errorType = BackendNotFoundErrorType then s\<lparr>rrr_BackendNotFound := err\<rparr>
        else s)"

definition RouteStatuses_BindFailed :: "RouteStatuses \<Rightarrow> ResolutionErrors \<Rightarrow> bind_failure \<Rightarrow> string \<Rightarrow> RouteStatuses" where
  "RouteStatuses_BindFailed r resolutionErrors err rid =
     (let routeStatus = (case map_of r rid of None \<Rightarrow> zero_RouteStatus | Some s \<Rightarrow> s) in
      AList.update rid
        (routeStatus\<lparr>rst_Accepted := accepted_failure err (rst_Accepted routeStatus),
           rst_ResolvedRefs := resolved_failure resolutionErrors (rst_ResolvedRefs routeStatus)\<rparr>) r)"

definition RouteStatuses_Bound :: "RouteStatuses \<Rightarrow> string \<Rightarrow> RouteStatuses" where
  "RouteStatuses_Bound r rid =
     (case map_of r rid of
        Some s \<Rightarrow> AList.update rid (s\<lparr>rst_Accepted := zero_RouteAcceptedStatus, rst_ResolvedRefs := zero_RouteResolvedRefsStatus\<rparr>) r
      | None \<Rightarrow> AList.update rid zero_RouteStatus r)"

definition RouteStatuses_Remove :: "RouteStatuses \<Rightarrow> string \<Rightarrow> RouteStatuses" where
  "RouteStatuses_Remove r rid = AList.delete rid r"

section \<open>The state of a route\<close>

record RouteState =
  rts_References :: RouteRuleReferenceMap
  rts_ResolutionErrors :: ResolutionErrors
  rts_ParentStatuses :: RouteStatuses

definition NewRouteState :: RouteState where
  "NewRouteState = \<lparr>rts_References = [], rts_ResolutionErrors = NewResolutionErrors, rts_ParentStatuses = []\<rparr>"

definition RouteState_BindFailed :: "Texts \<Rightarrow> RouteState \<Rightarrow> bind_failure \<Rightarrow> ParentReference \<Rightarrow> RouteState" where
  "RouteState_BindFailed tx r err ref =
     r\<lparr>rts_ParentStatuses := RouteStatuses_BindFailed (rts_ParentStatuses r) (rts_ResolutionErrors r) err (tx_ref tx ref)\<rparr>"

definition RouteState_Bound :: "Texts \<Rightarrow> RouteState \<Rightarrow> ParentReference \<Rightarrow> RouteState" where
  "RouteState_Bound tx r ref = r\<lparr>rts_ParentStatuses := RouteStatuses_Bound (rts_ParentStatuses r) (tx_ref tx ref)\<rparr>"

definition RouteState_Remove :: "Texts \<Rightarrow> RouteState \<Rightarrow> ParentReference \<Rightarrow> RouteState" where
  "RouteState_Remove tx r ref = r\<lparr>rts_ParentStatuses := RouteStatuses_Remove (rts_ParentStatuses r) (tx_ref tx ref)\<rparr>"

section \<open>A written status is not written again\<close>

text \<open>
  What the code relies on in the JSON texts: the order of two conditions of different types, or of two statuses of
  different parents, does not depend on the rest of them, because the type and the parent come first in the text; and
  the texts of the statuses of different parents, or of different controllers, differ.
\<close>

definition texts_laws :: "Texts \<Rightarrow> bool" where
  "texts_laws tx \<longleftrightarrow>
     (\<forall>a b a' b'. mc_Type a \<noteq> mc_Type b \<longrightarrow> mc_Type a' = mc_Type a \<longrightarrow> mc_Type b' = mc_Type b \<longrightarrow>
        (tx_condition tx a < tx_condition tx b \<longleftrightarrow> tx_condition tx a' < tx_condition tx b')) \<and>
     (\<forall>p q p' q'. (rps_ParentRef p, rps_ControllerName p) \<noteq> (rps_ParentRef q, rps_ControllerName q) \<longrightarrow>
        (rps_ParentRef p', rps_ControllerName p') = (rps_ParentRef p, rps_ControllerName p) \<longrightarrow>
        (rps_ParentRef q', rps_ControllerName q') = (rps_ParentRef q, rps_ControllerName q) \<longrightarrow>
        (tx_parent tx p < tx_parent tx q \<longleftrightarrow> tx_parent tx p' < tx_parent tx q')) \<and>
     (\<forall>p q. tx_parent tx p = tx_parent tx q \<longrightarrow>
        (rps_ParentRef p, rps_ControllerName p) = (rps_ParentRef q, rps_ControllerName q))"

lemma texts_condition:
  assumes "texts_laws tx" and "mc_Type a \<noteq> mc_Type b" and "mc_Type a' = mc_Type a" and "mc_Type b' = mc_Type b"
  shows "tx_condition tx a < tx_condition tx b \<longleftrightarrow> tx_condition tx a' < tx_condition tx b'"
  by (rule conjunct1 [OF assms(1) [unfolded texts_laws_def], rule_format]) (fact assms(2-4))+

lemma texts_parent:
  assumes "texts_laws tx" and "(rps_ParentRef p, rps_ControllerName p) \<noteq> (rps_ParentRef q, rps_ControllerName q)"
    and "(rps_ParentRef p', rps_ControllerName p') = (rps_ParentRef p, rps_ControllerName p)"
    and "(rps_ParentRef q', rps_ControllerName q') = (rps_ParentRef q, rps_ControllerName q)"
  shows "tx_parent tx p < tx_parent tx q \<longleftrightarrow> tx_parent tx p' < tx_parent tx q'"
  by (rule conjunct1 [OF conjunct2 [OF assms(1) [unfolded texts_laws_def]], rule_format]) (fact assms(2-4))+

lemma texts_inject:
  assumes "texts_laws tx" and "tx_parent tx p = tx_parent tx q"
  shows "rps_ParentRef p = rps_ParentRef q" and "rps_ControllerName p = rps_ControllerName q"
  using conjunct2 [OF conjunct2 [OF assms(1) [unfolded texts_laws_def]], rule_format, OF assms(2)] by simp_all

definition statuses_ok :: "Texts \<Rightarrow> RouteStatuses \<Rightarrow> bool" where
  "statuses_ok tx r \<longleftrightarrow> gomap_ok r \<and> list_all (\<lambda>(k, s). tx_ref tx (tx_parse tx k) = k) r"

lemma insert_by_rel:
  assumes "list_all2 R xs ys" and "R x y"
    and "\<And>u v. R u v \<Longrightarrow> u \<in> set xs \<Longrightarrow> v \<in> set ys \<Longrightarrow> lt u x \<longleftrightarrow> lt v y"
  shows "list_all2 R (insert_by lt x xs) (insert_by lt y ys)"
  using assms(1,3)
proof (induction xs ys rule: list_all2_induct)
  case (Cons u us v vs)
  then show ?case
    using assms(2) by auto
qed (use assms(2) in simp)

text \<open>Sorting keeps two lists related when the order cannot tell related elements apart.\<close>

lemma slice_stable_rel:
  assumes "list_all2 R xs ys"
    and "\<And>u v u' v'. R u v \<Longrightarrow> R u' v' \<Longrightarrow> u \<in> set xs \<Longrightarrow> u' \<in> set xs \<Longrightarrow> v \<in> set ys \<Longrightarrow> v' \<in> set ys \<Longrightarrow> lt u u' \<longleftrightarrow> lt v v'"
  shows "list_all2 R (slice_stable lt xs) (slice_stable lt ys)"
  using assms
proof (induction xs ys rule: list_all2_induct)
  case (Cons x xs y ys)
  have "list_all2 R (slice_stable lt xs) (slice_stable lt ys)"
    by (rule Cons.IH) (rule Cons.prems, auto)
  then have "list_all2 R (insert_by lt x (slice_stable lt xs)) (insert_by lt y (slice_stable lt ys))"
    by (rule insert_by_rel [where R = R]) (use Cons.prems Cons.hyps(1) in auto)
  then show ?case
    by simp
qed simp

lemma sort_key_sorted_prefix: "sort_key f (sort_key f xs @ ys) = sort_key f (xs @ ys)"
proof (rule properties_for_sort_key [symmetric])
  show "mset (sort_key f (sort_key f xs @ ys)) = mset (xs @ ys)"
    by simp
  show "filter (\<lambda>x. f k = f x) (sort_key f (sort_key f xs @ ys)) = filter (\<lambda>x. f k = f x) (xs @ ys)" for k
    by (simp add: filter_sort [symmetric] sort_key_stable eq_commute [of "f k"])
  show "sorted (map f (sort_key f (sort_key f xs @ ys)))"
    by (rule sorted_sort_key)
qed

lemma sort_key_idem [simp]: "sort_key f (sort_key f xs) = sort_key f xs"
  using sort_key_sorted_prefix [of f xs "[]"] by simp

lemma parents_sort_key: "slice_stable (\<lambda>a b. tx_parent tx a < tx_parent tx b) xs = sort_key (tx_parent tx) xs"
  by (rule slice_stable_sort_key) simp

lemma conditions_sort_key: "slice_stable (\<lambda>a b. tx_condition tx a < tx_condition tx b) xs = sort_key (tx_condition tx) xs"
  by (rule slice_stable_sort_key) simp

lemma sort_conditions_idem [simp]: "sort_conditions tx (sort_conditions tx p) = sort_conditions tx p"
  by (simp add: sort_conditions_def conditions_sort_key)

lemma sort_conditions_same [simp]:
  "rps_ParentRef (sort_conditions tx p) = rps_ParentRef p" "rps_ControllerName (sort_conditions tx p) = rps_ControllerName p"
  by (simp_all add: sort_conditions_def)

lemma sortParents_idem: "sortParents tx (sortParents tx xs) = sortParents tx xs"
proof -
  have "map (sort_conditions tx) (sort_key (tx_parent tx) (map (sort_conditions tx) xs)) = sort_key (tx_parent tx) (map (sort_conditions tx) xs)"
    by (rule map_idI) auto
  then show ?thesis
    by (simp add: sortParents_def parents_sort_key)
qed

lemma sortParents_filter:
  "sortParents tx (filter (\<lambda>p. rps_ControllerName p \<noteq> c) (sortParents tx xs) @ ys) =
   sortParents tx (filter (\<lambda>p. rps_ControllerName p \<noteq> c) xs @ ys)"
proof -
  let ?sc = "sort_conditions tx" and ?foreign = "\<lambda>p. rps_ControllerName p \<noteq> c"
  have "filter ?foreign (sortParents tx xs) = sort_key (tx_parent tx) (map ?sc (filter ?foreign xs))"
    by (simp add: sortParents_def parents_sort_key filter_sort filter_map comp_def)
  moreover have "map ?sc (sort_key (tx_parent tx) (map ?sc (filter ?foreign xs))) = sort_key (tx_parent tx) (map ?sc (filter ?foreign xs))"
    by (rule map_idI) auto
  ultimately show ?thesis
    by (simp add: sortParents_def parents_sort_key sort_key_sorted_prefix)
qed

lemma conditionEqual_iff: "conditionEqual a b \<longleftrightarrow> a = b\<lparr>mc_LastTransitionTime := mc_LastTransitionTime a\<rparr>"
  by (cases a; cases b) (auto simp: conditionEqual_def)

lemma ConditionsEqual_list_all2: "ConditionsEqual a b \<longleftrightarrow> list_all2 conditionEqual a b"
  by (auto simp: ConditionsEqual_def list_all2_iff list_all_iff)

lemma RouteStatusEqual_list_all2: "RouteStatusEqual tx a b \<longleftrightarrow> list_all2 (parentStatusEqual tx) a b"
  by (auto simp: RouteStatusEqual_def list_all2_iff list_all_iff)


text \<open>The statuses of the controller's own parents at two times.\<close>

definition own_status :: "Texts \<Rightarrow> string \<Rightarrow> int \<Rightarrow> string \<Rightarrow> string \<times> RouteStatus \<Rightarrow> RouteParentStatus" where
  "own_status tx c g now = (\<lambda>(ref, status). \<lparr>rps_ParentRef = tx_parse tx ref, rps_ControllerName = c,
     rps_Conditions = RouteStatus_Conditions status g now\<rparr>)"

lemma Statuses_map: "Statuses tx ord r c g now = map (own_status tx c g now) (go_range ord r)"
proof -
  have "statuses_loop tx es c g now = map (own_status tx c g now) es" for es
    by (induction es) (auto simp: own_status_def)
  then show ?thesis
    by (simp add: Statuses_def)
qed

lemma own_status_simps [simp]:
  "rps_ParentRef (own_status tx c g now e) = tx_parse tx (fst e)" "rps_ControllerName (own_status tx c g now e) = c"
  "rps_Conditions (own_status tx c g now e) = RouteStatus_Conditions (snd e) g now"
  by (simp_all add: own_status_def split: prod.splits)

lemma route_conditions_later: "list_all2 conditionEqual (RouteStatus_Conditions s g now) (RouteStatus_Conditions s g later)"
  by (simp add: RouteStatus_Conditions_def conditionEqual_def rac.condition rrr.condition split: option.splits prod.splits)

lemma own_conditions_later:
  assumes "texts_laws tx"
  shows "ConditionsEqual (rps_Conditions (sort_conditions tx (own_status tx c g now e)))
    (rps_Conditions (sort_conditions tx (own_status tx c g later e)))"
proof -
  obtain a b where ab: "RouteStatus_Conditions (snd e) g now = [a, b]"
    by (simp add: RouteStatus_Conditions_def)
  obtain a' b' where ab': "RouteStatus_Conditions (snd e) g later = [a', b']"
    by (simp add: RouteStatus_Conditions_def)
  have types: "mc_Type a = ''Accepted''" "mc_Type b = ''ResolvedRefs''" "mc_Type a' = ''Accepted''" "mc_Type b' = ''ResolvedRefs''"
    using ab ab' by (auto simp: RouteStatus_Conditions_def rac.condition_type rrr.condition_type)
  have eq: "conditionEqual a a'" "conditionEqual b b'"
    using route_conditions_later [of "snd e" g now later] by (simp_all add: ab ab')
  have "tx_condition tx b < tx_condition tx a \<longleftrightarrow> tx_condition tx b' < tx_condition tx a'"
    by (rule texts_condition [OF assms]) (simp_all add: types)
  then show ?thesis
    using eq by (simp add: ConditionsEqual_list_all2 sort_conditions_def ab ab')
qed


text \<open>A status before and after: a foreign status is the same, an own one has new times.\<close>

definition later_status ::
  "Texts \<Rightarrow> string \<Rightarrow> int \<Rightarrow> string \<Rightarrow> string \<Rightarrow> RouteStatuses \<Rightarrow> RouteParentStatus \<Rightarrow> RouteParentStatus \<Rightarrow> bool" where
  "later_status tx c g now later r x y \<longleftrightarrow> (x = y \<and> rps_ControllerName x \<noteq> c) \<or>
     (\<exists>e \<in> set r. x = sort_conditions tx (own_status tx c g now e) \<and> y = sort_conditions tx (own_status tx c g later e))"

lemma later_statusE:
  assumes "later_status tx c g now later r x y"
  obtains "x = y" and "rps_ControllerName x \<noteq> c"
  | e where "e \<in> set r" and "x = sort_conditions tx (own_status tx c g now e)" and "y = sort_conditions tx (own_status tx c g later e)"
  using assms unfolding later_status_def by blast

lemma later_status_parent:
  "later_status tx c g now later r x y \<Longrightarrow>
   (rps_ParentRef y, rps_ControllerName y) = (rps_ParentRef x, rps_ControllerName x)"
  by (erule later_statusE) simp_all

lemma same_entry:
  assumes "statuses_ok tx r" and "e \<in> set r" and "e' \<in> set r" and "tx_parse tx (fst e) = tx_parse tx (fst e')"
  shows "e = e'"
proof -
  have "tx_ref tx (tx_parse tx (fst e)) = fst e" and "tx_ref tx (tx_parse tx (fst e')) = fst e'"
    using assms(1-3) by (auto simp: statuses_ok_def list_all_iff)
  then have "fst e = fst e'"
    using assms(4) by metis
  then show ?thesis
    using assms(1-3) by (auto simp: statuses_ok_def gomap_ok_def distinct_map inj_on_def)
qed

lemma later_status_order:
  assumes "texts_laws tx" and "statuses_ok tx r"
    and "later_status tx c g now later r x y" and "later_status tx c g now later r x' y'"
  shows "tx_parent tx x < tx_parent tx x' \<longleftrightarrow> tx_parent tx y < tx_parent tx y'"
proof (cases "(rps_ParentRef x, rps_ControllerName x) = (rps_ParentRef x', rps_ControllerName x')")
  case True
  show ?thesis
  proof (rule later_statusE [OF assms(3)]; rule later_statusE [OF assms(4)])
    fix e e' assume e: "e \<in> set r" "x = sort_conditions tx (own_status tx c g now e)" "y = sort_conditions tx (own_status tx c g later e)"
      and e': "e' \<in> set r" "x' = sort_conditions tx (own_status tx c g now e')" "y' = sort_conditions tx (own_status tx c g later e')"
    then have "e = e'"
      using True by (intro same_entry [OF assms(2)]) simp_all
    then show ?thesis
      using e e' by simp
  qed (use True in simp_all)
next
  case False
  then show ?thesis
    by (rule texts_parent [OF assms(1) _ later_status_parent [OF assms(3)] later_status_parent [OF assms(4)]])
qed

lemma later_status_equal:
  assumes "texts_laws tx" and "later_status tx c g now later r x y"
  shows "parentStatusEqual tx x y"
proof (rule later_statusE [OF assms(2)])
  assume "x = y"
  then show ?thesis
    by (simp add: parentStatusEqual_def ConditionsEqual_list_all2 list.rel_refl conditionEqual_def)
next
  fix e assume "x = sort_conditions tx (own_status tx c g now e)" and "y = sort_conditions tx (own_status tx c g later e)"
  then show ?thesis
    using own_conditions_later [OF assms(1), of c g now e later] by (simp add: parentStatusEqual_def)
qed

lemma later_statuses:
  "list_all2 (later_status tx c g now later r)
     (map (sort_conditions tx) (filter (\<lambda>p. rps_ControllerName p \<noteq> c) ps @ map (own_status tx c g now) r))
     (map (sort_conditions tx) (filter (\<lambda>p. rps_ControllerName p \<noteq> c) ps @ map (own_status tx c g later) r))"
proof -
  have own: "list_all2 (later_status tx c g now later r) (map (sort_conditions tx) (map (own_status tx c g now) es))
      (map (sort_conditions tx) (map (own_status tx c g later) es))" if "set es \<subseteq> set r" for es
    using that by (induction es) (auto simp: later_status_def)
  have "list_all2 (later_status tx c g now later r) (map (sort_conditions tx) (filter (\<lambda>p. rps_ControllerName p \<noteq> c) ps))
      (map (sort_conditions tx) (filter (\<lambda>p. rps_ControllerName p \<noteq> c) ps))"
    by (induction ps) (auto simp: later_status_def)
  then show ?thesis
    unfolding map_append by (rule list_all2_appendI) (rule own, simp)
qed

text \<open>The sorted statuses do not depend on the order of the controller's own ones before.\<close>

lemma sort_key_perm_tail:
  assumes "mset ys = mset ys'" and "inj_on f (set ys)" and "f ` set xs \<inter> f ` set ys = {}"
  shows "sort_key f (xs @ ys) = sort_key f (xs @ ys')"
proof (rule properties_for_sort_key)
  show "mset (sort_key f (xs @ ys')) = mset (xs @ ys)"
    using assms(1) by simp
  have set_ys: "set ys' = set ys"
    using mset_eq_setD [OF assms(1)] by simp
  fix k assume "k \<in> set (sort_key f (xs @ ys'))"
  then have k: "k \<in> set (xs @ ys)"
    using set_ys by simp
  have "filter (\<lambda>x. f k = f x) ys' = filter (\<lambda>x. f k = f x) ys"
  proof (cases "k \<in> set ys")
    case True
    have same: "filter (\<lambda>x. f k = f x) zs = replicate (count (mset zs) k) k" if "set zs = set ys" for zs
    proof -
      have "(\<lambda>x. f k = f x) y \<longleftrightarrow> k = y" if "y \<in> set zs" for y
        using assms(2) True that \<open>set zs = set ys\<close> by (auto simp: inj_on_def)
      then have "filter (\<lambda>x. f k = f x) zs = filter (\<lambda>y. k = y) zs"
        by (intro filter_cong) auto
      also have "\<dots> = replicate (count (mset zs) k) k"
        by (induction zs) auto
      finally show ?thesis .
    qed
    show ?thesis
      using same [of ys] same [of ys'] assms(1) set_ys by simp
  next
    case False
    then have "f k \<in> f ` set xs"
      using k by auto
    then have "filter (\<lambda>x. f k = f x) zs = []" if "set zs = set ys" for zs
      using assms(3) that by (auto simp: filter_empty_conv)
    then show ?thesis
      using set_ys by simp
  qed
  then show "filter (\<lambda>x. f k = f x) (sort_key f (xs @ ys')) = filter (\<lambda>x. f k = f x) (xs @ ys)"
    by (simp add: filter_sort [symmetric] sort_key_stable eq_commute [of "f k"])
qed (rule sorted_sort_key)

lemma sortParents_any_order:
  assumes "texts_laws tx" and "statuses_ok tx r" and "mset es = mset r"
  shows "sortParents tx (filter (\<lambda>p. rps_ControllerName p \<noteq> c) ps @ map (own_status tx c g now) es) =
    sortParents tx (filter (\<lambda>p. rps_ControllerName p \<noteq> c) ps @ map (own_status tx c g now) r)"
proof -
  let ?own = "\<lambda>e. sort_conditions tx (own_status tx c g now e)"
  let ?F = "map (sort_conditions tx) (filter (\<lambda>p. rps_ControllerName p \<noteq> c) ps)"
  have set_es: "set es = set r"
    by (rule mset_eq_setD [OF assms(3)])
  have "sort_key (tx_parent tx) (?F @ map ?own es) = sort_key (tx_parent tx) (?F @ map ?own r)"
  proof (rule sort_key_perm_tail)
    show "mset (map ?own es) = mset (map ?own r)"
      using assms(3) by simp
    show "inj_on (tx_parent tx) (set (map ?own es))"
    proof (rule inj_onI)
      fix x y assume "x \<in> set (map ?own es)" and "y \<in> set (map ?own es)" and eq: "tx_parent tx x = tx_parent tx y"
      then obtain e e' where e: "e \<in> set r" "x = ?own e" and e': "e' \<in> set r" "y = ?own e'"
        using set_es by auto
      have "e = e'"
        using texts_inject(1) [OF assms(1) eq] e e' by (intro same_entry [OF assms(2)]) simp_all
      then show "x = y"
        by (simp add: e e')
    qed
    have "rps_ControllerName x \<noteq> rps_ControllerName y" if "x \<in> set ?F" and "y \<in> set (map ?own es)" for x y
      using that by auto
    then show "tx_parent tx ` set ?F \<inter> tx_parent tx ` set (map ?own es) = {}"
      using texts_inject(2) [OF assms(1)] by blast
  qed
  then show ?thesis
    by (simp add: sortParents_def parents_sort_key comp_def)
qed

text \<open>C26: a status that was written is not written again. When the conditions a route asks for have been stored, at
  any later time and with the same generation, the route asks for no update, whatever the order in which Go ranges over
  the map of parents the two times: sorting gives the parents and their conditions the same order, and only the times
  differ, which the comparison ignores.\<close>

theorem NeedsUpdate_settles:
  assumes "texts_laws tx" and "statuses_ok tx r"
  shows "snd (NeedsUpdate tx ord' r (fst (NeedsUpdate tx ord r routeStatus c g now)) c g later) = False"
proof -
  let ?F = "filter (\<lambda>p. rps_ControllerName p \<noteq> c) routeStatus"
  let ?old = "sortParents tx (?F @ map (own_status tx c g now) r)"
  let ?new = "sortParents tx (?F @ map (own_status tx c g later) r)"
  have "list_all2 (later_status tx c g now later r) ?old ?new"
    unfolding sortParents_def by (rule slice_stable_rel [OF later_statuses]) (rule later_status_order [OF assms])
  then have "list_all2 (parentStatusEqual tx) ?old ?new"
    by (rule list_all2_mono) (rule later_status_equal [OF assms(1)])
  then show ?thesis
    by (simp add: NeedsUpdate_def mergedStatus_def filterParentStatuses_def Statuses_map sortParents_idem sortParents_filter
        sortParents_any_order [OF assms mset_go_range] RouteStatusEqual_list_all2 Let_def)
qed

text \<open>Texts that keep the name of a reference and the type of a condition, and all of a status's parent and controller.\<close>

definition named_parent :: "string \<Rightarrow> ParentReference" where
  "named_parent n = \<lparr>pr_Group = None, pr_Kind = None, pr_Namespace = None, pr_Name = n, pr_SectionName = None, pr_Port = None\<rparr>"

fun delimited :: "string \<Rightarrow> string" where
  "delimited [] = ''e''"
| "delimited (x # xs) = CHR ''c'' # x # delimited xs"

definition delimited_option :: "string option \<Rightarrow> string" where
  "delimited_option x = (case x of None \<Rightarrow> ''n'' | Some s \<Rightarrow> CHR ''s'' # delimited s)"

definition int_text :: "int \<Rightarrow> string" where
  "int_text i = (if i < 0 then CHR ''-'' else CHR ''+'') # replicate (nat \<bar>i\<bar>) CHR ''1''"

definition parent_text :: "RouteParentStatus \<Rightarrow> string" where
  "parent_text p = (let ref = rps_ParentRef p in
     delimited_option (pr_Group ref) @ delimited_option (pr_Kind ref) @ delimited_option (pr_Namespace ref) @
     delimited (pr_Name ref) @ delimited_option (pr_SectionName ref) @ delimited_option (map_option int_text (pr_Port ref)) @
     delimited (rps_ControllerName p))"

definition name_texts :: Texts where
  "name_texts = \<lparr>tx_ref = pr_Name, tx_parse = named_parent, tx_condition = mc_Type, tx_parent = parent_text\<rparr>"

lemma delimited_inject: "delimited s @ x = delimited t @ y \<longleftrightarrow> s = t \<and> x = y"
proof (induction s arbitrary: t)
  case Nil
  then show ?case by (cases t) auto
next
  case (Cons a s)
  then show ?case by (cases t) auto
qed

lemma delimited_option_inject: "delimited_option s @ x = delimited_option t @ y \<longleftrightarrow> s = t \<and> x = y"
  by (cases s; cases t) (auto simp: delimited_option_def delimited_inject)

lemma int_text_inject: "int_text i = int_text j \<longleftrightarrow> i = j"
  by (auto simp: int_text_def dest: arg_cong [of _ _ length])

lemma parent_text_inject:
  "parent_text p = parent_text q \<Longrightarrow> (rps_ParentRef p, rps_ControllerName p) = (rps_ParentRef q, rps_ControllerName q)"
proof -
  assume "parent_text p = parent_text q"
  then have "parent_text p @ [] = parent_text q @ []"
    by simp
  then have "pr_Group (rps_ParentRef p) = pr_Group (rps_ParentRef q)" "pr_Kind (rps_ParentRef p) = pr_Kind (rps_ParentRef q)"
    "pr_Namespace (rps_ParentRef p) = pr_Namespace (rps_ParentRef q)" "pr_Name (rps_ParentRef p) = pr_Name (rps_ParentRef q)"
    "pr_SectionName (rps_ParentRef p) = pr_SectionName (rps_ParentRef q)"
    "map_option int_text (pr_Port (rps_ParentRef p)) = map_option int_text (pr_Port (rps_ParentRef q))"
    "rps_ControllerName p = rps_ControllerName q"
    unfolding parent_text_def Let_def append_assoc delimited_inject delimited_option_inject by simp_all
  moreover from this(6) have "pr_Port (rps_ParentRef p) = pr_Port (rps_ParentRef q)"
    by (cases "pr_Port (rps_ParentRef p)"; cases "pr_Port (rps_ParentRef q)") (simp_all add: int_text_inject)
  ultimately show ?thesis
    by (cases "rps_ParentRef p"; cases "rps_ParentRef q") simp
qed

lemma texts_laws_name: "texts_laws name_texts"
  unfolding texts_laws_def
proof (intro conjI allI impI)
  fix p q p' q' :: RouteParentStatus
  assume "(rps_ParentRef p', rps_ControllerName p') = (rps_ParentRef p, rps_ControllerName p)"
    and "(rps_ParentRef q', rps_ControllerName q') = (rps_ParentRef q, rps_ControllerName q)"
  then have "parent_text p' = parent_text p" and "parent_text q' = parent_text q"
    by (simp_all add: parent_text_def)
  then show "tx_parent name_texts p < tx_parent name_texts q \<longleftrightarrow> tx_parent name_texts p' < tx_parent name_texts q'"
    by (simp add: name_texts_def)
next
  fix p q :: RouteParentStatus
  assume "tx_parent name_texts p = tx_parent name_texts q"
  then show "(rps_ParentRef p, rps_ControllerName p) = (rps_ParentRef q, rps_ControllerName q)"
    by (intro parent_text_inject) (simp add: name_texts_def)
qed (simp add: name_texts_def)

theorem NeedsUpdate_settles_witness:
  "snd (NeedsUpdate name_texts id [(''b'', zero_RouteStatus), (''a'', zero_RouteStatus)] [] ''c'' 1 ''noon'') = True \<and>
   snd (NeedsUpdate name_texts rev [(''b'', zero_RouteStatus), (''a'', zero_RouteStatus)]
     (fst (NeedsUpdate name_texts id [(''b'', zero_RouteStatus), (''a'', zero_RouteStatus)] [] ''c'' 1 ''noon'')) ''c'' 1 ''one'') = False"
proof -
  have "statuses_ok name_texts [(''b'', zero_RouteStatus), (''a'', zero_RouteStatus)]"
    by (simp add: statuses_ok_def gomap_ok_def name_texts_def named_parent_def)
  note NeedsUpdate_settles [OF texts_laws_name this, of rev id "[]" "''c''" 1 "''noon''" "''one''"]
  moreover have "snd (NeedsUpdate name_texts id [(''b'', zero_RouteStatus), (''a'', zero_RouteStatus)] [] ''c'' 1 ''noon'') = True"
    by (simp add: NeedsUpdate_def mergedStatus_def sortParents_def filterParentStatuses_def RouteStatusEqual_def Statuses_def go_range_def Let_def)
  ultimately show ?thesis
    by blast
qed

section \<open>What a route reports\<close>

lemmas route_state_defs =
  RouteState_BindFailed_def RouteState_Bound_def RouteState_Remove_def
  RouteStatuses_BindFailed_def RouteStatuses_Bound_def RouteStatuses_Remove_def

fun failure_reason :: "bind_failure \<Rightarrow> string" where
  "failure_reason (Binding e) =
     (case be_errorType e of
        BindErrorTypeRouteKind \<Rightarrow> ''InvalidRouteKind''
      | BindErrorTypeListenerNamespacePolicy \<Rightarrow> ''ListenerNamespacePolicy''
      | BindErrorTypeHostnameMismatch \<Rightarrow> ''ListenerHostnameMismatch''
      | BindErrorTypeRouteInvalid \<Rightarrow> ''BindError'')"
| "failure_reason (OtherFailure s) = ''BindError''"

text \<open>The conditions a route reports for a parent reference.\<close>

definition reported :: "Texts \<Rightarrow> RouteState \<Rightarrow> ParentReference \<Rightarrow> int \<Rightarrow> string \<Rightarrow> Condition list option" where
  "reported tx r ref g now = map_option (\<lambda>s. RouteStatus_Conditions s g now) (map_of (rts_ParentStatuses r) (tx_ref tx ref))"

definition resolution_types :: "string set" where
  "resolution_types = {GenericResolutionErrorType, ConsulServiceResolutionErrorType, K8sServiceResolutionErrorType,
     RefNotPermittedErrorType, InvalidKindErrorType, BackendNotFoundErrorType}"

text \<open>What was on record for a parent, and the refusals on record after a failure, in the order of their precedence:
  the failure replaces an earlier one for the same reason.\<close>

definition old_status :: "Texts \<Rightarrow> RouteState \<Rightarrow> ParentReference \<Rightarrow> RouteStatus" where
  "old_status tx r ref = (case map_of (rts_ParentStatuses r) (tx_ref tx ref) of None \<Rightarrow> zero_RouteStatus | Some s \<Rightarrow> s)"

definition record_failure :: "bind_failure \<Rightarrow> (string \<times> go_error) list \<Rightarrow> (string \<times> go_error) list" where
  "record_failure err = map (\<lambda>(reason, old). (reason, if reason = failure_reason err then Some (failure_text err) else old))"

lemma accepted_failure_errors:
  "RouteAcceptedStatus_errors (accepted_failure err s) = record_failure err (RouteAcceptedStatus_errors s)"
  by (cases err) (auto simp: RouteAcceptedStatus_errors_def accepted_failure_def record_failure_def split: BindErrorType.splits)

lemma record_failure_some:
  "\<exists>reason msg. first_error (record_failure err (RouteAcceptedStatus_errors s)) = Some (reason, msg)"
proof (rule ccontr)
  assume "\<nexists>reason msg. first_error (record_failure err (RouteAcceptedStatus_errors s)) = Some (reason, msg)"
  then have "no_errors (record_failure err (RouteAcceptedStatus_errors s))"
    unfolding first_error_None [symmetric] by (metis not_Some_eq surj_pair)
  then show False
    by (cases err) (auto simp: no_errors_def record_failure_def RouteAcceptedStatus_errors_def split: BindErrorType.splits)
qed

lemma accepted_failure_condition:
  assumes "first_error (record_failure err (RouteAcceptedStatus_errors s)) = Some (reason, msg)"
  shows "RouteAcceptedStatus_Condition (accepted_failure err s) g now =
    \<lparr>mc_Type = RouteConditionAccepted, mc_Status = ConditionFalse, mc_Reason = reason, mc_Message = msg,
     mc_ObservedGeneration = g, mc_LastTransitionTime = now\<rparr>"
  unfolding rac.condition accepted_failure_errors assms by simp

lemma Flatten_type: "(if errs = [] then NoResolutionErrorType = fst (Flatten errs) else fst (Flatten errs) \<in> insert GenericResolutionErrorType (keys errs))"
  by (cases errs) (auto simp: Flatten_def ResolutionErrors_Empty_def)

lemma Flatten_error: "snd (Flatten errs) = None \<longleftrightarrow> errs = []"
  by (cases errs) (auto simp: Flatten_def ResolutionErrors_Empty_def)

lemma resolved_failure_status:
  assumes "keys errs \<subseteq> resolution_types"
  shows "mc_Status (RouteResolvedRefsStatus_Condition (resolved_failure errs s) g now) = ConditionTrue \<longleftrightarrow>
    errs = [] \<and> no_errors (RouteResolvedRefsStatus_errors s)"
proof -
  obtain t e where f: "Flatten errs = (t, e)"
    by (rule prod.exhaust)
  have t: "if errs = [] then t = NoResolutionErrorType else t \<in> resolution_types" and e: "e = None \<longleftrightarrow> errs = []"
    using Flatten_type [of errs] Flatten_error [of errs] subsetD [OF assms, of t] f
    by (auto simp: resolution_types_def split: if_splits)
  show ?thesis
    unfolding rrr.status_ok resolved_failure_def f using t e
    by (auto simp: resolution_types_def RouteResolvedRefsStatus_errors_def no_errors_def split: if_splits)
qed

lemma bind_refused:
  assumes "keys (rts_ResolutionErrors r) \<subseteq> resolution_types"
  shows "\<exists>reason msg resolved.
    first_error (record_failure err (RouteAcceptedStatus_errors (rst_Accepted (old_status tx r ref)))) = Some (reason, msg) \<and>
    reported tx (RouteState_BindFailed tx r err ref) ref g now =
      Some [\<lparr>mc_Type = RouteConditionAccepted, mc_Status = ConditionFalse, mc_Reason = reason, mc_Message = msg,
             mc_ObservedGeneration = g, mc_LastTransitionTime = now\<rparr>, resolved] \<and>
    mc_Type resolved = RouteConditionResolvedRefs \<and>
    (mc_Status resolved = ConditionTrue \<longleftrightarrow> ResolutionErrors_Empty (rts_ResolutionErrors r) \<and>
       no_errors (RouteResolvedRefsStatus_errors (rst_ResolvedRefs (old_status tx r ref))))"
proof -
  let ?old = "old_status tx r ref"
  obtain reason msg where f: "first_error (record_failure err (RouteAcceptedStatus_errors (rst_Accepted ?old))) = Some (reason, msg)"
    using record_failure_some by blast
  let ?resolved = "RouteResolvedRefsStatus_Condition (resolved_failure (rts_ResolutionErrors r) (rst_ResolvedRefs ?old)) g now"
  have "reported tx (RouteState_BindFailed tx r err ref) ref g now =
      Some [RouteAcceptedStatus_Condition (accepted_failure err (rst_Accepted ?old)) g now, ?resolved]"
    by (simp add: reported_def route_state_defs update_conv' RouteStatus_Conditions_def old_status_def Let_def)
  then show ?thesis
    using f resolved_failure_status [OF assms, of "rst_ResolvedRefs ?old" g now]
    unfolding accepted_failure_condition [OF f]
    by (intro exI [of _ reason] exI [of _ msg] exI [of _ ?resolved]) (simp add: rrr.condition_type ResolutionErrors_Empty_def)
qed

text \<open>C27: what a route reports to its parents. A bound route is accepted with its references resolved, whatever it
  reported before. A route that fails to bind is not accepted: it reports, of this failure and those still on record from
  earlier attempts since it was last bound, the first in the order of precedence, with its message, this failure
  replacing an earlier one for the same reason; without an earlier failure that is the reason and the message of this
  one. It reports its references as resolved exactly when it has no resolution error and none is on record. A removed
  reference reports nothing; and what is reported to every other parent stays.\<close>

theorem bind_outcome_reported:
  assumes "keys (rts_ResolutionErrors r) \<subseteq> resolution_types" and "tx_ref tx other \<noteq> tx_ref tx ref"
  shows "map_option (map mc_Status) (reported tx (RouteState_Bound tx r ref) ref g now) = Some [ConditionTrue, ConditionTrue] \<and>
    (\<exists>reason msg resolved.
       first_error (record_failure err (RouteAcceptedStatus_errors (rst_Accepted (old_status tx r ref)))) = Some (reason, msg) \<and>
       reported tx (RouteState_BindFailed tx r err ref) ref g now =
         Some [\<lparr>mc_Type = RouteConditionAccepted, mc_Status = ConditionFalse, mc_Reason = reason, mc_Message = msg,
                mc_ObservedGeneration = g, mc_LastTransitionTime = now\<rparr>, resolved] \<and>
       mc_Type resolved = RouteConditionResolvedRefs \<and>
       (mc_Status resolved = ConditionTrue \<longleftrightarrow> ResolutionErrors_Empty (rts_ResolutionErrors r) \<and>
          no_errors (RouteResolvedRefsStatus_errors (rst_ResolvedRefs (old_status tx r ref))))) \<and>
    reported tx (RouteState_Remove tx r ref) ref g now = None \<and>
    reported tx (RouteState_Bound tx r ref) other g now = reported tx r other g now \<and>
    reported tx (RouteState_BindFailed tx r err ref) other g now = reported tx r other g now \<and>
    reported tx (RouteState_Remove tx r ref) other g now = reported tx r other g now"
proof (intro conjI bind_refused assms(1))
  show "map_option (map mc_Status) (reported tx (RouteState_Bound tx r ref) ref g now) = Some [ConditionTrue, ConditionTrue]"
    by (auto simp: reported_def route_state_defs update_conv' RouteStatus_Conditions_def zero_RouteStatus_def rac.status_ok rrr.status_ok
        rac.errors_zero rrr.errors_zero split: option.splits)
qed (use assms(2) in \<open>simp_all add: reported_def route_state_defs update_conv' delete_conv' Let_def split: option.splits\<close>)

text \<open>A route that was refused for its kind and then for its hostname still reports its kind.\<close>

theorem bind_outcome_reported_witness:
  "map_option (map mc_Reason) (reported name_texts
     (RouteState_BindFailed name_texts
        (RouteState_BindFailed name_texts NewRouteState (Binding (NewBindErrorRouteKind ''no'')) (named_parent ''gw''))
        (Binding (NewBindErrorHostnameMismatch ''other'')) (named_parent ''gw'')) (named_parent ''gw'') 1 ''noon'') =
     Some [''InvalidRouteKind'', ''ResolvedRefs'']"
proof -
  let ?r = "RouteState_BindFailed name_texts NewRouteState (Binding (NewBindErrorRouteKind ''no'')) (named_parent ''gw'')"
  let ?err = "Binding (NewBindErrorHostnameMismatch ''other'')"
  have old: "old_status name_texts ?r (named_parent ''gw'') =
      zero_RouteStatus\<lparr>rst_Accepted := zero_RouteAcceptedStatus\<lparr>rac_InvalidRouteKind := Some ''no''\<rparr>\<rparr>"
    by (simp add: old_status_def route_state_defs NewRouteState_def NewResolutionErrors_def zero_RouteStatus_def NewBindErrorRouteKind_def
        accepted_failure_def resolved_failure_def Flatten_def ResolutionErrors_Empty_def Let_def)
  have h: "keys (rts_ResolutionErrors ?r) \<subseteq> resolution_types"
    "tx_ref name_texts (named_parent ''other'') \<noteq> tx_ref name_texts (named_parent ''gw'')"
    by (simp_all add: NewRouteState_def NewResolutionErrors_def name_texts_def named_parent_def route_state_defs Let_def)
  obtain reason msg resolved where
    f: "first_error (record_failure ?err (RouteAcceptedStatus_errors (rst_Accepted (old_status name_texts ?r (named_parent ''gw''))))) = Some (reason, msg)"
    and r: "reported name_texts (RouteState_BindFailed name_texts ?r ?err (named_parent ''gw'')) (named_parent ''gw'') 1 ''noon'' =
      Some [\<lparr>mc_Type = RouteConditionAccepted, mc_Status = ConditionFalse, mc_Reason = reason, mc_Message = msg,
             mc_ObservedGeneration = 1, mc_LastTransitionTime = ''noon''\<rparr>, resolved]"
    using bind_outcome_reported [OF h, of 1 "''noon''" ?err] by (elim exE conjE)
  have "reason = ''InvalidRouteKind''"
    using f unfolding old
    by (simp add: record_failure_def RouteAcceptedStatus_errors_def zero_RouteAcceptedStatus_def NewBindErrorHostnameMismatch_def)
  moreover have "mc_Reason resolved = ''ResolvedRefs''"
    using r by (auto simp: reported_def route_state_defs NewRouteState_def NewResolutionErrors_def RouteStatus_Conditions_def
        rrr.reason_ok resolved_failure_def Flatten_def ResolutionErrors_Empty_def zero_RouteStatus_def rrr.errors_zero Let_def)
  ultimately show ?thesis
    using r by simp
qed

end
