(* ===== verification/Route_Converter.thy ===== *)
theory Route_Converter
  imports Route_State "HOL-Library.Multiset" "HOL-Library.Monad_Syntax"
begin

text \<open>
  The converters of \<open>internal/k8s/reconciler/converter\<close>: a Kubernetes route with its resolved references becomes a
  resolved route of \<open>internal/core\<close>. A nil pointer that the code reads stops the program: \<^const>\<open>None\<close> here. The
  lemmas show that a route whose references come from the resolver is converted, what the result holds, and that it
  does not depend on the order in which Go ranges over the reference map, up to the order of the rules.
\<close>

section \<open>Filters\<close>

fun httpHeadersToMap_loop :: "GwHTTPHeader list \<Rightarrow> (string, string) gomap \<Rightarrow> (string, string) gomap" where
  "httpHeadersToMap_loop [] resolved = resolved"
| "httpHeadersToMap_loop (h # headers) resolved = httpHeadersToMap_loop headers (AList.update (hh_Name h) (hh_Value h) resolved)"

definition httpHeadersToMap :: "GwHTTPHeader list \<Rightarrow> (string, string) gomap" where
  "httpHeadersToMap headers = httpHeadersToMap_loop headers []"

abbreviation (input) PrefixMatchHTTPPathModifier :: string where
  "PrefixMatchHTTPPathModifier \<equiv> ''ReplacePrefixMatch''"

abbreviation (input) HTTPRouteFilterRequestHeaderModifier :: string where
  "HTTPRouteFilterRequestHeaderModifier \<equiv> ''RequestHeaderModifier''"

abbreviation (input) HTTPRouteFilterRequestRedirect :: string where
  "HTTPRouteFilterRequestRedirect \<equiv> ''RequestRedirect''"

abbreviation (input) HTTPRouteFilterURLRewrite :: string where
  "HTTPRouteFilterURLRewrite \<equiv> ''URLRewrite''"

definition convert_header_modifier :: "GwRequestHeaderModifier \<Rightarrow> HTTPFilter" where
  "convert_header_modifier m =
     \<lparr>fl_Type = HTTPHeaderFilterType,
      fl_Header = \<lparr>hf_Set = httpHeadersToMap (rhm_Set m), hf_Add = httpHeadersToMap (rhm_Add m), hf_Remove = rhm_Remove m\<rparr>,
      fl_Redirect = zero_HTTPRedirectFilter, fl_URLRewrite = zero_HTTPURLRewriteFilter\<rparr>"

definition convert_redirect :: "GwRequestRedirect \<Rightarrow> HTTPFilter" where
  "convert_redirect r =
     (let scheme = (case rrd_Scheme r of None \<Rightarrow> '''' | Some s \<Rightarrow> s);
          hostname = (case rrd_Hostname r of None \<Rightarrow> '''' | Some h \<Rightarrow> h);
          port = (case rrd_Port r of None \<Rightarrow> 0 | Some p \<Rightarrow> p);
          statusCode = (case rrd_StatusCode r of None \<Rightarrow> 0 | Some s \<Rightarrow> s) in
      \<lparr>fl_Type = HTTPRedirectFilterType, fl_Header = zero_HTTPHeaderFilter,
       fl_Redirect = \<lparr>rd_Scheme = scheme, rd_Hostname = hostname, rd_Port = port, rd_Status = statusCode\<rparr>,
       fl_URLRewrite = zero_HTTPURLRewriteFilter\<rparr>)"

definition convert_rewrite :: "GwURLRewrite \<Rightarrow> HTTPFilter list" where
  "convert_rewrite u =
     (case gur_Path u of
        None \<Rightarrow> []
      | Some path \<Rightarrow>
          if hpm_Type path \<noteq> PrefixMatchHTTPPathModifier then []
          else (case hpm_ReplacePrefixMatch path of
                  None \<Rightarrow> []
                | Some replacement \<Rightarrow>
                    [\<lparr>fl_Type = HTTPURLRewriteFilterType, fl_Header = zero_HTTPHeaderFilter,
                      fl_Redirect = zero_HTTPRedirectFilter,
                      fl_URLRewrite = \<lparr>ur_Type = URLRewriteReplacePrefixMatchType, ur_ReplacePrefixMatch = replacement\<rparr>\<rparr>]))"

text \<open>What one filter appends; \<^const>\<open>None\<close> where the code reads the settings of a type that are nil.\<close>

definition convert_filter :: "GwHTTPRouteFilter \<Rightarrow> HTTPFilter list option" where
  "convert_filter flt =
     (if gf_Type flt = HTTPRouteFilterRequestHeaderModifier then map_option (\<lambda>m. [convert_header_modifier m]) (gf_RequestHeaderModifier flt)
      else if gf_Type flt = HTTPRouteFilterRequestRedirect then map_option (\<lambda>r. [convert_redirect r]) (gf_RequestRedirect flt)
      else if gf_Type flt = HTTPRouteFilterURLRewrite then map_option convert_rewrite (gf_URLRewrite flt)
      else Some [])"

fun convertHTTPRouteFilters :: "GwHTTPRouteFilter list \<Rightarrow> HTTPFilter list option" where
  "convertHTTPRouteFilters [] = Some []"
| "convertHTTPRouteFilters (flt # routeFilters) = do {
     f \<leftarrow> convert_filter flt;
     filters \<leftarrow> convertHTTPRouteFilters routeFilters;
     Some (f @ filters)
   }"

section \<open>Matches\<close>

definition methodMappings :: "(string, HTTPMethod) gomap" where
  "methodMappings =
     [(''CONNECT'', HTTPMethodConnect), (''DELETE'', HTTPMethodDelete), (''POST'', HTTPMethodPost), (''PUT'', HTTPMethodPut),
      (''PATCH'', HTTPMethodPatch), (''GET'', HTTPMethodGet), (''OPTIONS'', HTTPMethodOptions), (''TRACE'', HTTPMethodTrace),
      (''HEAD'', HTTPMethodHead)]"

definition pathMappings :: "(string, HTTPPathMatchType) gomap" where
  "pathMappings =
     [(''Exact'', HTTPPathMatchExactType), (''PathPrefix'', HTTPPathMatchPrefixType),
      (''RegularExpression'', HTTPPathMatchRegularExpressionType)]"

definition queryMappings :: "(string, HTTPQueryMatchType) gomap" where
  "queryMappings = [(''Exact'', HTTPQueryMatchExactType), (''RegularExpression'', HTTPQueryMatchRegularExpressionType)]"

definition headerMappings :: "(string, HTTPHeaderMatchType) gomap" where
  "headerMappings = [(''Exact'', HTTPHeaderMatchExactType), (''RegularExpression'', HTTPHeaderMatchRegularExpressionType)]"

fun convert_params :: "GwHTTPQueryParamMatch list \<Rightarrow> HTTPQueryMatch list" where
  "convert_params [] = []"
| "convert_params (param # params) =
     (case map_of queryMappings (case gqm_Type param of None \<Rightarrow> ''Exact'' | Some t \<Rightarrow> t) of
        None \<Rightarrow> convert_params params
      | Some mappedType \<Rightarrow>
          \<lparr>qm_Type = mappedType, qm_Name = gqm_Name param, qm_Value = gqm_Value param\<rparr> # convert_params params)"

fun convert_headers :: "GwHTTPHeaderMatch list \<Rightarrow> HTTPHeaderMatch list" where
  "convert_headers [] = []"
| "convert_headers (header # headers) =
     (case map_of headerMappings (case ghm_Type header of None \<Rightarrow> ''Exact'' | Some t \<Rightarrow> t) of
        None \<Rightarrow> convert_headers headers
      | Some mappedType \<Rightarrow>
          \<lparr>hm_Type = mappedType, hm_Name = ghm_Name header, hm_Value = ghm_Value header\<rparr> # convert_headers headers)"

definition convert_path :: "GwHTTPPathMatch option \<Rightarrow> HTTPMatch \<Rightarrow> HTTPMatch" where
  "convert_path path stateMatch =
     (case path of
        None \<Rightarrow> stateMatch
      | Some p \<Rightarrow>
          (case gpm_Value p of
             None \<Rightarrow> stateMatch
           | Some v \<Rightarrow>
               (case map_of pathMappings (case gpm_Type p of None \<Rightarrow> ''Exact'' | Some t \<Rightarrow> t) of
                  None \<Rightarrow> stateMatch
                | Some mappedType \<Rightarrow> stateMatch\<lparr>mt_Path := \<lparr>pm_Type = mappedType, pm_Value = v\<rparr>\<rparr>)))"

definition convert_match :: "GwHTTPRouteMatch \<Rightarrow> HTTPMatch" where
  "convert_match match =
     (let stateMatch = zero_HTTPMatch;
          stateMatch = (case grm_Method match of
             None \<Rightarrow> stateMatch
           | Some m \<Rightarrow> (case map_of methodMappings m of None \<Rightarrow> stateMatch | Some meth \<Rightarrow> stateMatch\<lparr>mt_Method := meth\<rparr>));
          stateMatch = convert_path (grm_Path match) stateMatch;
          stateMatch = stateMatch\<lparr>mt_Query := mt_Query stateMatch @ convert_params (grm_QueryParams match)\<rparr> in
      stateMatch\<lparr>mt_Headers := mt_Headers stateMatch @ convert_headers (grm_Headers match)\<rparr>)"

section \<open>Rules\<close>

fun convert_references :: "ResolvedReference list \<Rightarrow> HTTPService list option" where
  "convert_references [] = Some []"
| "convert_references (reference # references) =
     (if rf_Type reference = ConsulServiceReference
      then do {
        ref \<leftarrow> bf_HTTPRef (rf_Reference reference);
        consul \<leftarrow> rf_Consul reference;
        filters \<leftarrow> convertHTTPRouteFilters (hbr_Filters ref);
        services \<leftarrow> convert_references references;
        Some (\<lparr>hs_Service = \<lparr>rs_ConsulNamespace = cs_Namespace consul, rs_Service = cs_Name consul\<rparr>,
               hs_Weight = (case br_Weight ref of None \<Rightarrow> 1 | Some weight \<Rightarrow> weight),
               hs_Filters = filters\<rparr> # services)
      }
      else convert_references references)"

definition convert_rule :: "RouteRule \<times> ResolvedReference list \<Rightarrow> HTTPRouteRule option" where
  "convert_rule = (\<lambda>(rule, references). do {
     (_, httpRule) \<leftarrow> ru_HTTPRule rule;
     filters \<leftarrow> convertHTTPRouteFilters (ghr_Filters httpRule);
     services \<leftarrow> convert_references references;
     Some \<lparr>rr_Matches = map convert_match (ghr_Matches httpRule),
           rr_Filters = filters, rr_Services = services\<rparr>
   })"

fun httpReferencesToRules :: "RouteRuleReferenceMap \<Rightarrow> HTTPRouteRule list option" where
  "httpReferencesToRules [] = Some []"
| "httpReferencesToRules (entry # referenceMap) = do {
     rule \<leftarrow> convert_rule entry;
     resolved \<leftarrow> httpReferencesToRules referenceMap;
     Some (rule # resolved)
   }"

section \<open>The converters\<close>

record HTTPRouteConverter =
  hc_namespace :: string
  hc_hostname :: string
  hc_prefix :: string
  hc_meta :: "(string, string) gomap"
  hc_route :: GwHTTPRoute
  hc_state :: RouteState

definition HTTPRouteConverter_Convert :: "HTTPRouteConverter \<Rightarrow> ResolvedRoute option" where
  "HTTPRouteConverter_Convert c =
     (let hostnames = ghrt_Hostnames (hc_route c);
          hostnames = (if length hostnames = 0 then hostnames @ [if hc_hostname c = '''' then ''*'' else hc_hostname c] else hostnames);
          name = hc_prefix c @ om_Name (ghrt_Meta (hc_route c)) in
      map_option (\<lambda>rules. HTTPRouteBuilder_Build
        (NewHTTPRouteBuilder\<lparr>hb_name := name, hb_namespace := hc_namespace c, hb_hostnames := hostnames,
           hb_meta := hc_meta c, hb_rules := rules\<rparr>))
        (httpReferencesToRules (rts_References (hc_state c))))"

record TCPRouteConverter =
  tcv_namespace :: string
  tcv_hostname :: string
  tcv_meta :: "(string, string) gomap"
  tcv_route :: GwTCPRoute
  tcv_state :: RouteState

text \<open>The first Consul reference of the map, in the order Go ranges over it; \<^const>\<open>None\<close> inside is a nil pointer.\<close>

fun first_reference :: "ResolvedReference list \<Rightarrow> ConsulService option option" where
  "first_reference [] = None"
| "first_reference (reference # references) =
     (if rf_Type reference = ConsulServiceReference then Some (rf_Consul reference) else first_reference references)"

fun tcpReferencesToService :: "RouteRuleReferenceMap \<Rightarrow> ResolvedService option" where
  "tcpReferencesToService [] = Some \<lparr>rs_ConsulNamespace = '''', rs_Service = ''''\<rparr>"
| "tcpReferencesToService ((rule, references) # referenceMap) =
     (case first_reference references of
        Some consul \<Rightarrow> map_option (\<lambda>s. \<lparr>rs_ConsulNamespace = cs_Namespace s, rs_Service = cs_Name s\<rparr>) consul
      | None \<Rightarrow> tcpReferencesToService referenceMap)"

definition TCPRouteConverter_Convert :: "TCPRouteConverter \<Rightarrow> ResolvedRoute option" where
  "TCPRouteConverter_Convert c =
     map_option (\<lambda>service. TCPRouteBuilder_Build
       (NewTCPRouteBuilder\<lparr>tb_name := om_Name (gtrt_Meta (tcv_route c)), tb_namespace := tcv_namespace c,
          tb_meta := tcv_meta c, tb_service := service\<rparr>))
       (tcpReferencesToService (rts_References (tcv_state c)))"

section \<open>Conversion succeeds and is independent of the order of the map\<close>

text \<open>The references a route has when each was set from the reference that was resolved, as the validator does.\<close>

definition http_reference_ok :: "ResolvedReference \<Rightarrow> bool" where
  "http_reference_ok r \<longleftrightarrow> rf_Type r = ConsulServiceReference \<and> rf_Consul r \<noteq> None \<and> bf_HTTPRef (rf_Reference r) \<noteq> None"

definition http_references_ok :: "RouteRuleReferenceMap \<Rightarrow> bool" where
  "http_references_ok m \<longleftrightarrow> list_all (\<lambda>(rule, refs). ru_HTTPRule rule \<noteq> None \<and> list_all http_reference_ok refs) m"

text \<open>A filter whose type the code knows has the settings for its type, as the Gateway API documents it.\<close>

definition filter_set :: "GwHTTPRouteFilter \<Rightarrow> bool" where
  "filter_set flt \<longleftrightarrow>
     (gf_Type flt = HTTPRouteFilterRequestHeaderModifier \<longrightarrow> gf_RequestHeaderModifier flt \<noteq> None) \<and>
     (gf_Type flt = HTTPRouteFilterRequestRedirect \<longrightarrow> gf_RequestRedirect flt \<noteq> None) \<and>
     (gf_Type flt = HTTPRouteFilterURLRewrite \<longrightarrow> gf_URLRewrite flt \<noteq> None)"

definition reference_filters_set :: "ResolvedReference \<Rightarrow> bool" where
  "reference_filters_set r \<longleftrightarrow> list_all filter_set (hbr_Filters (the (bf_HTTPRef (rf_Reference r))))"

definition filters_set :: "RouteRuleReferenceMap \<Rightarrow> bool" where
  "filters_set m \<longleftrightarrow> list_all (\<lambda>(rule, refs).
     list_all filter_set (ghr_Filters (snd (the (ru_HTTPRule rule)))) \<and> list_all reference_filters_set refs) m"

definition converted_filters :: "GwHTTPRouteFilter list \<Rightarrow> HTTPFilter list" where
  "converted_filters fs = concat (map (\<lambda>f. the (convert_filter f)) fs)"

lemma convert_filter_None: "convert_filter f = None \<longleftrightarrow> \<not> filter_set f"
  by (auto simp: convert_filter_def filter_set_def)

lemma convertHTTPRouteFilters_eq:
  "convertHTTPRouteFilters fs = (if list_all filter_set fs then Some (converted_filters fs) else None)"
proof (induction fs)
  case (Cons f fs)
  show ?case
    using Cons convert_filter_None [of f] by (cases "convert_filter f") (auto simp: converted_filters_def)
qed (simp add: converted_filters_def)

definition service_of :: "ResolvedReference \<Rightarrow> HTTPService" where
  "service_of r =
     \<lparr>hs_Service = \<lparr>rs_ConsulNamespace = cs_Namespace (the (rf_Consul r)), rs_Service = cs_Name (the (rf_Consul r))\<rparr>,
      hs_Weight = (case br_Weight (the (bf_HTTPRef (rf_Reference r))) of None \<Rightarrow> 1 | Some weight \<Rightarrow> weight),
      hs_Filters = converted_filters (hbr_Filters (the (bf_HTTPRef (rf_Reference r))))\<rparr>"

definition rule_of :: "RouteRule \<times> ResolvedReference list \<Rightarrow> HTTPRouteRule" where
  "rule_of e =
     \<lparr>rr_Matches = map convert_match (ghr_Matches (snd (the (ru_HTTPRule (fst e))))),
      rr_Filters = converted_filters (ghr_Filters (snd (the (ru_HTTPRule (fst e))))),
      rr_Services = map service_of (snd e)\<rparr>"

lemma convert_references_ok:
  "list_all http_reference_ok refs \<Longrightarrow>
   convert_references refs = (if list_all reference_filters_set refs then Some (map service_of refs) else None)"
  by (induction refs)
    (auto simp: http_reference_ok_def service_of_def reference_filters_set_def convertHTTPRouteFilters_eq split: if_splits)

lemma convert_rule_ok:
  assumes "ru_HTTPRule rule \<noteq> None" and "list_all http_reference_ok refs"
  shows "convert_rule (rule, refs) =
    (if list_all filter_set (ghr_Filters (snd (the (ru_HTTPRule rule)))) \<and> list_all reference_filters_set refs
     then Some (rule_of (rule, refs)) else None)"
  using assms(1)
  by (auto simp: convert_rule_def rule_of_def convert_references_ok [OF assms(2)] convertHTTPRouteFilters_eq split: if_splits)

lemma httpReferencesToRules_ok:
  "http_references_ok m \<Longrightarrow> httpReferencesToRules m = (if filters_set m then Some (map rule_of m) else None)"
  by (induction m) (auto simp: http_references_ok_def filters_set_def convert_rule_ok split: if_splits)

lemma lookup_httpHeadersToMap_loop:
  "map_of (httpHeadersToMap_loop hs m) k =
   (case find (\<lambda>h. hh_Name h = k) (rev hs) of Some h \<Rightarrow> Some (hh_Value h) | None \<Rightarrow> map_of m k)"
proof (induction hs arbitrary: m)
  case (Cons h hs)
  have "find P (xs @ ys) = (case find P xs of None \<Rightarrow> find P ys | Some x \<Rightarrow> Some x)" for P and xs ys :: "GwHTTPHeader list"
    by (induction xs) auto
  then show ?case
    using Cons by (auto simp: update_conv' split: option.splits)
qed simp

text \<open>The hostnames of a converted route.\<close>

definition route_hostnames :: "GwHTTPRoute \<Rightarrow> string \<Rightarrow> string list" where
  "route_hostnames r hostname =
     (if ghrt_Hostnames r \<noteq> [] then ghrt_Hostnames r else if hostname = '''' then [''*''] else [hostname])"

lemma HTTPConvert_ok:
  assumes "http_references_ok (rts_References (hc_state c))"
  shows "HTTPRouteConverter_Convert c =
    (if filters_set (rts_References (hc_state c))
     then Some (RHTTPRoute
       \<lparr>cr_Meta = hc_meta c, cr_Name = hc_prefix c @ om_Name (ghrt_Meta (hc_route c)), cr_Namespace = hc_namespace c,
        ht_Hostnames = route_hostnames (hc_route c) (hc_hostname c), ht_Rules = map rule_of (rts_References (hc_state c))\<rparr>)
     else None)"
  by (simp add: HTTPRouteConverter_Convert_def httpReferencesToRules_ok [OF assms] HTTPRouteBuilder_Build_def
      NewHTTPRouteBuilder_def route_hostnames_def Let_def)

text \<open>C13: conversion of an HTTP route. When every reference was set from the backend it was resolved for, the
  conversion reads a nil pointer exactly when a filter of a rule or of a backend has a known type and no settings for it. Otherwise the
  route has the listener's namespace and at least one hostname, its own or
  the listener's or \<open>*\<close>, and for each rule with a resolved backend one rule with its matches, its filters and one service per resolved
  reference, with the weight 1 where none is given. The order in which Go ranges over the reference map only
  permutes the rules.\<close>

theorem HTTPConvert_any_order:
  assumes "http_references_ok (rts_References (hc_state c))"
    and "mset m = mset (rts_References (hc_state c))"
  shows "if filters_set (rts_References (hc_state c))
    then \<exists>r r'. HTTPRouteConverter_Convert c = Some (RHTTPRoute r) \<and>
      HTTPRouteConverter_Convert (c\<lparr>hc_state := (hc_state c)\<lparr>rts_References := m\<rparr>\<rparr>) = Some (RHTTPRoute r') \<and>
      mset (ht_Rules r') = mset (ht_Rules r) \<and> r' = r\<lparr>ht_Rules := ht_Rules r'\<rparr> \<and>
      cr_Namespace r = hc_namespace c \<and> ht_Hostnames r = route_hostnames (hc_route c) (hc_hostname c) \<and> ht_Hostnames r \<noteq> [] \<and>
      ht_Rules r = map rule_of (rts_References (hc_state c))
    else HTTPRouteConverter_Convert c = None \<and>
      HTTPRouteConverter_Convert (c\<lparr>hc_state := (hc_state c)\<lparr>rts_References := m\<rparr>\<rparr>) = None"
proof -
  have "set m = set (rts_References (hc_state c))"
    by (rule mset_eq_setD [OF assms(2)])
  then have m: "http_references_ok m" and f: "filters_set m = filters_set (rts_References (hc_state c))"
    using assms(1) by (simp_all add: http_references_ok_def filters_set_def list_all_iff)
  have "mset (map rule_of m) = mset (map rule_of (rts_References (hc_state c)))"
    using assms(2) by simp
  moreover have "route_hostnames (hc_route c) (hc_hostname c) \<noteq> []"
    by (simp add: route_hostnames_def)
  ultimately show ?thesis
    using HTTPConvert_ok [OF assms(1)] HTTPConvert_ok [of "c\<lparr>hc_state := (hc_state c)\<lparr>rts_References := m\<rparr>\<rparr>"] m f by simp
qed

text \<open>A route of two rules, one with a weighted backend.\<close>

definition sample_reference :: "32 word option \<Rightarrow> ResolvedReference" where
  "sample_reference weight =
     \<lparr>rf_Type = ConsulServiceReference, rf_Reference =
        \<lparr>bf_HTTPRef = Some \<lparr>bo_Group = None, bo_Kind = None, bo_Name = ''web'', bo_Namespace = None, bo_Port = Some 80,
           br_Weight = weight, hbr_Filters = []\<rparr>, bf_BackendRef = None\<rparr>,
      rf_Consul = Some \<lparr>cs_Namespace = ''ns'', cs_Name = ''web''\<rparr>\<rparr>"

definition sample_rule :: "nat \<Rightarrow> RouteRule" where
  "sample_rule p = NewRouteRule (HTTPRulePointer p \<lparr>ghr_Matches = [], ghr_Filters = [], ghr_BackendRefs = []\<rparr>)"

definition sample_http_route :: GwHTTPRoute where
  "sample_http_route = \<lparr>ghrt_Meta = new_meta ''r'' ''k'' [],
     ghrt_ParentRefs = [], ghrt_Hostnames = [], ghrt_Rules = [], ghrt_Parents = []\<rparr>"

definition sample_converter :: HTTPRouteConverter where
  "sample_converter = \<lparr>hc_namespace = ''n'', hc_hostname = '''', hc_prefix = ''p_'', hc_meta = [], hc_route = sample_http_route,
     hc_state = NewRouteState\<lparr>rts_References := [(sample_rule 1, [sample_reference None]), (sample_rule 2, [sample_reference (Some 3)])]\<rparr>\<rparr>"

theorem HTTPConvert_any_order_witness:
  "\<exists>r. HTTPRouteConverter_Convert sample_converter = Some (RHTTPRoute r) \<and> ht_Hostnames r = [''*''] \<and>
    map (map hs_Weight \<circ> rr_Services) (ht_Rules r) = [[1], [3]]"
proof -
  have "http_references_ok (rts_References (hc_state sample_converter))"
    by (simp add: sample_converter_def http_references_ok_def http_reference_ok_def sample_rule_def sample_reference_def)
  moreover have "filters_set (rts_References (hc_state sample_converter))"
    by (simp add: sample_converter_def filters_set_def reference_filters_set_def sample_rule_def sample_reference_def)
  ultimately obtain r where
    r: "HTTPRouteConverter_Convert sample_converter = Some (RHTTPRoute r)"
    "ht_Hostnames r = route_hostnames (hc_route sample_converter) (hc_hostname sample_converter)"
    "ht_Rules r = map rule_of (rts_References (hc_state sample_converter))"
    using HTTPConvert_any_order [of sample_converter, OF _ refl] by (auto split: if_splits)
  then show ?thesis
    by (simp add: route_hostnames_def sample_converter_def sample_http_route_def new_meta_def rule_of_def service_of_def sample_reference_def)
qed

text \<open>A TCP route with at most one reference.\<close>

lemma TCPConvert_single:
  assumes "rf_Type ref = ConsulServiceReference" and "rf_Consul ref = Some s"
    and "rts_References (tcv_state c) = [(rule, [ref])]"
  shows "TCPRouteConverter_Convert c = Some (RTCPRoute
    \<lparr>cr_Meta = tcv_meta c, cr_Name = om_Name (gtrt_Meta (tcv_route c)), cr_Namespace = tcv_namespace c,
     tc_Service = \<lparr>rs_ConsulNamespace = cs_Namespace s, rs_Service = cs_Name s\<rparr>\<rparr>)"
  using assms by (simp add: TCPRouteConverter_Convert_def TCPRouteBuilder_Build_def NewTCPRouteBuilder_def)

end
