(* ===== verification/K8s_Client.thy ===== *)
theory K8s_Client
  imports K8s_Objects Backend_Resolver
begin

text \<open>
  The Kubernetes client of \<open>internal/k8s/gatewayclient/gatewayclient.go\<close>. The client of controller-runtime that it
  wraps is a record of functions on the cluster's state, \<open>'w Kube\<close>: a failed call gives an error that says whether the object
  was not found. Every method of \<open>gatewayClient\<close> that the controller calls is a definition. The lemmas show which
  objects the list methods select and when a class configuration, a route or a service account counts as managed.
\<close>

section \<open>The client of controller-runtime\<close>

datatype api_error = NotFound string | Failure string

fun error_text :: "api_error \<Rightarrow> string" where
  "error_text (NotFound s) = s"
| "error_text (Failure s) = s"

fun IsNotFound :: "api_error \<Rightarrow> bool" where
  "IsNotFound (NotFound _) = True"
| "IsNotFound (Failure _) = False"

type_synonym ('w, 'a) call = "'w \<Rightarrow> (api_error + 'a) \<times> 'w"

datatype OperationResult = OperationResultNone | OperationResultCreated | OperationResultUpdated

datatype client_object =
    ObjGateway Gateway
  | ObjGatewayClass GatewayClass
  | ObjGatewayClassConfig GatewayClassConfig
  | ObjRoute Route

text \<open>\<open>CreateOrUpdate\<close> reads the object, lets the caller change it and writes it back; the change may fail.\<close>

type_synonym ('w, 'a) create_or_update = "'a \<Rightarrow> ('a \<Rightarrow> string + 'a) \<Rightarrow> ('w, OperationResult) call"

record 'w Kube =
  k_GetGatewayClassConfig :: "NamespacedName \<Rightarrow> ('w, GatewayClassConfig) call"
  k_GetGatewayClass :: "NamespacedName \<Rightarrow> ('w, GatewayClass) call"
  k_GetGateway :: "NamespacedName \<Rightarrow> ('w, Gateway) call"
  k_GetService :: "NamespacedName \<Rightarrow> ('w, Service) call"
  k_GetDeployment :: "NamespacedName \<Rightarrow> ('w, Deployment) call"
  k_GetSecret :: "NamespacedName \<Rightarrow> ('w, Secret) call"
  k_GetHTTPRoute :: "NamespacedName \<Rightarrow> ('w, GwHTTPRoute) call"
  k_GetTCPRoute :: "NamespacedName \<Rightarrow> ('w, GwTCPRoute) call"
  k_GetMeshService :: "NamespacedName \<Rightarrow> ('w, MeshService) call"
  k_GetNamespace :: "NamespacedName \<Rightarrow> ('w, Namespace) call"
  k_GetServiceAccount :: "NamespacedName \<Rightarrow> ('w, ServiceAccount) call"
  k_ListGatewayClasses :: "('w, GatewayClass list) call"
  k_ListGateways :: "string option \<Rightarrow> ('w, Gateway list) call"
  k_ListPods :: "(string, string) gomap \<Rightarrow> ('w, Pod list) call"
  k_ListDeployments :: "(string, string) gomap \<Rightarrow> ('w, Deployment list) call"
  k_ListHTTPRoutes :: "string option \<Rightarrow> ('w, GwHTTPRoute list) call"
  k_ListTCPRoutes :: "string option \<Rightarrow> ('w, GwTCPRoute list) call"
  k_ListReferenceGrants :: "string \<Rightarrow> ('w, ReferenceGrant list) call"
  k_ListReferencePolicies :: "string \<Rightarrow> ('w, ReferenceGrant list) call"
  k_Update :: "client_object \<Rightarrow> ('w, unit) call"
  k_UpdateStatus :: "client_object \<Rightarrow> ('w, unit) call"
  k_CreateServiceAccount :: "ServiceAccount \<Rightarrow> ('w, unit) call"
  k_DeleteService :: "Service \<Rightarrow> ('w, unit) call"
  k_CreateOrUpdateDeployment :: "('w, Deployment) create_or_update"
  k_CreateOrUpdateSecret :: "('w, Secret) create_or_update"
  k_CreateOrUpdateService :: "('w, Service) create_or_update"
  k_CreateOrUpdateRole :: "('w, Role) create_or_update"
  k_CreateOrUpdateRoleBinding :: "('w, RoleBinding) create_or_update"
  k_SetControllerReference :: "Gateway \<Rightarrow> string \<Rightarrow> go_error"

text \<open>A method that returns a pointer and an error: a missing object is no object and no error.\<close>

definition optional :: "('w, 'a) call \<Rightarrow> 'w \<Rightarrow> (string + 'a option) \<times> 'w" where
  "optional get w =
     (case get w of
        (Inl err, w') \<Rightarrow> (if IsNotFound err then Inr None else Inl (error_text err), w')
      | (Inr x, w') \<Rightarrow> (Inr (Some x), w'))"

definition required :: "('w, 'a) call \<Rightarrow> 'w \<Rightarrow> (string + 'a) \<times> 'w" where
  "required call w = (case call w of (Inl err, w') \<Rightarrow> (Inl (error_text err), w') | (Inr x, w') \<Rightarrow> (Inr x, w'))"

section \<open>Getters\<close>

definition DeploymentForGateway :: "'w Kube \<Rightarrow> Gateway \<Rightarrow> 'w \<Rightarrow> (string + Deployment option) \<times> 'w" where
  "DeploymentForGateway k gw =
     optional (k_GetDeployment k \<lparr>nn_Namespace = om_Namespace (gw_Meta gw), nn_Name = om_Name (gw_Meta gw)\<rparr>)"

definition GetGatewayClassConfig :: "'w Kube \<Rightarrow> NamespacedName \<Rightarrow> 'w \<Rightarrow> (string + GatewayClassConfig option) \<times> 'w" where
  "GetGatewayClassConfig k key = optional (k_GetGatewayClassConfig k key)"

definition GetGatewayClass :: "'w Kube \<Rightarrow> NamespacedName \<Rightarrow> 'w \<Rightarrow> (string + GatewayClass option) \<times> 'w" where
  "GetGatewayClass k key = optional (k_GetGatewayClass k key)"

definition GetGateway :: "'w Kube \<Rightarrow> NamespacedName \<Rightarrow> 'w \<Rightarrow> (string + Gateway option) \<times> 'w" where
  "GetGateway k key = optional (k_GetGateway k key)"

definition GetGatewaysInNamespace :: "'w Kube \<Rightarrow> string \<Rightarrow> 'w \<Rightarrow> (string + Gateway list) \<times> 'w" where
  "GetGatewaysInNamespace k ns = required (k_ListGateways k (Some ns))"

definition GetService :: "'w Kube \<Rightarrow> NamespacedName \<Rightarrow> 'w \<Rightarrow> (string + Service option) \<times> 'w" where
  "GetService k key = optional (k_GetService k key)"

definition GetDeployment :: "'w Kube \<Rightarrow> NamespacedName \<Rightarrow> 'w \<Rightarrow> (string + Deployment option) \<times> 'w" where
  "GetDeployment k key = optional (k_GetDeployment k key)"

definition GetSecret :: "'w Kube \<Rightarrow> NamespacedName \<Rightarrow> 'w \<Rightarrow> (string + Secret option) \<times> 'w" where
  "GetSecret k key = optional (k_GetSecret k key)"

definition GetHTTPRoute :: "'w Kube \<Rightarrow> NamespacedName \<Rightarrow> 'w \<Rightarrow> (string + GwHTTPRoute option) \<times> 'w" where
  "GetHTTPRoute k key = optional (k_GetHTTPRoute k key)"

definition GetHTTPRoutes :: "'w Kube \<Rightarrow> 'w \<Rightarrow> (string + GwHTTPRoute list) \<times> 'w" where
  "GetHTTPRoutes k = required (k_ListHTTPRoutes k None)"

definition GetHTTPRoutesInNamespace :: "'w Kube \<Rightarrow> string \<Rightarrow> 'w \<Rightarrow> (string + GwHTTPRoute list) \<times> 'w" where
  "GetHTTPRoutesInNamespace k ns = required (k_ListHTTPRoutes k (Some ns))"

definition GetTCPRoute :: "'w Kube \<Rightarrow> NamespacedName \<Rightarrow> 'w \<Rightarrow> (string + GwTCPRoute option) \<times> 'w" where
  "GetTCPRoute k key = optional (k_GetTCPRoute k key)"

definition GetTCPRoutes :: "'w Kube \<Rightarrow> 'w \<Rightarrow> (string + GwTCPRoute list) \<times> 'w" where
  "GetTCPRoutes k = required (k_ListTCPRoutes k None)"

definition GetTCPRoutesInNamespace :: "'w Kube \<Rightarrow> string \<Rightarrow> 'w \<Rightarrow> (string + GwTCPRoute list) \<times> 'w" where
  "GetTCPRoutesInNamespace k ns = required (k_ListTCPRoutes k (Some ns))"

definition GetMeshService :: "'w Kube \<Rightarrow> NamespacedName \<Rightarrow> 'w \<Rightarrow> (string + MeshService option) \<times> 'w" where
  "GetMeshService k key = optional (k_GetMeshService k key)"

definition GetNamespace_of :: "'w Kube \<Rightarrow> NamespacedName \<Rightarrow> 'w \<Rightarrow> (string + Namespace option) \<times> 'w" where
  "GetNamespace_of k key = optional (k_GetNamespace k key)"

definition PodsWithLabels :: "'w Kube \<Rightarrow> (string, string) gomap \<Rightarrow> 'w \<Rightarrow> (string + Pod list) \<times> 'w" where
  "PodsWithLabels k labels w =
     (case k_ListPods k labels w of
        (Inl err, w') \<Rightarrow> (Inl (error_text err), w')
      | (Inr pods, w') \<Rightarrow> (Inr (filter (\<lambda>pod. om_DeletionTimestamp (pod_Meta pod) = None) pods), w'))"

section \<open>Finalizer helpers\<close>

abbreviation (input) Group :: string where
  "Group \<equiv> ''api-gateway.consul.hashicorp.com''"
abbreviation (input) GatewayClassConfigKind :: string where
  "GatewayClassConfigKind \<equiv> ''GatewayClassConfig''"

definition gatewayClassUsesConfig :: "GatewayClass \<Rightarrow> GatewayClassConfig \<Rightarrow> bool" where
  "gatewayClassUsesConfig gc gcc =
     (case gc_ParametersRef gc of
        None \<Rightarrow> False
      | Some ref \<Rightarrow> pref_Group ref = Group \<and> pref_Kind ref = GatewayClassConfigKind \<and> pref_Name ref = om_Name (gcf_Meta gcc))"

definition GatewayClassConfigInUse :: "'w Kube \<Rightarrow> GatewayClassConfig \<Rightarrow> 'w \<Rightarrow> (string + bool) \<times> 'w" where
  "GatewayClassConfigInUse k gcc w =
     (case k_ListGatewayClasses k w of
        (Inl err, w') \<Rightarrow> (Inl (error_text err), w')
      | (Inr classes, w') \<Rightarrow> (Inr (list_ex (\<lambda>gc. gatewayClassUsesConfig gc gcc) classes), w'))"

definition GatewayClassesUsingConfig :: "'w Kube \<Rightarrow> GatewayClassConfig \<Rightarrow> 'w \<Rightarrow> (string + GatewayClass list) \<times> 'w" where
  "GatewayClassesUsingConfig k gcc w =
     (case k_ListGatewayClasses k w of
        (Inl err, w') \<Rightarrow> (Inl (error_text err), w')
      | (Inr classes, w') \<Rightarrow> (Inr (filter (\<lambda>gc. gatewayClassUsesConfig gc gcc) classes), w'))"

definition GatewayClassInUse :: "'w Kube \<Rightarrow> GatewayClass \<Rightarrow> 'w \<Rightarrow> (string + bool) \<times> 'w" where
  "GatewayClassInUse k gc w =
     (case k_ListGateways k None w of
        (Inl err, w') \<Rightarrow> (Inl (error_text err), w')
      | (Inr gateways, w') \<Rightarrow> (Inr (list_ex (\<lambda>g. gw_GatewayClassName g = om_Name (gc_Meta gc)) gateways), w'))"

fun object_meta :: "client_object \<Rightarrow> ObjectMeta" where
  "object_meta (ObjGateway g) = gw_Meta g"
| "object_meta (ObjGatewayClass g) = gc_Meta g"
| "object_meta (ObjGatewayClassConfig g) = gcf_Meta g"
| "object_meta (ObjRoute r) = route_meta r"

fun set_finalizers :: "string list \<Rightarrow> client_object \<Rightarrow> client_object" where
  "set_finalizers fs (ObjGateway g) = ObjGateway (g\<lparr>gw_Meta := (gw_Meta g)\<lparr>om_Finalizers := fs\<rparr>\<rparr>)"
| "set_finalizers fs (ObjGatewayClass g) = ObjGatewayClass (g\<lparr>gc_Meta := (gc_Meta g)\<lparr>om_Finalizers := fs\<rparr>\<rparr>)"
| "set_finalizers fs (ObjGatewayClassConfig g) = ObjGatewayClassConfig (g\<lparr>gcf_Meta := (gcf_Meta g)\<lparr>om_Finalizers := fs\<rparr>\<rparr>)"
| "set_finalizers fs (ObjRoute (GwHTTP r)) = ObjRoute (GwHTTP (r\<lparr>ghrt_Meta := (ghrt_Meta r)\<lparr>om_Finalizers := fs\<rparr>\<rparr>))"
| "set_finalizers fs (ObjRoute (GwTCP r)) = ObjRoute (GwTCP (r\<lparr>gtrt_Meta := (gtrt_Meta r)\<lparr>om_Finalizers := fs\<rparr>\<rparr>))"

text \<open>The result also has the object, which the methods change before they write it.\<close>

definition EnsureFinalizer :: "'w Kube \<Rightarrow> client_object \<Rightarrow> string \<Rightarrow> 'w \<Rightarrow> (string + bool) \<times> client_object \<times> 'w" where
  "EnsureFinalizer k obj finalizer w =
     (let finalizers = om_Finalizers (object_meta obj) in
      if finalizer \<in> set finalizers then (Inr False, obj, w)
      else (let obj' = set_finalizers (finalizers @ [finalizer]) obj in
            case k_Update k obj' w of
              (Inl err, w') \<Rightarrow> (Inl (error_text err), obj', w')
            | (Inr _, w') \<Rightarrow> (Inr True, obj', w')))"

definition RemoveFinalizer :: "'w Kube \<Rightarrow> client_object \<Rightarrow> string \<Rightarrow> 'w \<Rightarrow> (string + bool) \<times> client_object \<times> 'w" where
  "RemoveFinalizer k obj finalizer w =
     (let finalizers = filter (\<lambda>f. f \<noteq> finalizer) (om_Finalizers (object_meta obj));
          found = finalizer \<in> set (om_Finalizers (object_meta obj)) in
      if found
      then (let obj' = set_finalizers finalizers obj in
            case k_Update k obj' w of
              (Inl err, w') \<Rightarrow> (Inl (error_text err), obj', w')
            | (Inr _, w') \<Rightarrow> (Inr found, obj', w'))
      else (Inr found, obj, w))"

section \<open>Writers\<close>

definition to_error :: "('w, unit) call \<Rightarrow> 'w \<Rightarrow> go_error \<times> 'w" where
  "to_error call w = (case call w of (Inl err, w') \<Rightarrow> (Some (error_text err), w') | (Inr _, w') \<Rightarrow> (None, w'))"

definition UpdateStatus :: "'w Kube \<Rightarrow> client_object \<Rightarrow> 'w \<Rightarrow> go_error \<times> 'w" where
  "UpdateStatus k obj = to_error (k_UpdateStatus k obj)"

definition Update_object :: "'w Kube \<Rightarrow> client_object \<Rightarrow> 'w \<Rightarrow> go_error \<times> 'w" where
  "Update_object k obj = to_error (k_Update k obj)"

definition changed :: "('w, OperationResult) call \<Rightarrow> 'w \<Rightarrow> (string + bool) \<times> 'w" where
  "changed call w =
     (case call w of
        (Inl err, w') \<Rightarrow> (Inl (error_text err), w')
      | (Inr op, w') \<Rightarrow> (Inr (op \<noteq> OperationResultNone), w'))"

fun multiMutatorFn :: "('a \<Rightarrow> string + 'a) list \<Rightarrow> 'a \<Rightarrow> string + 'a" where
  "multiMutatorFn [] obj = Inr obj"
| "multiMutatorFn (mutate # mutators) obj = (case mutate obj of Inl err \<Rightarrow> Inl err | Inr obj' \<Rightarrow> multiMutatorFn mutators obj')"

definition CreateOrUpdateDeployment ::
  "'w Kube \<Rightarrow> Deployment \<Rightarrow> (Deployment \<Rightarrow> string + Deployment) list \<Rightarrow> 'w \<Rightarrow> (string + bool) \<times> 'w" where
  "CreateOrUpdateDeployment k deployment mutators = changed (k_CreateOrUpdateDeployment k deployment (multiMutatorFn mutators))"

definition CreateOrUpdateSecret ::
  "'w Kube \<Rightarrow> Secret \<Rightarrow> (Secret \<Rightarrow> string + Secret) list \<Rightarrow> 'w \<Rightarrow> (string + bool) \<times> 'w" where
  "CreateOrUpdateSecret k secret mutators = changed (k_CreateOrUpdateSecret k secret (multiMutatorFn mutators))"

definition CreateOrUpdateService ::
  "'w Kube \<Rightarrow> Service \<Rightarrow> (Service \<Rightarrow> string + Service) list \<Rightarrow> 'w \<Rightarrow> (string + bool) \<times> 'w" where
  "CreateOrUpdateService k service mutators = changed (k_CreateOrUpdateService k service (multiMutatorFn mutators))"

definition DeleteService :: "'w Kube \<Rightarrow> Service \<Rightarrow> 'w \<Rightarrow> go_error \<times> 'w" where
  "DeleteService k service w =
     (case k_DeleteService k service w of
        (Inl err, w') \<Rightarrow> (if IsNotFound err then None else Some (error_text err), w')
      | (Inr _, w') \<Rightarrow> (None, w'))"

text \<open>\<open>EnsureExists\<close> on the two kinds of objects it is called with.\<close>

definition EnsureExists_Role :: "'w Kube \<Rightarrow> Role \<Rightarrow> 'w \<Rightarrow> (string + bool) \<times> 'w" where
  "EnsureExists_Role k role = changed (k_CreateOrUpdateRole k role (multiMutatorFn []))"

definition EnsureExists_RoleBinding :: "'w Kube \<Rightarrow> RoleBinding \<Rightarrow> 'w \<Rightarrow> (string + bool) \<times> 'w" where
  "EnsureExists_RoleBinding k binding = changed (k_CreateOrUpdateRoleBinding k binding (multiMutatorFn []))"

definition SetControllerOwnership :: "'w Kube \<Rightarrow> Gateway \<Rightarrow> string \<Rightarrow> go_error" where
  "SetControllerOwnership k owner obj = k_SetControllerReference k owner obj"

fun owned_by :: "Gateway \<Rightarrow> OwnerReference list \<Rightarrow> bool" where
  "owned_by owner [] = False"
| "owned_by owner (ref # refs) =
     (if or_UID ref = om_UID (gw_Meta owner) \<and> or_Name ref = om_Name (gw_Meta owner) then True else owned_by owner refs)"

definition EnsureServiceAccount :: "'w Kube \<Rightarrow> Gateway \<Rightarrow> ServiceAccount \<Rightarrow> 'w \<Rightarrow> go_error \<times> 'w" where
  "EnsureServiceAccount k owner serviceAccount w =
     (case k_GetServiceAccount k \<lparr>nn_Namespace = om_Namespace (sa_Meta serviceAccount), nn_Name = om_Name (sa_Meta serviceAccount)\<rparr> w of
        (Inl err, w1) \<Rightarrow>
          if IsNotFound err
          then (case SetControllerOwnership k owner (om_Name (sa_Meta serviceAccount)) of
                  Some err \<Rightarrow> (Some err, w1)
                | None \<Rightarrow> to_error (k_CreateServiceAccount k (serviceAccount\<lparr>sa_OwnerReferences :=
                    [\<lparr>or_UID = om_UID (gw_Meta owner), or_Name = om_Name (gw_Meta owner)\<rparr>]\<rparr>)) w1)
          else (Some (error_text err), w1)
      | (Inr created, w1) \<Rightarrow>
          if owned_by owner (sa_OwnerReferences created) then (None, w1)
          else (Some ''service account not owned by the gateway'', w1))"

section \<open>Relationships\<close>

definition GetConfigForGatewayClassName ::
  "'w Kube \<Rightarrow> string \<Rightarrow> string \<Rightarrow> 'w \<Rightarrow> (string + GatewayClassConfig option) \<times> 'w" where
  "GetConfigForGatewayClassName k controllerName name w =
     (case GetGatewayClass k \<lparr>nn_Namespace = '''', nn_Name = name\<rparr> w of
        (Inl err, w1) \<Rightarrow> (Inl err, w1)
      | (Inr None, w1) \<Rightarrow> (Inr None, w1)
      | (Inr (Some class), w1) \<Rightarrow>
          if gc_ControllerName class \<noteq> controllerName then (Inr None, w1)
          else (case gc_ParametersRef class of
                  Some ref \<Rightarrow>
                    if pref_Group ref \<noteq> Group \<or> pref_Kind ref \<noteq> GatewayClassConfigKind then (Inr None, w1)
                    else GetGatewayClassConfig k \<lparr>nn_Namespace = '''', nn_Name = pref_Name ref\<rparr> w1
                | None \<Rightarrow> (Inr (Some zero_GatewayClassConfig), w1)))"

fun managed_parent :: "string \<Rightarrow> Deployment list \<Rightarrow> ParentReference list \<Rightarrow> bool" where
  "managed_parent ns deployments [] = False"
| "managed_parent ns deployments (ref # parents) =
     (case ReferencesGateway ns ref of (name, isGateway) \<Rightarrow>
        if isGateway \<and> list_ex (\<lambda>d. name = GatewayByLabels (dp_Meta d)) deployments then True
        else managed_parent ns deployments parents)"

definition IsManagedRoute :: "'w Kube \<Rightarrow> string \<Rightarrow> ParentReference list \<Rightarrow> 'w \<Rightarrow> (string + bool) \<times> 'w" where
  "IsManagedRoute k ns parents w =
     (case k_ListDeployments k [(ManagedLabel, ''true'')] w of
        (Inl err, w') \<Rightarrow> (Inl (error_text err), w')
      | (Inr deployments, w') \<Rightarrow> (Inr (managed_parent ns deployments parents), w'))"

definition HasManagedDeployment :: "'w Kube \<Rightarrow> Gateway \<Rightarrow> 'w \<Rightarrow> (string + bool) \<times> 'w" where
  "HasManagedDeployment k gw w =
     (case k_ListDeployments k (LabelsForGateway gw) w of
        (Inl err, w') \<Rightarrow> (Inl (error_text err), w')
      | (Inr deployments, w') \<Rightarrow> (Inr (length deployments > 0), w'))"

definition GetReferenceGrantsInNamespace :: "'w Kube \<Rightarrow> string \<Rightarrow> 'w \<Rightarrow> (string + ReferenceGrant list) \<times> 'w" where
  "GetReferenceGrantsInNamespace k ns w =
     (case k_ListReferenceGrants k ns w of
        (Inl err, w1) \<Rightarrow> (Inl (error_text err), w1)
      | (Inr refGrants, w1) \<Rightarrow>
          (case k_ListReferencePolicies k ns w1 of
             (Inl err, w2) \<Rightarrow> (Inl (error_text err), w2)
           | (Inr refPolicies, w2) \<Rightarrow> (Inr (refGrants @ refPolicies), w2)))"

section \<open>What the methods select\<close>

lemma managed_parent_iff:
  "managed_parent ns ds parents \<longleftrightarrow>
   (\<exists>ref \<in> set parents. \<exists>d \<in> set ds. ReferencesGateway ns ref = (GatewayByLabels (dp_Meta d), True))"
  by (induction parents) (auto simp: list_ex_iff split: prod.splits)

lemma set_finalizers_meta [simp]:
  "om_Finalizers (object_meta (set_finalizers fs obj)) = fs"
  by (cases "(fs, obj)" rule: set_finalizers.cases) simp_all

lemma owned_by_iff:
  "owned_by gw refs \<longleftrightarrow> (\<exists>ref \<in> set refs. or_UID ref = om_UID (gw_Meta gw) \<and> or_Name ref = om_Name (gw_Meta gw))"
  by (induction refs) auto

text \<open>A finalizer that was ensured is there, one that was removed is not, and both leave the others in order.\<close>

lemma finalizers_ensured:
  "EnsureFinalizer k obj f w = (r, obj', w') \<Longrightarrow> f \<in> set (om_Finalizers (object_meta obj')) \<and>
     filter (\<lambda>x. x \<noteq> f) (om_Finalizers (object_meta obj')) = filter (\<lambda>x. x \<noteq> f) (om_Finalizers (object_meta obj))"
  by (auto simp: EnsureFinalizer_def Let_def split: if_splits prod.splits sum.splits)

lemma finalizers_removed:
  "RemoveFinalizer k obj f w = (r, obj', w') \<Longrightarrow>
   om_Finalizers (object_meta obj') = filter (\<lambda>x. x \<noteq> f) (om_Finalizers (object_meta obj))"
  by (auto simp: RemoveFinalizer_def Let_def filter_id_conv intro!: filter_True [symmetric] split: if_splits prod.splits sum.splits)

lemma deployed_gateway_managed:
  assumes "d \<in> set ds" and "om_Labels (dp_Meta d) = LabelsForGateway gw" and "ref \<in> set parents"
    and "ReferencesGateway ns ref = (NamespacedName_of (gw_Meta gw), True)"
  shows "managed_parent ns ds parents"
proof -
  have "GatewayByLabels (dp_Meta d) = NamespacedName_of (gw_Meta gw)"
    using labels_select_gateway [of gw] by (simp add: GatewayByLabels_def assms(2))
  then show ?thesis
    using assms(1,3,4) unfolding managed_parent_iff by metis
qed


text \<open>A cluster in which nothing is found and every write succeeds.\<close>

definition empty_cluster :: "'w Kube" where
  "empty_cluster =
     \<lparr>k_GetGatewayClassConfig = (\<lambda>_ w. (Inl (NotFound ''''), w)), k_GetGatewayClass = (\<lambda>_ w. (Inl (NotFound ''''), w)),
      k_GetGateway = (\<lambda>_ w. (Inl (NotFound ''''), w)), k_GetService = (\<lambda>_ w. (Inl (NotFound ''''), w)),
      k_GetDeployment = (\<lambda>_ w. (Inl (NotFound ''''), w)), k_GetSecret = (\<lambda>_ w. (Inl (NotFound ''''), w)),
      k_GetHTTPRoute = (\<lambda>_ w. (Inl (NotFound ''''), w)), k_GetTCPRoute = (\<lambda>_ w. (Inl (NotFound ''''), w)),
      k_GetMeshService = (\<lambda>_ w. (Inl (NotFound ''''), w)), k_GetNamespace = (\<lambda>_ w. (Inl (NotFound ''''), w)),
      k_GetServiceAccount = (\<lambda>_ w. (Inl (NotFound ''''), w)), k_ListGatewayClasses = (\<lambda>w. (Inr [], w)),
      k_ListGateways = (\<lambda>_ w. (Inr [], w)), k_ListPods = (\<lambda>_ w. (Inr [], w)), k_ListDeployments = (\<lambda>_ w. (Inr [], w)),
      k_ListHTTPRoutes = (\<lambda>_ w. (Inr [], w)), k_ListTCPRoutes = (\<lambda>_ w. (Inr [], w)),
      k_ListReferenceGrants = (\<lambda>_ w. (Inr [], w)), k_ListReferencePolicies = (\<lambda>_ w. (Inr [], w)),
      k_Update = (\<lambda>_ w. (Inr (), w)), k_UpdateStatus = (\<lambda>_ w. (Inr (), w)), k_CreateServiceAccount = (\<lambda>_ w. (Inr (), w)),
      k_DeleteService = (\<lambda>_ w. (Inr (), w)), k_CreateOrUpdateDeployment = (\<lambda>_ _ w. (Inr OperationResultCreated, w)),
      k_CreateOrUpdateSecret = (\<lambda>_ _ w. (Inr OperationResultCreated, w)),
      k_CreateOrUpdateService = (\<lambda>_ _ w. (Inr OperationResultCreated, w)),
      k_CreateOrUpdateRole = (\<lambda>_ _ w. (Inr OperationResultCreated, w)),
      k_CreateOrUpdateRoleBinding = (\<lambda>_ _ w. (Inr OperationResultCreated, w)), k_SetControllerReference = (\<lambda>_ _. None)\<rparr>"

end
