(* ===== verification/Gateway_Binder.thy ===== *)
theory Gateway_Binder
  imports Route_Converter K8s_Client
begin

text \<open>
  Gateways, routes and how they are bound: \<open>internal/k8s/reconciler/state/gateway.go\<close>, \<open>gateway.go\<close>, \<open>route.go\<close>, \<open>utils.go\<close> and
  the functions \<open>Bind\<close> and \<open>Unbind\<close>. A gateway's state has one state per listener with the routes bound to it. Binding asks Kubernetes
  for the namespace of a route; the parser of label selectors is a parameter. An index out of range and a nil pointer stop
  the program: \<^const>\<open>None\<close>. The lemmas show which routes are bound to which listeners, and what a gateway resolves to.
\<close>

section \<open>The state of a gateway\<close>

record ListenerState =
  lsn_Routes :: "(string, ResolvedRoute) gomap"
  lsn_Protocol :: string
  lsn_Name :: string
  lsn_TLS :: TLSParams
  lsn_Status :: ListenerStatus

record GatewayState =
  gts_ConsulNamespace :: string
  gts_Status :: GatewayStatus
  gts_PodReady :: bool
  gts_ServiceReady :: bool
  gts_Generation :: int
  gts_Addresses :: "string list"
  gts_Listeners :: "ListenerState list"

definition zero_ListenerStatus :: ListenerStatus where
  "zero_ListenerStatus = \<lparr>lst_Conflicted = zero_ListenerConflictedStatus, lst_Detached = zero_ListenerDetachedStatus,
     lst_Ready = zero_ListenerReadyStatus, lst_ResolvedRefs = zero_ListenerResolvedRefsStatus\<rparr>"

definition zero_GatewayStatus :: GatewayStatus where
  "zero_GatewayStatus = \<lparr>gst_Ready = zero_GatewayReadyStatus, gst_Scheduled = zero_GatewayScheduledStatus,
     gst_InSync = zero_GatewayInSyncStatus\<rparr>"

definition InitialGatewayState :: "Gateway \<Rightarrow> GatewayState" where
  "InitialGatewayState g =
     \<lparr>gts_ConsulNamespace = '''', gts_Status = zero_GatewayStatus, gts_PodReady = False, gts_ServiceReady = False,
      gts_Generation = om_Generation (gw_Meta g), gts_Addresses = [],
      gts_Listeners = map (\<lambda>listener. \<lparr>lsn_Routes = [], lsn_Protocol = li_Protocol listener, lsn_Name = li_Name listener,
        lsn_TLS = zero_TLSParams, lsn_Status = zero_ListenerStatus\<rparr>) (gw_Listeners g)\<rparr>"

definition ListenerState_Valid :: "ListenerState \<Rightarrow> bool" where
  "ListenerState_Valid l =
     (let routeCount = length (lsn_Routes l) in
      if lsn_Protocol l = TCPProtocolType \<and> routeCount > 1 then False else ListenerStatus_Valid (lsn_Status l))"

text \<open>\<open>getStatus\<close> also sets the conflict of a TCP listener. The number of routes is converted to \<open>int32\<close>.\<close>

definition ListenerState_getStatus :: "ListenerState \<Rightarrow> int \<Rightarrow> string \<Rightarrow> GwListenerStatus \<times> ListenerState" where
  "ListenerState_getStatus l generation now =
     (let routeCount = length (lsn_Routes l);
          conflicted = lst_Conflicted (lsn_Status l);
          l = (if lsn_Protocol l = TCPProtocolType
               then l\<lparr>lsn_Status := (lsn_Status l)\<lparr>lst_Conflicted := conflicted\<lparr>lcf_RouteConflict :=
                      (if routeCount > 1 then Some ''only a single TCP route can be bound to a TCP listener'' else None)\<rparr>\<rparr>\<rparr>
               else l) in
      (\<lparr>gls_Name = lsn_Name l, gls_SupportedKinds = SupportedKindsFor (lsn_Protocol l), gls_AttachedRoutes = word_of_nat routeCount,
        gls_Conditions = ListenerStatus_Conditions (lsn_Status l) generation now\<rparr>, l))"

definition GetStatus :: "GatewayState \<Rightarrow> Gateway \<Rightarrow> string \<Rightarrow> GwGatewayStatus \<times> GatewayState" where
  "GetStatus g gateway now =
     (let results = map (\<lambda>state. ListenerState_getStatus state (gts_Generation g) now) (gts_Listeners g);
          listenerStatuses = map fst results;
          conditions = GatewayStatus_Conditions (gts_Status g) (gts_Generation g) now;
          listenerStatuses = (if ListenerStatusesEqual listenerStatuses (ggs_Listeners (gw_Status gateway))
            then ggs_Listeners (gw_Status gateway) else listenerStatuses);
          conditions = (if ConditionsEqual conditions (ggs_Conditions (gw_Status gateway))
            then ggs_Conditions (gw_Status gateway) else conditions);
          addresses = map (\<lambda>address. \<lparr>ga_Type = Some ''IPAddress'', ga_Value = address\<rparr>) (gts_Addresses g) in
      (\<lparr>ggs_Addresses = addresses, ggs_Conditions = conditions, ggs_Listeners = listenerStatuses\<rparr>,
       g\<lparr>gts_Listeners := map snd results\<rparr>))"

section \<open>Routes\<close>

record K8sRoute =
  kr_Route :: Route
  kr_State :: RouteState

definition HTTPRouteID :: "NamespacedName \<Rightarrow> string" where
  "HTTPRouteID namespacedName = ''http-'' @ NamespacedName_String namespacedName"

definition TCPRouteID :: "NamespacedName \<Rightarrow> string" where
  "TCPRouteID namespacedName = ''tcp-'' @ NamespacedName_String namespacedName"

definition K8sRoute_ID :: "K8sRoute \<Rightarrow> string" where
  "K8sRoute_ID r =
     (case kr_Route r of
        GwHTTP route \<Rightarrow> HTTPRouteID (NamespacedName_of (ghrt_Meta route))
      | GwTCP route \<Rightarrow> TCPRouteID (NamespacedName_of (gtrt_Meta route)))"

fun labels_match :: "string list \<Rightarrow> string list \<Rightarrow> bool" where
  "labels_match (x # xs) (y # ys) = (if \<not> equal_fold x y then False else labels_match xs ys)"
| "labels_match xs ys = True"

definition hostnamesMatch :: "string \<Rightarrow> string \<Rightarrow> bool" where
  "hostnamesMatch a b =
     (if a = '''' \<or> a = ''*'' \<or> b = '''' \<or> b = ''*'' then True
      else if has_prefix a ''*.'' \<or> has_prefix b ''*.''
      then (let aLabels = split_on (CHR ''.'') a; bLabels = split_on (CHR ''.'') b in
            if length aLabels \<noteq> length bLabels then False else labels_match (tl aLabels) (tl bLabels))
      else a = b)"

definition routeMatchesListenerHostname :: "string option \<Rightarrow> string list \<Rightarrow> bool" where
  "routeMatchesListenerHostname listenerHostname hostnames =
     (case listenerHostname of
        None \<Rightarrow> True
      | Some h \<Rightarrow> if length hostnames = 0 then True else list_ex (\<lambda>name. hostnamesMatch name h) hostnames)"

definition matchesHostname :: "K8sRoute \<Rightarrow> string option \<Rightarrow> bool" where
  "matchesHostname r hostname =
     (case kr_Route r of
        GwHTTP route \<Rightarrow> routeMatchesListenerHostname hostname (ghrt_Hostnames route)
      | GwTCP _ \<Rightarrow> True)"

definition commonRouteSpec :: "K8sRoute \<Rightarrow> ParentReference list" where
  "commonRouteSpec r = (case kr_Route r of GwHTTP route \<Rightarrow> ghrt_ParentRefs route | GwTCP route \<Rightarrow> gtrt_ParentRefs route)"

definition routeStatus :: "K8sRoute \<Rightarrow> RouteParentStatus list" where
  "routeStatus r = (case kr_Route r of GwHTTP route \<Rightarrow> ghrt_Parents route | GwTCP route \<Rightarrow> gtrt_Parents route)"

definition setStatus :: "K8sRoute \<Rightarrow> RouteParentStatus list \<Rightarrow> K8sRoute" where
  "setStatus r updated =
     r\<lparr>kr_Route := (case kr_Route r of
        GwHTTP route \<Rightarrow> GwHTTP (route\<lparr>ghrt_Parents := updated\<rparr>)
      | GwTCP route \<Rightarrow> GwTCP (route\<lparr>gtrt_Parents := updated\<rparr>))\<rparr>"

definition listenerHostname :: "Listener \<Rightarrow> string" where
  "listenerHostname listener = (case li_Hostname listener of Some h \<Rightarrow> h | None \<Rightarrow> '''')"

definition listenerName :: "Listener \<Rightarrow> string" where
  "listenerName listener = (if li_Name listener \<noteq> '''' then li_Name listener else ''default'')"

definition route_prefix :: "Gateway \<Rightarrow> string" where
  "route_prefix gateway = ''consul-api-gateway_'' @ om_Name (gw_Meta gateway) @ ''_''"

definition K8sRoute_resolve :: "K8sRoute \<Rightarrow> string \<Rightarrow> Gateway \<Rightarrow> Listener \<Rightarrow> ResolvedRoute option" where
  "K8sRoute_resolve r ns gateway listener =
     (let hostname = listenerHostname listener in
      case kr_Route r of
        GwHTTP route \<Rightarrow> HTTPRouteConverter_Convert
          \<lparr>hc_namespace = ns, hc_hostname = hostname, hc_prefix = route_prefix gateway,
           hc_meta = [(''external-source'', ''consul-api-gateway''),
             (''consul-api-gateway/k8s/Gateway.Name'', om_Name (gw_Meta gateway)),
             (''consul-api-gateway/k8s/Gateway.Namespace'', om_Namespace (gw_Meta gateway)),
             (''consul-api-gateway/k8s/HTTPRoute.Name'', om_Name (ghrt_Meta route)),
             (''consul-api-gateway/k8s/HTTPRoute.Namespace'', om_Namespace (ghrt_Meta route))],
           hc_route = route, hc_state = kr_State r\<rparr>
      | GwTCP route \<Rightarrow> TCPRouteConverter_Convert
          \<lparr>tcv_namespace = ns, tcv_hostname = hostname,
           tcv_meta = [(''external-source'', ''consul-api-gateway''),
             (''consul-api-gateway/k8s/Gateway.Name'', om_Name (gw_Meta gateway)),
             (''consul-api-gateway/k8s/Gateway.Namespace'', om_Namespace (gw_Meta gateway)),
             (''consul-api-gateway/k8s/TCPRoute.Name'', om_Name (gtrt_Meta route)),
             (''consul-api-gateway/k8s/TCPRoute.Namespace'', om_Namespace (gtrt_Meta route))],
           tcv_route = route, tcv_state = kr_State r\<rparr>)"

section \<open>Gateways\<close>

record K8sGateway =
  kg_Gateway :: Gateway
  kg_State :: GatewayState
  kg_Config :: GatewayClassConfig

definition K8sGateway_ID :: "K8sGateway \<Rightarrow> GatewayID" where
  "K8sGateway_ID g = \<lparr>gid_ConsulNamespace = gts_ConsulNamespace (kg_State g), gid_Service = om_Name (gw_Meta (kg_Gateway g))\<rparr>"

definition resolveListener :: "ListenerState \<Rightarrow> Listener \<Rightarrow> ResolvedListener" where
  "resolveListener state listener =
     \<lparr>rl_Name = listenerName listener, rl_Hostname = listenerHostname listener, rl_Port = li_Port listener,
      rl_Protocol = fst (ProtocolToConsul (lsn_Protocol state)), rl_TLS = lsn_TLS state, rl_Routes = map snd (lsn_Routes state)\<rparr>"

fun resolve_listeners :: "Listener list \<Rightarrow> ListenerState list \<Rightarrow> ResolvedListener list option" where
  "resolve_listeners [] states = Some []"
| "resolve_listeners (l # ls) [] = None"
| "resolve_listeners (l # ls) (state # states) = do {
     listeners \<leftarrow> resolve_listeners ls states;
     Some (if ListenerState_Valid state then resolveListener state l # listeners else listeners)
   }"

definition K8sGateway_Resolve :: "K8sGateway \<Rightarrow> ResolvedGateway option" where
  "K8sGateway_Resolve g =
     map_option (\<lambda>listeners.
       \<lparr>rg_ID = K8sGateway_ID g,
        rg_Meta = [(''external-source'', ''consul-api-gateway''),
          (''consul-api-gateway/k8s/Gateway.Name'', om_Name (gw_Meta (kg_Gateway g))),
          (''consul-api-gateway/k8s/Gateway.Namespace'', om_Namespace (gw_Meta (kg_Gateway g)))],
        rg_Listeners = listeners,
        rg_MaxConnections = cms_MaxConnections (gcc_ConnectionManagement (gcf_Spec (kg_Config g)))\<rparr>)
       (resolve_listeners (gw_Listeners (kg_Gateway g)) (gts_Listeners (kg_State g)))"

definition CanFetchSecrets :: "K8sGateway \<Rightarrow> string list \<Rightarrow> bool" where
  "CanFetchSecrets g secrets =
     (let certificates = concat (map (\<lambda>l. tls_Certificates (lsn_TLS l)) (gts_Listeners (kg_State g))) in
      list_all (\<lambda>secret. secret \<in> set certificates) secrets)"

section \<open>Binding\<close>

text \<open>What binding calls: the Kubernetes client and the parser of label selectors, which gives the set of labels that match.\<close>

type_synonym selector_parser = "LabelSelector option \<Rightarrow> string + ((string, string) gomap \<Rightarrow> bool)"

record 'w Binder =
  bi_Client :: "'w Kube"
  bi_selector :: selector_parser
  bi_texts :: Texts

abbreviation (input) NamespaceNameLabel :: string where
  "NamespaceNameLabel \<equiv> ''kubernetes.io/metadata.name''"

definition routeMatchesListener :: "string \<Rightarrow> string option \<Rightarrow> bool \<times> bool" where
  "routeMatchesListener lname routeSectionName =
     (case routeSectionName of None \<Rightarrow> (True, False) | Some s \<Rightarrow> (lname = s, True))"

definition toNamespaceSet :: "string \<Rightarrow> (string, string) gomap \<Rightarrow> (string, string) gomap" where
  "toNamespaceSet name labels =
     (if get_string labels NamespaceNameLabel = name then labels else AList.update NamespaceNameLabel name labels)"

fun routeKindIsAllowed_loop :: "RouteGroupKind list \<Rightarrow> GroupKind \<Rightarrow> bool" where
  "routeKindIsAllowed_loop [] gvk = False"
| "routeKindIsAllowed_loop (kind # kinds) gvk =
     (let group = (case rgk_Group kind of Some grp \<Rightarrow> if grp \<noteq> '''' then grp else GroupName | None \<Rightarrow> GroupName) in
      if rgk_Kind kind = gk_Kind gvk \<and> group = gk_Group gvk then True else routeKindIsAllowed_loop kinds gvk)"

definition routeKindIsAllowedForListener :: "RouteGroupKind list option \<Rightarrow> K8sRoute \<Rightarrow> bool" where
  "routeKindIsAllowedForListener kinds route =
     (case kinds of
        None \<Rightarrow> True
      | Some ks \<Rightarrow> routeKindIsAllowed_loop ks (om_GroupVersionKind (route_meta (kr_Route route))))"

definition routeAllowedForListenerNamespaces ::
  "'w Binder \<Rightarrow> string \<Rightarrow> AllowedRoutes option \<Rightarrow> K8sRoute \<Rightarrow> 'w \<Rightarrow> ((string + bool) \<times> 'w) option" where
  "routeAllowedForListenerNamespaces b gatewayNS allowedRoutes route w =
     (let namespaceSelector = (case allowedRoutes of None \<Rightarrow> None | Some a \<Rightarrow> ar_Namespaces a);
          from = (case namespaceSelector of
                    None \<Rightarrow> ''Same''
                  | Some s \<Rightarrow> (case rn_From s of None \<Rightarrow> ''Same'' | Some f \<Rightarrow> if f = '''' then ''Same'' else f));
          routeNS = om_Namespace (route_meta (kr_Route route)) in
      if from = ''All'' then Some (Inr True, w)
      else if from = ''Same'' then Some (Inr (gatewayNS = routeNS), w)
      else if from = ''Selector''
      then (case bi_selector b (case namespaceSelector of None \<Rightarrow> None | Some s \<Rightarrow> rn_Selector s) of
              Inl err \<Rightarrow> Some (Inl (''error parsing label selector: '' @ err), w)
            | Inr matches \<Rightarrow>
                (case GetNamespace_of (bi_Client b) \<lparr>nn_Namespace = '''', nn_Name = routeNS\<rparr> w of
                   (Inl err, w') \<Rightarrow> Some (Inl (''error retrieving namespace for route: '' @ err), w')
                 | (Inr None, w') \<Rightarrow> None
                 | (Inr (Some n), w') \<Rightarrow> Some (Inr (matches (toNamespaceSet (nsp_Name n) (nsp_Labels n))), w')))
      else Some (Inr False, w))"

definition fail_if :: "bool \<Rightarrow> 'w Binder \<Rightarrow> bind_failure \<Rightarrow> ParentReference \<Rightarrow> K8sRoute \<Rightarrow> K8sRoute" where
  "fail_if must b err ref route = (if must then route\<lparr>kr_State := RouteState_BindFailed (bi_texts b) (kr_State route) err ref\<rparr> else route)"

definition canBind ::
  "'w Binder \<Rightarrow> string \<Rightarrow> Listener \<Rightarrow> ListenerState \<Rightarrow> ParentReference \<Rightarrow> K8sRoute \<Rightarrow> 'w \<Rightarrow> (bool \<times> K8sRoute \<times> 'w) option" where
  "canBind b ns listener state ref route w =
     (if ListenerReadyStatus_HasError (lst_Ready (lsn_Status state)) then Some (False, route, w)
      else (case routeMatchesListener (li_Name listener) (pr_SectionName ref) of (allowed, must) \<Rightarrow>
        if \<not> allowed then Some (False, route, w)
        else if \<not> routeKindIsAllowedForListener (SupportedKindsFor (li_Protocol listener)) route
        then Some (False, fail_if must b (Binding (NewBindErrorRouteKind ''route kind not allowed for listener'')) ref route, w)
        else (case routeAllowedForListenerNamespaces b ns (li_AllowedRoutes listener) route w of
          None \<Rightarrow> None
        | Some (Inl err, w') \<Rightarrow>
            Some (False, fail_if True b (OtherFailure (''error checking listener namespaces: '' @ err)) ref route, w')
        | Some (Inr allowed, w') \<Rightarrow>
            if \<not> allowed
            then Some (False, fail_if must b
              (Binding (NewBindErrorListenerNamespacePolicy ''route not allowed because of listener namespace policy'')) ref route, w')
            else if \<not> matchesHostname route (li_Hostname listener)
            then Some (False, fail_if must b (Binding (NewBindErrorHostnameMismatch ''route does not match listener hostname'')) ref route, w')
            else if \<not> ResolutionErrors_Empty (rts_ResolutionErrors (kr_State route))
            then Some (False, fail_if True b (Binding (NewBindErrorRouteInvalid ''route is in an invalid state and cannot bind'')) ref route, w')
            else Some (True, route\<lparr>kr_State := RouteState_Bound (bi_texts b) (kr_State route) ref\<rparr>, w'))))"

fun bind_listeners ::
  "'w Binder \<Rightarrow> K8sGateway \<Rightarrow> ParentReference \<Rightarrow> Listener list \<Rightarrow> ListenerState list \<Rightarrow> K8sRoute \<Rightarrow> bool \<Rightarrow> 'w
   \<Rightarrow> (bool \<times> ListenerState list \<times> K8sRoute \<times> 'w) option" where
  "bind_listeners b g ref [] states route modified w = Some (modified, states, route, w)"
| "bind_listeners b g ref (l # ls) [] route modified w = None"
| "bind_listeners b g ref (l # ls) (state # states) route modified w =
     (case canBind b (om_Namespace (gw_Meta (kg_Gateway g))) l state ref route w of
        None \<Rightarrow> None
      | Some (True, route', w') \<Rightarrow>
          (case K8sRoute_resolve route' (gts_ConsulNamespace (kg_State g)) (kg_Gateway g) l of
             None \<Rightarrow> None
           | Some resolved \<Rightarrow>
               map_option (\<lambda>(m, ss, r, w''). (m, state\<lparr>lsn_Routes := AList.update (K8sRoute_ID route) resolved (lsn_Routes state)\<rparr> # ss, r, w''))
                 (bind_listeners b g ref ls states route' True w'))
      | Some (False, route', w') \<Rightarrow>
          if has_key (lsn_Routes state) (K8sRoute_ID route)
          then map_option (\<lambda>(m, ss, r, w''). (m, state\<lparr>lsn_Routes := AList.delete (K8sRoute_ID route) (lsn_Routes state)\<rparr> # ss, r, w''))
                 (bind_listeners b g ref ls states route' True w')
          else map_option (\<lambda>(m, ss, r, w''). (m, state # ss, r, w'')) (bind_listeners b g ref ls states route' modified w'))"

fun bind_references ::
  "'w Binder \<Rightarrow> K8sGateway \<Rightarrow> ParentReference list \<Rightarrow> ListenerState list \<Rightarrow> K8sRoute \<Rightarrow> bool \<Rightarrow> 'w
   \<Rightarrow> (bool \<times> ListenerState list \<times> K8sRoute \<times> 'w) option" where
  "bind_references b g [] states route modified w = Some (modified, states, route, w)"
| "bind_references b g (ref # refs) states route modified w =
     (case bind_listeners b g ref (gw_Listeners (kg_Gateway g)) states route modified w of
        None \<Rightarrow> None
      | Some (m, states', route', w') \<Rightarrow> bind_references b g refs states' route' m w')"

fun find_gateway_ref :: "string \<Rightarrow> NamespacedName \<Rightarrow> ParentReference list \<Rightarrow> ParentReference option" where
  "find_gateway_ref ns thisGateway [] = None"
| "find_gateway_ref ns thisGateway (ref # refs) =
     (case ReferencesGateway ns ref of (gatewayReferenced, isGatewayTypeRef) \<Rightarrow>
        if isGatewayTypeRef \<and> gatewayReferenced = thisGateway then Some ref else find_gateway_ref ns thisGateway refs)"

definition removeGatewayStatus :: "'w Binder \<Rightarrow> K8sRoute \<Rightarrow> K8sGateway \<Rightarrow> K8sRoute" where
  "removeGatewayStatus b route gateway =
     (case find_gateway_ref (om_Namespace (route_meta (kr_Route route))) (NamespacedName_of (gw_Meta (kg_Gateway gateway))) (commonRouteSpec route) of
        Some ref \<Rightarrow> route\<lparr>kr_State := RouteState_Remove (bi_texts b) (kr_State route) ref\<rparr>
      | None \<Rightarrow> route)"

definition routeReferencesGateway :: "K8sRoute \<Rightarrow> K8sGateway \<Rightarrow> bool" where
  "routeReferencesGateway route gateway =
     (find_gateway_ref (om_Namespace (route_meta (kr_Route route))) (NamespacedName_of (gw_Meta (kg_Gateway gateway))) (commonRouteSpec route) \<noteq> None)"

fun unbind_listeners :: "'w Binder \<Rightarrow> K8sGateway \<Rightarrow> ListenerState list \<Rightarrow> K8sRoute \<Rightarrow> bool \<times> ListenerState list \<times> K8sRoute" where
  "unbind_listeners b g [] route = (False, [], route)"
| "unbind_listeners b g (state # states) route =
     (if has_key (lsn_Routes state) (K8sRoute_ID route)
      then (case unbind_listeners b g states (removeGatewayStatus b route g) of (_, states', route') \<Rightarrow>
              (True, state\<lparr>lsn_Routes := AList.delete (K8sRoute_ID route) (lsn_Routes state)\<rparr> # states', route'))
      else (case unbind_listeners b g states route of (removed, states', route') \<Rightarrow> (removed, state # states', route')))"

definition set_listeners :: "K8sGateway \<Rightarrow> ListenerState list \<Rightarrow> K8sGateway" where
  "set_listeners g states = g\<lparr>kg_State := (kg_State g)\<lparr>gts_Listeners := states\<rparr>\<rparr>"

definition Unbind :: "'w Binder \<Rightarrow> K8sGateway \<Rightarrow> K8sRoute \<Rightarrow> bool \<times> K8sGateway \<times> K8sRoute" where
  "Unbind b gateway route =
     (case unbind_listeners b gateway (gts_Listeners (kg_State gateway)) route of (removed, states, route') \<Rightarrow>
        (removed, set_listeners gateway states, route'))"

definition Bind :: "'w Binder \<Rightarrow> K8sGateway \<Rightarrow> K8sRoute \<Rightarrow> 'w \<Rightarrow> (bool \<times> K8sGateway \<times> K8sRoute \<times> 'w) option" where
  "Bind b gateway route w =
     (if \<not> routeReferencesGateway route gateway
      then (case Unbind b gateway route of (removed, gateway', route') \<Rightarrow> Some (removed, gateway', route', w))
      else (case bind_references b gateway (commonRouteSpec route) (gts_Listeners (kg_State gateway)) route False w of
              None \<Rightarrow> None
            | Some (modified, states, route', w') \<Rightarrow> Some (modified, set_listeners gateway states, route', w')))"


section \<open>Which routes are bound\<close>

text \<open>Reading a namespace does not change the cluster.\<close>

definition reads_namespaces :: "'w Binder \<Rightarrow> bool" where
  "reads_namespaces b \<longleftrightarrow> (\<exists>r. \<forall>key w. k_GetNamespace (bi_Client b) key w = (r key, w))"

text \<open>Two values of a route that differ only in what it reports to its parents.\<close>

definition same_route :: "K8sRoute \<Rightarrow> K8sRoute \<Rightarrow> bool" where
  "same_route r r' \<longleftrightarrow> r' = r\<lparr>kr_State := (kr_State r)\<lparr>rts_ParentStatuses := rts_ParentStatuses (kr_State r')\<rparr>\<rparr>"

lemma same_route_refl [simp]: "same_route r r"
  by (simp add: same_route_def)

lemma same_route_trans: "same_route r r' \<Longrightarrow> same_route r' r'' \<Longrightarrow> same_route r r''"
  unfolding same_route_def by (metis (no_types, lifting) K8sRoute.surjective K8sRoute.update_convs(2) RouteState.surjective
      RouteState.update_convs(3) K8sRoute.select_convs(2) RouteState.select_convs(3) K8sRoute.ext_inject)

lemma same_routeD:
  assumes "same_route r r'"
  shows "kr_Route r' = kr_Route r" and "rts_ResolutionErrors (kr_State r') = rts_ResolutionErrors (kr_State r)"
    and "rts_References (kr_State r') = rts_References (kr_State r)" and "K8sRoute_ID r' = K8sRoute_ID r"
    and "matchesHostname r' h = matchesHostname r h" and "routeKindIsAllowedForListener k r' = routeKindIsAllowedForListener k r"
    and "commonRouteSpec r' = commonRouteSpec r"
proof -
  show r: "kr_Route r' = kr_Route r" and "rts_ResolutionErrors (kr_State r') = rts_ResolutionErrors (kr_State r)"
    and "rts_References (kr_State r') = rts_References (kr_State r)"
    by (subst assms [unfolded same_route_def], simp)+
  then show "K8sRoute_ID r' = K8sRoute_ID r" "matchesHostname r' h = matchesHostname r h"
    "routeKindIsAllowedForListener k r' = routeKindIsAllowedForListener k r" "commonRouteSpec r' = commonRouteSpec r"
    by (simp_all add: K8sRoute_ID_def matchesHostname_def routeKindIsAllowedForListener_def commonRouteSpec_def split: option.split)
qed

lemma same_route_fail_if [simp]: "same_route r (fail_if must b err ref r)"
  by (simp add: same_route_def fail_if_def RouteState_BindFailed_def)

lemma same_route_Bound [simp]: "same_route r (r\<lparr>kr_State := RouteState_Bound tx (kr_State r) ref\<rparr>)"
  by (simp add: same_route_def RouteState_Bound_def)

lemma same_route_removeGatewayStatus [simp]: "same_route r (removeGatewayStatus b r g)"
  by (simp add: same_route_def removeGatewayStatus_def RouteState_Remove_def split: option.splits)

lemma allowed_namespaces_world:
  assumes "reads_namespaces b" and "kr_Route r' = kr_Route r"
  shows "routeAllowedForListenerNamespaces b ns ar r' w' =
    map_option (\<lambda>(x, _). (x, w')) (routeAllowedForListenerNamespaces b ns ar r w)"
proof -
  obtain f where f: "\<And>key w. k_GetNamespace (bi_Client b) key w = (f key, w)"
    using assms(1) by (auto simp: reads_namespaces_def)
  show ?thesis
    by (simp add: routeAllowedForListenerNamespaces_def assms(2) GetNamespace_of_def optional_def f Let_def split: sum.splits)
qed

lemma canBind_same: "canBind b ns l state ref r w = Some (ok, r', w') \<Longrightarrow> same_route r r'"
  by (auto simp: canBind_def split: if_splits prod.splits option.splits sum.splits)

text \<open>What a listener asks of a route.\<close>

definition admits :: "'w Binder \<Rightarrow> string \<Rightarrow> Listener \<Rightarrow> ListenerState \<Rightarrow> ParentReference \<Rightarrow> K8sRoute \<Rightarrow> 'w \<Rightarrow> bool" where
  "admits b ns l state ref r w \<longleftrightarrow>
     \<not> ListenerReadyStatus_HasError (lst_Ready (lsn_Status state)) \<and>
     pr_SectionName ref \<in> {None, Some (li_Name l)} \<and>
     routeKindIsAllowedForListener (SupportedKindsFor (li_Protocol l)) r \<and>
     (\<exists>w'. routeAllowedForListenerNamespaces b ns (li_AllowedRoutes l) r w = Some (Inr True, w')) \<and>
     matchesHostname r (li_Hostname l) \<and> ResolutionErrors_Empty (rts_ResolutionErrors (kr_State r))"

lemma canBind_admits:
  assumes "canBind b ns l state ref r w = Some (ok, r', w')"
  shows "ok \<longleftrightarrow> admits b ns l state ref r w"
  using assms
  by (auto simp: canBind_def admits_def routeMatchesListener_def split: if_splits prod.splits option.splits sum.splits)

lemma admits_cong:
  assumes "reads_namespaces b" and "same_route r r'" and "lsn_Status state' = lsn_Status state"
  shows "admits b ns l state' ref r' w' = admits b ns l state ref r w"
  using same_routeD [OF assms(2)] allowed_namespaces_world [OF assms(1) same_routeD(1) [OF assms(2)], of ns "li_AllowedRoutes l" w' w]
  by (auto simp: admits_def assms(3))

text \<open>A listener's state before and after: only the entry of one route changes.\<close>

definition only_route :: "string \<Rightarrow> ListenerState \<Rightarrow> ListenerState \<Rightarrow> bool" where
  "only_route rid s s' \<longleftrightarrow> s' = s\<lparr>lsn_Routes := lsn_Routes s'\<rparr> \<and>
     (\<forall>k. k = rid \<or> map_of (lsn_Routes s') k = map_of (lsn_Routes s) k) \<and> (gomap_ok (lsn_Routes s) \<longrightarrow> gomap_ok (lsn_Routes s'))"

lemma only_route_refl [simp]: "only_route rid s s"
  by (simp add: only_route_def)

lemma only_route_trans: "only_route rid s s' \<Longrightarrow> only_route rid s' s'' \<Longrightarrow> only_route rid s s''"
  unfolding only_route_def by (metis (no_types, lifting) ListenerState.surjective ListenerState.update_convs(1))

lemma only_route_Status: "only_route rid s s' \<Longrightarrow> lsn_Status s' = lsn_Status s \<and> lsn_Protocol s' = lsn_Protocol s \<and> lsn_TLS s' = lsn_TLS s"
  unfolding only_route_def by (metis ListenerState.select_convs(2,4,5) ListenerState.surjective ListenerState.update_convs(1))

lemma only_route_update [simp]: "only_route rid s (s\<lparr>lsn_Routes := AList.update rid x (lsn_Routes s)\<rparr>)"
  by (auto simp: only_route_def update_conv')

lemma only_route_delete [simp]: "only_route rid s (s\<lparr>lsn_Routes := AList.delete rid (lsn_Routes s)\<rparr>)"
  by (auto simp: only_route_def delete_conv')


lemma bind_listeners_Cons:
  assumes "bind_listeners b g ref (l # ls) (state # states) r m w = Some (m', states', r', w')"
  obtains ok r1 w1 m1 s1 ss where "canBind b (om_Namespace (gw_Meta (kg_Gateway g))) l state ref r w = Some (ok, r1, w1)"
    and "bind_listeners b g ref ls states r1 m1 w1 = Some (m', ss, r', w')" and "states' = s1 # ss"
    and "only_route (K8sRoute_ID r) state s1" and "K8sRoute_ID r \<in> keys (lsn_Routes s1) \<longleftrightarrow> ok"
  using assms by (fastforce simp: has_key_iff keys_update keys_delete split: option.splits bool.splits if_splits)

lemma list_all2_only_route_refl: "list_all2 (only_route rid) xs xs"
  by (simp add: list.rel_refl)

text \<open>Binding one reference: a listener has the route afterwards exactly when it admits it for this reference.\<close>

lemma bind_listeners_spec:
  assumes "reads_namespaces b" and "same_route r0 r" and "length ls = length states"
    and "bind_listeners b g ref ls states r m w = Some (m', states', r', w')"
  shows "same_route r0 r' \<and> list_all2 (only_route (K8sRoute_ID r0)) states states' \<and>
    (\<forall>i < length ls. K8sRoute_ID r0 \<in> keys (lsn_Routes (states' ! i)) \<longleftrightarrow>
      admits b (om_Namespace (gw_Meta (kg_Gateway g))) (ls ! i) (states ! i) ref r0 w0)"
  using assms(2-4)
proof (induction ls arbitrary: states r m w states')
  case (Cons l ls)
  obtain state ss where states: "states = state # ss"
    using Cons.prems(2) by (cases states) auto
  obtain ok r1 w1 m1 s1 ss' where
    c: "canBind b (om_Namespace (gw_Meta (kg_Gateway g))) l state ref r w = Some (ok, r1, w1)" and
    rest: "bind_listeners b g ref ls ss r1 m1 w1 = Some (m', ss', r', w')" and st: "states' = s1 # ss'" and
    s1: "only_route (K8sRoute_ID r) state s1" "K8sRoute_ID r \<in> keys (lsn_Routes s1) \<longleftrightarrow> ok"
    using Cons.prems(3) unfolding states by (rule bind_listeners_Cons)
  have "ok \<longleftrightarrow> admits b (om_Namespace (gw_Meta (kg_Gateway g))) l state ref r0 w0"
    using canBind_admits [OF c] admits_cong [OF assms(1) Cons.prems(1) refl] by metis
  moreover have "same_route r0 r1"
    by (rule same_route_trans [OF Cons.prems(1) canBind_same [OF c]])
  note Cons.IH [OF this _ rest]
  ultimately show ?case
    using s1 Cons.prems(2) by (simp add: states st same_routeD(4) [OF Cons.prems(1)] All_less_Suc2)
qed (simp add: list_all2_only_route_refl)

lemma bind_references_frame:
  assumes "reads_namespaces b" and "same_route r0 r" and "length (gw_Listeners (kg_Gateway g)) = length states"
    and "bind_references b g refs states r m w = Some (m', states', r', w')"
  shows "same_route r0 r' \<and> list_all2 (only_route (K8sRoute_ID r0)) states states'"
  using assms(2-4)
proof (induction refs arbitrary: states r m w)
  case (Cons ref refs)
  obtain m1 s1 r1 w1 where one: "bind_listeners b g ref (gw_Listeners (kg_Gateway g)) states r m w = Some (m1, s1, r1, w1)"
    and rest: "bind_references b g refs s1 r1 m1 w1 = Some (m', states', r', w')"
    using Cons.prems(3) by (auto split: option.splits)
  have s1: "same_route r0 r1" "list_all2 (only_route (K8sRoute_ID r0)) states s1"
    using bind_listeners_spec [OF assms(1) Cons.prems(1,2) one] by blast+
  then have "length (gw_Listeners (kg_Gateway g)) = length s1"
    using Cons.prems(2) list_all2_lengthD by metis
  from Cons.IH [OF s1(1) this rest] have r': "same_route r0 r'" "list_all2 (only_route (K8sRoute_ID r0)) s1 states'"
    by blast+
  have "list_all2 (only_route (K8sRoute_ID r0)) states states'"
    by (rule list_all2_trans [OF only_route_trans s1(2) r'(2)])
  then show ?case
    using r'(1) by blast
qed (simp add: list_all2_only_route_refl)

lemma bind_references_append:
  "bind_references b g (refs @ refs') states r m w =
   (case bind_references b g refs states r m w of
      None \<Rightarrow> None
    | Some (m', states', r', w') \<Rightarrow> bind_references b g refs' states' r' m' w')"
  by (induction refs arbitrary: states r m w) (auto split: option.splits)

lemma bind_references_last:
  assumes "reads_namespaces b" and "length (gw_Listeners (kg_Gateway g)) = length states"
    and "bind_references b g (refs @ [ref]) states r m w = Some (m', states', r', w')" and "i < length states"
  shows "K8sRoute_ID r \<in> keys (lsn_Routes (states' ! i)) \<longleftrightarrow>
    admits b (om_Namespace (gw_Meta (kg_Gateway g))) (gw_Listeners (kg_Gateway g) ! i) (states ! i) ref r w"
proof -
  obtain m1 s1 r1 w1 where first: "bind_references b g refs states r m w = Some (m1, s1, r1, w1)"
    and last: "bind_listeners b g ref (gw_Listeners (kg_Gateway g)) s1 r1 m1 w1 = Some (m', states', r', w')"
    using assms(3) by (auto simp: bind_references_append split: option.splits)
  have s1: "same_route r r1" "list_all2 (only_route (K8sRoute_ID r)) states s1"
    using bind_references_frame [OF assms(1) same_route_refl assms(2) first] by blast+
  then have len: "length (gw_Listeners (kg_Gateway g)) = length s1" and "lsn_Status (s1 ! i) = lsn_Status (states ! i)"
    using assms(2,4) only_route_Status list_all2_nthD [OF s1(2) assms(4)] list_all2_lengthD by metis+
  note admits_cong [OF assms(1) same_route_refl this(2)]
  then show ?thesis
    using bind_listeners_spec [OF assms(1) s1(1) len last] assms(2,4) by metis
qed

lemma unbind_listeners_spec:
  "unbind_listeners b g states r = (removed, states', r') \<Longrightarrow>
   same_route r r' \<and> list_all2 (only_route (K8sRoute_ID r)) states states' \<and>
   list_all (\<lambda>s. K8sRoute_ID r \<notin> keys (lsn_Routes s)) states' \<and>
   (removed \<longleftrightarrow> list_ex (\<lambda>s. K8sRoute_ID r \<in> keys (lsn_Routes s)) states)"
proof (induction states arbitrary: r removed states' r')
  case (Cons s states)
  have id: "K8sRoute_ID (removeGatewayStatus b r g) = K8sRoute_ID r"
    by (rule same_routeD(4) [OF same_route_removeGatewayStatus])
  obtain x ss r1 where u: "unbind_listeners b g states (if has_key (lsn_Routes s) (K8sRoute_ID r) then removeGatewayStatus b r g else r) = (x, ss, r1)"
    by (metis prod_cases3)
  note same_route_removeGatewayStatus [of r b g]
  from Cons.IH [OF u] have IH: "same_route r r1" "list_all2 (only_route (K8sRoute_ID r)) states ss"
    "list_all (\<lambda>s. K8sRoute_ID r \<notin> keys (lsn_Routes s)) ss" "x \<longleftrightarrow> list_ex (\<lambda>s. K8sRoute_ID r \<in> keys (lsn_Routes s)) states"
    using same_route_trans [OF same_route_removeGatewayStatus] id by (auto split: if_splits)
  then show ?case
    using Cons.prems u by (auto simp: has_key_iff keys_delete split: if_splits)
qed simp


definition gateway_ok :: "K8sGateway \<Rightarrow> bool" where
  "gateway_ok g \<longleftrightarrow> length (gw_Listeners (kg_Gateway g)) = length (gts_Listeners (kg_State g)) \<and>
     list_all (\<lambda>l. gomap_ok (lsn_Routes l)) (gts_Listeners (kg_State g))"

lemma gateway_ok_listeners:
  assumes "gateway_ok g" and "list_all2 (only_route rid) (gts_Listeners (kg_State g)) states"
  shows "gateway_ok (set_listeners g states)"
proof -
  have "length states = length (gts_Listeners (kg_State g))"
    using assms(2) by (simp add: list_all2_lengthD)
  moreover have "list_all (\<lambda>l. gomap_ok (lsn_Routes l)) states"
    using assms(2) assms(1) unfolding gateway_ok_def only_route_def
    by (auto simp: list_all_length list_all2_conv_all_nth)
  ultimately show ?thesis
    using assms(1) by (simp add: gateway_ok_def set_listeners_def)
qed

lemma gateway_ok_Initial: "gateway_ok \<lparr>kg_Gateway = g, kg_State = InitialGatewayState g, kg_Config = c\<rparr>"
  by (simp add: gateway_ok_def InitialGatewayState_def list_all_iff)

text \<open>The entries of a route in the listeners of a gateway, and those of every other route.\<close>

definition bound_to :: "K8sGateway \<Rightarrow> string \<Rightarrow> bool list" where
  "bound_to g rid = map (\<lambda>s. rid \<in> keys (lsn_Routes s)) (gts_Listeners (kg_State g))"

definition others_kept :: "string \<Rightarrow> K8sGateway \<Rightarrow> K8sGateway \<Rightarrow> bool" where
  "others_kept rid g g' \<longleftrightarrow> g' = set_listeners g (gts_Listeners (kg_State g')) \<and>
     list_all2 (only_route rid) (gts_Listeners (kg_State g)) (gts_Listeners (kg_State g'))"

lemma find_gateway_ref_find:
  "find_gateway_ref ns gw refs = find (\<lambda>ref. ReferencesGateway ns ref = (gw, True)) refs"
  by (induction refs) (auto split: prod.splits)

lemma removeGatewayStatus_twice: "removeGatewayStatus b (removeGatewayStatus b r g) g = removeGatewayStatus b r g"
proof -
  have "commonRouteSpec (removeGatewayStatus b r g) = commonRouteSpec r" "kr_Route (removeGatewayStatus b r g) = kr_Route r"
    by (rule same_routeD [OF same_route_removeGatewayStatus])+
  then show ?thesis
    unfolding removeGatewayStatus_def [of b "removeGatewayStatus b r g"]
    by (simp add: removeGatewayStatus_def RouteState_Remove_def RouteStatuses_Remove_def delete_idem split: option.split)
qed

lemma unbind_listeners_route:
  "unbind_listeners b g states r = (removed, states', r') \<Longrightarrow> r' = (if removed then removeGatewayStatus b r g else r)"
proof (induction states arbitrary: r removed states' r')
  case (Cons s states)
  obtain x ss r1 where u: "unbind_listeners b g states (if has_key (lsn_Routes s) (K8sRoute_ID r) then removeGatewayStatus b r g else r) = (x, ss, r1)"
    by (metis prod_cases3)
  then show ?case
    using Cons.IH [OF u] Cons.prems by (auto simp: removeGatewayStatus_twice split: if_splits)
qed simp

lemma Unbind_spec:
  assumes "Unbind b g r = (removed, g', r')"
  shows "same_route r r' \<and> others_kept (K8sRoute_ID r) g g' \<and> bound_to g' (K8sRoute_ID r) = map (\<lambda>_. False) (gts_Listeners (kg_State g)) \<and>
    (removed \<longleftrightarrow> True \<in> set (bound_to g (K8sRoute_ID r))) \<and> r' = (if removed then removeGatewayStatus b r g else r)"
proof -
  obtain states where u: "unbind_listeners b g (gts_Listeners (kg_State g)) r = (removed, states, r')" and g': "g' = set_listeners g states"
    using assms by (auto simp: Unbind_def split: prod.splits)
  note s = unbind_listeners_spec [OF u]
  then have len: "length states = length (gts_Listeners (kg_State g))"
    using list_all2_lengthD by metis
  have "bound_to g' (K8sRoute_ID r) = map (\<lambda>_. False) (gts_Listeners (kg_State g))"
    using s len by (simp add: g' set_listeners_def bound_to_def list_all_length list_eq_iff_nth_eq)
  moreover have "others_kept (K8sRoute_ID r) g g'"
    using s by (simp add: g' set_listeners_def others_kept_def)
  moreover have "removed \<longleftrightarrow> True \<in> set (bound_to g (K8sRoute_ID r))"
    using s by (auto simp: bound_to_def list_ex_iff)
  ultimately show ?thesis
    using s unbind_listeners_route [OF u] by blast
qed

text \<open>C11: which listeners a route is bound to. After \<open>Bind\<close> of a route that names the gateway, a listener has
  the route exactly when it admits it for the last of the route's parent references: the listener is ready, the reference names it or
  no section, it supports the kind of the route and allows its namespace, a hostname matches, and every reference
  of the route is resolved. The entries of the other routes and everything else of the gateway stay.\<close>

theorem Bind_exact:
  assumes "reads_namespaces b" and "gateway_ok g" and "routeReferencesGateway r g" and "commonRouteSpec r = refs @ [ref]"
    and "Bind b g r w = Some (modified, g', r', w')"
  shows "gateway_ok g' \<and> others_kept (K8sRoute_ID r) g g' \<and>
    bound_to g' (K8sRoute_ID r) =
      map (\<lambda>(l, s). admits b (om_Namespace (gw_Meta (kg_Gateway g))) l s ref r w)
        (zip (gw_Listeners (kg_Gateway g)) (gts_Listeners (kg_State g)))"
proof -
  obtain states where br: "bind_references b g (refs @ [ref]) (gts_Listeners (kg_State g)) r False w = Some (modified, states, r', w')"
    and g': "g' = set_listeners g states"
    using assms(3-5) by (auto simp: Bind_def split: option.splits)
  have len: "length (gw_Listeners (kg_Gateway g)) = length (gts_Listeners (kg_State g))"
    using assms(2) by (simp add: gateway_ok_def)
  have frame: "list_all2 (only_route (K8sRoute_ID r)) (gts_Listeners (kg_State g)) states"
    using bind_references_frame [OF assms(1) same_route_refl len br] by blast
  have "bound_to g' (K8sRoute_ID r) = map (\<lambda>(l, s). admits b (om_Namespace (gw_Meta (kg_Gateway g))) l s ref r w)
      (zip (gw_Listeners (kg_Gateway g)) (gts_Listeners (kg_State g)))"
    using bind_references_last [OF assms(1) len br] list_all2_lengthD [OF frame] len
    by (simp add: list_eq_iff_nth_eq bound_to_def g' set_listeners_def)
  moreover have "others_kept (K8sRoute_ID r) g g'"
    using frame by (simp add: others_kept_def g' set_listeners_def)
  ultimately show ?thesis
    using gateway_ok_listeners [OF assms(2) frame] g' by simp
qed


section \<open>Examples\<close>

text \<open>A gateway with two HTTP listeners, and a route in its namespace that names both, one per reference.\<close>

definition named_listener :: "string \<Rightarrow> int \<Rightarrow> Listener" where
  "named_listener n port =
     \<lparr>li_Name = n, li_Hostname = None, li_Port = port, li_Protocol = HTTPProtocolType, li_TLS = None, li_AllowedRoutes = None\<rparr>"

definition two_listeners :: Gateway where
  "two_listeners = \<lparr>gw_Meta = new_meta ''gw'' ''ns'' [], gw_GatewayClassName = ''class'',
     gw_Listeners = [named_listener ''a'' 80, named_listener ''b'' 81], gw_Addresses = [],
     gw_Status = \<lparr>ggs_Addresses = [], ggs_Conditions = [], ggs_Listeners = []\<rparr>\<rparr>"

definition two_listeners_gateway :: K8sGateway where
  "two_listeners_gateway = \<lparr>kg_Gateway = two_listeners, kg_State = InitialGatewayState two_listeners, kg_Config = zero_GatewayClassConfig\<rparr>"

definition section_of :: "string \<Rightarrow> string \<Rightarrow> ParentReference" where
  "section_of gw section = (named_parent gw)\<lparr>pr_SectionName := Some section\<rparr>"

definition http_route_to :: "ParentReference list \<Rightarrow> K8sRoute" where
  "http_route_to refs = \<lparr>kr_Route = GwHTTP (sample_http_route\<lparr>ghrt_ParentRefs := refs,
     ghrt_Meta := (new_meta ''r'' ''ns'' [])\<lparr>om_GroupVersionKind := \<lparr>gk_Group = GroupName, gk_Kind = ''HTTPRoute''\<rparr>\<rparr>\<rparr>),
     kr_State = NewRouteState\<rparr>"

definition sample_binding :: "'w Binder" where
  "sample_binding = \<lparr>bi_Client = empty_cluster, bi_selector = (\<lambda>_. Inr (\<lambda>_. True)), bi_texts = name_texts\<rparr>"

lemma reads_sample: "reads_namespaces sample_binding"
  unfolding reads_namespaces_def
  by (rule exI [of _ "\<lambda>_. Inl (NotFound [])"]) (simp add: sample_binding_def empty_cluster_def)

lemmas binding_samples = two_listeners_gateway_def two_listeners_def named_listener_def section_of_def named_parent_def http_route_to_def
  sample_http_route_def new_meta_def InitialGatewayState_def zero_ListenerStatus_def zero_ListenerReadyStatus_def
  sample_binding_def NewRouteState_def NewResolutionErrors_def

lemmas binding_defs = Bind_def routeReferencesGateway_def commonRouteSpec_def ReferencesGateway_def NamespacedName_of_def
  canBind_def routeMatchesListener_def routeKindIsAllowedForListener_def SupportedKindsFor_def supportedKindsForProtocol_def
  routeAllowedForListenerNamespaces_def matchesHostname_def routeMatchesListenerHostname_def ResolutionErrors_Empty_def
  ListenerReadyStatus_HasError_def K8sRoute_resolve_def HTTPRouteConverter_Convert_def RouteState_Bound_def

lemma sample_bind:
  "\<exists>m g' r'. Bind sample_binding two_listeners_gateway (http_route_to [section_of ''gw'' ''a'', section_of ''gw'' ''b'']) w = Some (m, g', r', w) \<and>
     bound_to g' ''http-ns/r'' = [False, True]"
  by (simp add: binding_samples binding_defs set_listeners_def bound_to_def has_key_def K8sRoute_ID_def HTTPRouteID_def
      NamespacedName_String_def Let_def) blast

theorem Bind_exact_witness:
  "\<exists>m g' r' w'. Bind sample_binding two_listeners_gateway (http_route_to [section_of ''gw'' ''a'', section_of ''gw'' ''b'']) (0 :: nat) =
      Some (m, g', r', w') \<and> gateway_ok g' \<and> bound_to g' ''http-ns/r'' = [False, True]"
proof -
  let ?r = "http_route_to [section_of ''gw'' ''a'', section_of ''gw'' ''b'']"
  obtain m g' r' where b: "Bind sample_binding two_listeners_gateway ?r (0 :: nat) = Some (m, g', r', 0)" and
    bound: "bound_to g' ''http-ns/r'' = [False, True]"
    using sample_bind [of 0] by blast
  have ok: "gateway_ok two_listeners_gateway"
    unfolding two_listeners_gateway_def by (rule gateway_ok_Initial)
  have "routeReferencesGateway ?r two_listeners_gateway"
    by (simp add: binding_samples binding_defs)
  moreover have "commonRouteSpec ?r = [section_of ''gw'' ''a''] @ [section_of ''gw'' ''b'']"
    by (simp add: http_route_to_def commonRouteSpec_def)
  ultimately have "gateway_ok g'"
    using Bind_exact [OF reads_sample ok _ _ b] by blast
  then show ?thesis
    using b bound by blast
qed

text \<open>C12: removing a route. \<open>Unbind\<close> of any route leaves the route bound to no
  listener, keeps the entries of all other routes and everything else of the gateway, and reports a change exactly when the route was bound to a
  listener. Then the route forgets what it reported for the first of its references that names the gateway; without a change, or without such
  a reference, it stays as it was. \<open>Bind\<close> of a route that does not name the gateway does the same.\<close>

theorem Unbind_exact:
  "case Unbind b g r of (removed, g', r') \<Rightarrow>
     others_kept (K8sRoute_ID r) g g' \<and> bound_to g' (K8sRoute_ID r) = map (\<lambda>_. False) (gts_Listeners (kg_State g)) \<and>
     (removed \<longleftrightarrow> True \<in> set (bound_to g (K8sRoute_ID r))) \<and>
     r' = (case find (\<lambda>ref. ReferencesGateway (om_Namespace (route_meta (kr_Route r))) ref = (NamespacedName_of (gw_Meta (kg_Gateway g)), True))
                  (commonRouteSpec r) of
             None \<Rightarrow> r
           | Some ref \<Rightarrow>
               if removed
               then r\<lparr>kr_State := (kr_State r)\<lparr>rts_ParentStatuses :=
                 AList.delete (tx_ref (bi_texts b) ref) (rts_ParentStatuses (kr_State r))\<rparr>\<rparr>
               else r) \<and>
     (routeReferencesGateway r g \<or> Bind b g r w = Some (removed, g', r', w))"
proof -
  obtain removed g' r' where u: "Unbind b g r = (removed, g', r')"
    by (rule prod_cases3)
  note spec = Unbind_spec [OF u]
  have "routeReferencesGateway r g \<or> Bind b g r w = Some (removed, g', r', w)"
    using u by (simp add: Bind_def)
  moreover have "r' = (if removed then removeGatewayStatus b r g else r)"
    using spec by blast
  ultimately show ?thesis
    using spec unfolding u prod.case
    by (auto simp: removeGatewayStatus_def find_gateway_ref_find RouteState_Remove_def RouteStatuses_Remove_def split: option.splits)
qed

lemma sample_bind_first:
  "\<exists>m g1 r1. Bind sample_binding two_listeners_gateway (http_route_to [section_of ''gw'' ''a'']) w = Some (m, g1, r1, w) \<and>
     bound_to g1 ''http-ns/r'' = [True, False] \<and> K8sRoute_ID r1 = ''http-ns/r'' \<and> length (gts_Listeners (kg_State g1)) = 2"
  by (simp add: binding_samples binding_defs set_listeners_def bound_to_def has_key_def K8sRoute_ID_def HTTPRouteID_def
      NamespacedName_String_def Let_def) blast

theorem Unbind_exact_witness:
  "\<exists>m g1 r1 g2 r2. Bind sample_binding two_listeners_gateway (http_route_to [section_of ''gw'' ''a'']) (0 :: nat) = Some (m, g1, r1, 0) \<and>
     bound_to g1 ''http-ns/r'' = [True, False] \<and> Unbind (sample_binding :: nat Binder) g1 r1 = (True, g2, r2) \<and> bound_to g2 ''http-ns/r'' = [False, False]"
proof -
  obtain m g1 r1 where b: "Bind sample_binding two_listeners_gateway (http_route_to [section_of ''gw'' ''a'']) (0 :: nat) = Some (m, g1, r1, 0)"
    and bound: "bound_to g1 ''http-ns/r'' = [True, False]" and rid: "K8sRoute_ID r1 = ''http-ns/r''"
    and len: "length (gts_Listeners (kg_State g1)) = 2"
    using sample_bind_first [of 0] by (elim exE conjE)
  obtain removed g2 r2 where u: "Unbind (sample_binding :: nat Binder) g1 r1 = (removed, g2, r2)"
    by (rule prod_cases3)
  have "removed" and "bound_to g2 ''http-ns/r'' = map (\<lambda>_. False) (gts_Listeners (kg_State g1))"
    using Unbind_exact [where b = sample_binding and g = g1 and r = r1 and w = "0 :: nat"] bound unfolding u prod.case rid by simp_all
  moreover have "map (\<lambda>_. False) (gts_Listeners (kg_State g1)) = [False, False]"
    using len by (auto simp: length_Suc_conv numeral_2_eq_2)
  ultimately show ?thesis
    using b bound u by auto
qed

section \<open>A missing namespace\<close>

text \<open>Binding that returns asked every listener for every reference, with the route and the listeners' states as they
  were up to what the route reports and where it is bound.\<close>

lemma bind_listeners_asks:
  assumes "bind_listeners b g ref ls states r m w = Some x" and "same_route r0 r" and "i < length ls" and "length ls = length states"
  shows "\<exists>r1 w1 y. same_route r0 r1 \<and> canBind b (om_Namespace (gw_Meta (kg_Gateway g))) (ls ! i) (states ! i) ref r1 w1 = Some y"
  using assms
proof (induction ls arbitrary: states r m w i x)
  case (Cons l ls)
  obtain state ss where states: "states = state # ss"
    using Cons.prems(4) by (cases states) auto
  obtain m' states' r' w' where x: "x = (m', states', r', w')"
    by (rule prod_cases4)
  obtain ok r1 w1 m1 s1 ss' where
    c: "canBind b (om_Namespace (gw_Meta (kg_Gateway g))) l state ref r w = Some (ok, r1, w1)" and
    rest: "bind_listeners b g ref ls ss r1 m1 w1 = Some (m', ss', r', w')"
    using Cons.prems(1) unfolding states x by (rule bind_listeners_Cons)
  show ?case
  proof (cases i)
    case 0
    then show ?thesis
      using c Cons.prems(2) by (simp add: states) blast
  next
    case (Suc j)
    have "same_route r0 r1"
      by (rule same_route_trans [OF Cons.prems(2) canBind_same [OF c]])
    then show ?thesis
      using Cons.IH [OF rest, of j] Cons.prems(3,4) by (simp add: states Suc)
  qed
qed simp

lemma bind_references_asks:
  assumes "reads_namespaces b" and "length (gw_Listeners (kg_Gateway g)) = length states"
    and "bind_references b g refs states r m w = Some x" and "ref \<in> set refs" and "i < length states"
  shows "\<exists>s1 r1 w1 y. same_route r r1 \<and> lsn_Status s1 = lsn_Status (states ! i) \<and>
    canBind b (om_Namespace (gw_Meta (kg_Gateway g))) (gw_Listeners (kg_Gateway g) ! i) s1 ref r1 w1 = Some y"
proof -
  obtain before after where refs: "refs = before @ ref # after"
    using assms(4) by (meson split_list)
  obtain m1 s1 r1 w1 where first: "bind_references b g before states r m w = Some (m1, s1, r1, w1)"
    and rest: "bind_references b g (ref # after) s1 r1 m1 w1 = Some x"
    using assms(3) by (auto simp: refs bind_references_append split: option.splits)
  obtain y where one: "bind_listeners b g ref (gw_Listeners (kg_Gateway g)) s1 r1 m1 w1 = Some y"
    using rest by (cases "bind_listeners b g ref (gw_Listeners (kg_Gateway g)) s1 r1 m1 w1") simp_all
  have s1: "same_route r r1" "list_all2 (only_route (K8sRoute_ID r)) states s1"
    using bind_references_frame [OF assms(1) same_route_refl assms(2) first] by blast+
  then have len: "length (gw_Listeners (kg_Gateway g)) = length s1" and status: "lsn_Status (s1 ! i) = lsn_Status (states ! i)"
    using assms(2,5) only_route_Status list_all2_nthD [OF s1(2) assms(5)] list_all2_lengthD by metis+
  have "i < length (gw_Listeners (kg_Gateway g))"
    using assms(2,5) by simp
  then obtain r2 w2 y2 where "same_route r r2"
    and "canBind b (om_Namespace (gw_Meta (kg_Gateway g))) (gw_Listeners (kg_Gateway g) ! i) (s1 ! i) ref r2 w2 = Some y2"
    using bind_listeners_asks [OF one s1(1) _ len, of i] by blast
  then show ?thesis
    using status by blast
qed

text \<open>C40: a route whose namespace is gone stops the program. Whenever a route names a gateway, and a ready listener that one of its
  references reaches supports its kind and selects namespaces by a label selector that parses, and Kubernetes does not find the route's
  namespace, \<open>Bind\<close> does not return: the client gives no namespace and no error for a namespace
  that it does not find, and the check of the listener's namespace selector reads the name of what it got.\<close>

theorem missing_namespace_stops:
  assumes "reads_namespaces b" and "gateway_ok g" and "routeReferencesGateway r g" and "ref \<in> set (commonRouteSpec r)"
    and "i < length (gw_Listeners (kg_Gateway g))" and "l = gw_Listeners (kg_Gateway g) ! i"
    and "\<not> ListenerReadyStatus_HasError (lst_Ready (lsn_Status (gts_Listeners (kg_State g) ! i)))"
    and "pr_SectionName ref \<in> {None, Some (li_Name l)}"
    and "routeKindIsAllowedForListener (SupportedKindsFor (li_Protocol l)) r"
    and "li_AllowedRoutes l = Some \<lparr>ar_Namespaces = Some \<lparr>rn_From = Some ''Selector'', rn_Selector = sel\<rparr>, ar_Kinds = kinds\<rparr>"
    and "bi_selector b sel = Inr matches"
    and "IsNotFound err"
    and "k_GetNamespace (bi_Client b) \<lparr>nn_Namespace = '''', nn_Name = om_Namespace (route_meta (kr_Route r))\<rparr> w0 = (Inl err, w0)"
  shows "Bind b g r w = None"
proof (rule ccontr)
  assume "Bind b g r w \<noteq> None"
  then obtain x where br: "bind_references b g (commonRouteSpec r) (gts_Listeners (kg_State g)) r False w = Some x"
    using assms(3) by (auto simp: Bind_def split: option.splits)
  have len: "length (gw_Listeners (kg_Gateway g)) = length (gts_Listeners (kg_State g))"
    using assms(2) by (simp add: gateway_ok_def)
  have i: "i < length (gts_Listeners (kg_State g))"
    using assms(5) len by simp
  obtain s1 r1 w1 y where r1: "same_route r r1" and status: "lsn_Status s1 = lsn_Status (gts_Listeners (kg_State g) ! i)"
    and asked: "canBind b (om_Namespace (gw_Meta (kg_Gateway g))) l s1 ref r1 w1 = Some y"
    using bind_references_asks [OF assms(1) len br assms(4) i] unfolding assms(6) by (elim exE conjE)
  obtain f where f: "\<And>key w. k_GetNamespace (bi_Client b) key w = (f key, w)"
    using assms(1) by (auto simp: reads_namespaces_def)
  have "f \<lparr>nn_Namespace = '''', nn_Name = om_Namespace (route_meta (kr_Route r))\<rparr> = Inl err"
    using assms(13) by (simp add: f)
  then have gone: "routeAllowedForListenerNamespaces b ns (li_AllowedRoutes l) r1 w1 = None" for ns
    by (simp add: assms(10,11,12) routeAllowedForListenerNamespaces_def GetNamespace_of_def optional_def f same_routeD(1) [OF r1])
  have "canBind b (om_Namespace (gw_Meta (kg_Gateway g))) l s1 ref r1 w1 = None"
    using assms(8) by (auto simp: canBind_def status assms(7,9) same_routeD(6) [OF r1] gone routeMatchesListener_def)
  with asked show False
    by simp
qed

definition selecting_listener :: Listener where
  "selecting_listener = (named_listener ''a'' 80)\<lparr>li_AllowedRoutes :=
     Some \<lparr>ar_Namespaces = Some \<lparr>rn_From = Some ''Selector'', rn_Selector = None\<rparr>, ar_Kinds = []\<rparr>\<rparr>"

definition selecting_gateway :: K8sGateway where
  "selecting_gateway = (let g = two_listeners\<lparr>gw_Listeners := [selecting_listener]\<rparr> in
     \<lparr>kg_Gateway = g, kg_State = InitialGatewayState g, kg_Config = zero_GatewayClassConfig\<rparr>)"

theorem missing_namespace_stops_witness:
  "Bind (sample_binding :: nat Binder) selecting_gateway (http_route_to [section_of ''gw'' ''a'']) 0 = None"
proof (rule missing_namespace_stops [OF reads_sample, where ref = "section_of ''gw'' ''a''" and i = 0 and l = selecting_listener and err = "NotFound []" and ?w0.0 = 0])
  show "gateway_ok selecting_gateway"
    unfolding selecting_gateway_def Let_def by (rule gateway_ok_Initial)
  show "bi_selector (sample_binding :: nat Binder) None = Inr (\<lambda>_. True)"
    by (simp add: sample_binding_def)
qed (simp_all add: selecting_gateway_def selecting_listener_def binding_samples binding_defs empty_cluster_def)

end
