(* ===== verification/Route_Validator.thy ===== *)
theory Route_Validator
  imports Gateway_Binder
begin

text \<open>
  The validators' shared check of references and the validator of routes: \<open>internal/k8s/reconciler/validator/utils.go\<close> and
  \<open>route.go\<close>. A reference into another namespace needs a grant there; every backend of a route is resolved, and
  what fails to resolve is collected. An error that is not a resolution error ends the validation. The properties are
  which references are allowed, and when a validated route can be converted.
\<close>

section \<open>Reference grants\<close>

definition from_matches :: "GroupKind \<Rightarrow> string \<Rightarrow> ReferenceGrant \<Rightarrow> bool" where
  "from_matches fromGK fromNamespace refGrant =
     list_ex (\<lambda>from. gk_Group fromGK = rgf_Group from \<and> gk_Kind fromGK = rgf_Kind from \<and> fromNamespace = rgf_Namespace from)
       (rg_From refGrant)"

fun to_loop :: "GroupKind \<Rightarrow> string \<Rightarrow> ReferenceGrantTo list \<Rightarrow> bool" where
  "to_loop toGK toName [] = False"
| "to_loop toGK toName (t # ts) =
     (if gk_Group toGK = rgt_Group t \<and> gk_Kind toGK = rgt_Kind t
      then (if rgt_Name t = None \<or> rgt_Name t = Some '''' then True
            else if rgt_Name t = Some toName then True
            else to_loop toGK toName ts)
      else to_loop toGK toName ts)"

fun grants_loop :: "GroupKind \<Rightarrow> string \<Rightarrow> GroupKind \<Rightarrow> string \<Rightarrow> ReferenceGrant list \<Rightarrow> bool" where
  "grants_loop fromGK fromNamespace toGK toName [] = False"
| "grants_loop fromGK fromNamespace toGK toName (refGrant # refGrants) =
     (if \<not> from_matches fromGK fromNamespace refGrant then grants_loop fromGK fromNamespace toGK toName refGrants
      else if to_loop toGK toName (rg_To refGrant) then True
      else grants_loop fromGK fromNamespace toGK toName refGrants)"

definition referenceAllowed ::
  "'w Kube \<Rightarrow> GroupKind \<Rightarrow> string \<Rightarrow> GroupKind \<Rightarrow> string \<Rightarrow> string \<Rightarrow> 'w \<Rightarrow> (string + bool) \<times> 'w" where
  "referenceAllowed c fromGK fromNamespace toGK toNamespace toName w =
     (if toNamespace = '''' \<or> toNamespace = fromNamespace then (Inr True, w)
      else (case GetReferenceGrantsInNamespace c toNamespace w of
              (Inl err, w') \<Rightarrow> (Inl err, w')
            | (Inr refGrants, w') \<Rightarrow>
                if length refGrants = 0 then (Inr False, w')
                else (Inr (grants_loop fromGK fromNamespace toGK toName refGrants), w')))"

definition getNamespacedName :: "string \<Rightarrow> string option \<Rightarrow> string \<Rightarrow> NamespacedName" where
  "getNamespacedName name ns parentNamespace =
     (case ns of
        Some n \<Rightarrow> \<lparr>nn_Namespace = n, nn_Name = name\<rparr>
      | None \<Rightarrow> \<lparr>nn_Namespace = parentNamespace, nn_Name = name\<rparr>)"

section \<open>The validator of routes\<close>

definition routeAllowedForBackendRef :: "'w Kube \<Rightarrow> Route \<Rightarrow> BackendObjectReference \<Rightarrow> 'w \<Rightarrow> (string + bool) \<times> 'w" where
  "routeAllowedForBackendRef c route backendRef w =
     (let fromNS = om_Namespace (route_meta route);
          fromGK = om_GroupVersionKind (route_meta route);
          toName = bo_Name backendRef;
          toNS = (case bo_Namespace backendRef of Some n \<Rightarrow> n | None \<Rightarrow> '''');
          toGK = \<lparr>gk_Group = '''', gk_Kind = ''Service''\<rparr>;
          toGK = (case bo_Group backendRef of Some grp \<Rightarrow> toGK\<lparr>gk_Group := grp\<rparr> | None \<Rightarrow> toGK);
          toGK = (case bo_Kind backendRef of Some k \<Rightarrow> toGK\<lparr>gk_Kind := k\<rparr> | None \<Rightarrow> toGK) in
      referenceAllowed c fromGK fromNS toGK toNS toName w)"

record 'w RouteValidator =
  val_client :: "'w Kube"
  val_resolver :: "'w Resolver"
  val_backoff :: "'w Backoff"

definition not_permitted :: "BackendObjectReference \<Rightarrow> string \<Rightarrow> ResolutionError" where
  "not_permitted ref ns = NewRefNotPermittedError
     (''Cross-namespace routing not allowed without matching ReferencePolicy for Service '' @
      quote (NamespacedName_String (getNamespacedName (bo_Name ref) (bo_Namespace ref) ns)))"

definition add_error :: "RouteState \<Rightarrow> ResolutionError \<Rightarrow> RouteState" where
  "add_error state err = state\<lparr>rts_ResolutionErrors := ResolutionErrors_Add (rts_ResolutionErrors state) err\<rparr>"

text \<open>One backend of a rule: what both kinds of routes do with it.\<close>

definition validate_backend ::
  "'w RouteValidator \<Rightarrow> Route \<Rightarrow> RouteRule \<Rightarrow> BackendObjectReference \<Rightarrow> backend_ref_arg \<Rightarrow> RouteState \<Rightarrow> 'w \<Rightarrow> (string + RouteState) \<times> 'w" where
  "validate_backend r route routeRule ref arg state w =
     (case routeAllowedForBackendRef (val_client r) route ref w of
        (Inl err, w1) \<Rightarrow> (Inl err, w1)
      | (Inr allowed, w1) \<Rightarrow>
          if \<not> allowed then (Inr (add_error state (not_permitted ref (om_Namespace (route_meta route)))), w1)
          else (case Resolve (val_resolver r) (val_backoff r) (om_Namespace (route_meta route)) ref w1 of
                  (Inl (OtherError err), w2) \<Rightarrow> (Inl err, w2)
                | (Inl (Resolution err), w2) \<Rightarrow> (Inr (add_error state err), w2)
                | (Inr reference, w2) \<Rightarrow>
                    (Inr (state\<lparr>rts_References := References_Add (rts_References state) routeRule
                       (reference\<lparr>rf_Reference := BackendReference_Set (rf_Reference reference) arg\<rparr>)\<rparr>), w2)))"

fun backends_loop ::
  "'w RouteValidator \<Rightarrow> Route \<Rightarrow> RouteRule \<Rightarrow> HTTPBackendRef list \<Rightarrow> RouteState \<Rightarrow> 'w \<Rightarrow> (string + RouteState) \<times> 'w" where
  "backends_loop r route routeRule [] state w = (Inr state, w)"
| "backends_loop r route routeRule (ref # refs) state w =
     (case validate_backend r route routeRule (BackendObjectReference.truncate ref) (HTTPBackendRefArg ref) state w of
        (Inl err, w') \<Rightarrow> (Inl err, w')
      | (Inr state', w') \<Rightarrow> backends_loop r route routeRule refs state' w')"

text \<open>Each rule is copied into a variable of its own, whose address is the key of its references: here its position.\<close>

fun rules_loop_validate ::
  "'w RouteValidator \<Rightarrow> Route \<Rightarrow> nat \<Rightarrow> GwHTTPRouteRule list \<Rightarrow> RouteState \<Rightarrow> 'w \<Rightarrow> (string + RouteState) \<times> 'w" where
  "rules_loop_validate r route n [] state w = (Inr state, w)"
| "rules_loop_validate r route n (rule # rules) state w =
     (case backends_loop r route (NewRouteRule (HTTPRulePointer n rule)) (ghr_BackendRefs rule) state w of
        (Inl err, w') \<Rightarrow> (Inl err, w')
      | (Inr state', w') \<Rightarrow> rules_loop_validate r route (Suc n) rules state' w')"

definition validateHTTPRoute :: "'w RouteValidator \<Rightarrow> RouteState \<Rightarrow> GwHTTPRoute \<Rightarrow> 'w \<Rightarrow> (string + RouteState) \<times> 'w" where
  "validateHTTPRoute r state route w = rules_loop_validate r (GwHTTP route) 0 (ghrt_Rules route) state w"

text \<open>The rule of a TCP route is passed by value, which \<open>NewRouteRule\<close> does not know.\<close>

definition validateTCPRoute :: "'w RouteValidator \<Rightarrow> RouteState \<Rightarrow> GwTCPRoute \<Rightarrow> 'w \<Rightarrow> (string + RouteState) \<times> 'w" where
  "validateTCPRoute r state route w =
     (case gtrt_Rules route of
        [rule] \<Rightarrow>
          (case gtr_BackendRefs rule of
             [ref] \<Rightarrow> validate_backend r (GwTCP route) (NewRouteRule OtherRule) (BackendObjectReference.truncate ref) (BackendRefArg ref) state w
           | _ \<Rightarrow> (Inr (add_error state (NewResolutionError ''a single backendRef per tcp rule is required'')), w))
      | _ \<Rightarrow> (Inr (add_error state (NewResolutionError ''a single tcp rule is required'')), w))"

definition RouteValidator_Validate :: "'w RouteValidator \<Rightarrow> Route \<Rightarrow> 'w \<Rightarrow> (string + RouteState) \<times> 'w" where
  "RouteValidator_Validate r route w =
     (case route of
        GwHTTP httpRoute \<Rightarrow> validateHTTPRoute r NewRouteState httpRoute w
      | GwTCP tcpRoute \<Rightarrow> validateTCPRoute r NewRouteState tcpRoute w)"

section \<open>Which references are allowed\<close>

lemma to_loop_iff:
  "to_loop toGK toName ts \<longleftrightarrow>
   (\<exists>t \<in> set ts. rgt_Group t = gk_Group toGK \<and> rgt_Kind t = gk_Kind toGK \<and> rgt_Name t \<in> {None, Some '''', Some toName})"
  by (induction ts) auto

lemma grants_loop_iff:
  "grants_loop fromGK fromNS toGK toName grants \<longleftrightarrow>
   (\<exists>grant \<in> set grants. from_matches fromGK fromNS grant \<and> to_loop toGK toName (rg_To grant))"
  by (induction grants) auto

text \<open>What a grant permits, as the Gateway API documents it.\<close>

definition permits :: "ReferenceGrant \<Rightarrow> GroupKind \<Rightarrow> string \<Rightarrow> GroupKind \<Rightarrow> string \<Rightarrow> bool" where
  "permits grant fromGK fromNS toGK toName \<longleftrightarrow>
     \<lparr>rgf_Group = gk_Group fromGK, rgf_Kind = gk_Kind fromGK, rgf_Namespace = fromNS\<rparr> \<in> set (rg_From grant) \<and>
     (\<exists>n \<in> {None, Some '''', Some toName}. \<lparr>rgt_Group = gk_Group toGK, rgt_Kind = gk_Kind toGK, rgt_Name = n\<rparr> \<in> set (rg_To grant))"

lemma from_member_iff:
  "\<lparr>rgf_Group = a, rgf_Kind = b, rgf_Namespace = c\<rparr> \<in> S \<longleftrightarrow> (\<exists>x \<in> S. a = rgf_Group x \<and> b = rgf_Kind x \<and> c = rgf_Namespace x)"
proof -
  have eq: "x = \<lparr>rgf_Group = a, rgf_Kind = b, rgf_Namespace = c\<rparr> \<longleftrightarrow> a = rgf_Group x \<and> b = rgf_Kind x \<and> c = rgf_Namespace x" for x
    by (cases x) auto
  show ?thesis
    unfolding eq [symmetric] by simp
qed

lemma to_member_iff:
  "\<lparr>rgt_Group = a, rgt_Kind = b, rgt_Name = c\<rparr> \<in> S \<longleftrightarrow> (\<exists>x \<in> S. rgt_Group x = a \<and> rgt_Kind x = b \<and> rgt_Name x = c)"
proof -
  have eq: "x = \<lparr>rgt_Group = a, rgt_Kind = b, rgt_Name = c\<rparr> \<longleftrightarrow> rgt_Group x = a \<and> rgt_Kind x = b \<and> rgt_Name x = c" for x
    by (cases x) auto
  show ?thesis
    unfolding eq [symmetric] by simp
qed

lemma permits_iff: "permits grant fromGK fromNS toGK toName \<longleftrightarrow> from_matches fromGK fromNS grant \<and> to_loop toGK toName (rg_To grant)"
  unfolding permits_def from_member_iff to_member_iff from_matches_def list_ex_iff to_loop_iff by blast

text \<open>C20: a reference into another namespace needs a grant there. A reference is allowed exactly when it stays in its
  namespace or when a grant, or a policy of the older kind, of the other namespace permits it; when these cannot be
  listed, a reference into another namespace gives the error and is not allowed.\<close>

theorem referenceAllowed_iff:
  "fst (referenceAllowed c fromGK fromNS toGK toNS toName w) =
   (if toNS = '''' \<or> toNS = fromNS then Inr True
    else map_sum id (\<lambda>grants. \<exists>grant \<in> set grants. permits grant fromGK fromNS toGK toName)
           (fst (GetReferenceGrantsInNamespace c toNS w)))"
  by (auto simp: referenceAllowed_def grants_loop_iff permits_iff split: prod.split sum.split)

section \<open>A validated route can be converted\<close>

lemma resolved_reference:
  assumes "backoff_laws backoff" and "Resolve rv backoff ns ref w = (Inr r, w')"
  shows "\<exists>c. r = NewConsulServiceReference c"
proof -
  have found: "consulServiceForK8SService rv backoff name w = (Inr r, w') \<Longrightarrow> ?thesis"
    "consulServiceForMeshService rv backoff name w = (Inr r, w') \<Longrightarrow> ?thesis" for name
    using k8s_service_sound [OF assms(1)] mesh_service_sound [OF assms(1)]
    by (fastforce simp: from_node_def from_catalog_def from_peer_def)+
  show ?thesis
    using assms(2) unfolding Resolve_def Let_def by (simp split: if_split_asm) (erule found)+
qed

lemma validate_backend_references:
  assumes "backoff_laws (val_backoff r)" and "validate_backend r route rule ref arg state w = (Inr state', w')"
  shows "rts_References state' = rts_References state \<or>
    (\<exists>c. rts_References state' = References_Add (rts_References state) rule
       ((NewConsulServiceReference c)\<lparr>rf_Reference := BackendReference_Set \<lparr>bf_HTTPRef = None, bf_BackendRef = None\<rparr> arg\<rparr>))"
  using assms(2) resolved_reference [OF assms(1)]
  by (fastforce simp: validate_backend_def add_error_def NewConsulServiceReference_def
      split: prod.splits sum.splits if_splits resolve_error.splits)

lemma http_references_ok_Add:
  assumes "http_references_ok m" and "http_reference_ok x" and "ru_HTTPRule rule \<noteq> None"
  shows "http_references_ok (References_Add m rule x)"
proof -
  have "http_references_ok (AList.update rule refs m)" if "list_all http_reference_ok refs" for refs
    using assms(1,3) that set_update_subset [of rule refs m] by (auto simp: http_references_ok_def list_all_iff)
  moreover have "list_all http_reference_ok refs" if "map_of m rule = Some refs" for refs
    using assms(1) map_of_SomeD [OF that] by (auto simp: http_references_ok_def list_all_iff)
  ultimately show ?thesis
    using assms(2) by (auto simp: References_Add_def split: option.splits)
qed

lemma filters_set_Add:
  assumes "filters_set m" and "reference_filters_set x" and "list_all filter_set (ghr_Filters (snd (the (ru_HTTPRule rule))))"
  shows "filters_set (References_Add m rule x)"
proof -
  define P where "P = (\<lambda>(rule :: RouteRule, refs). list_all filter_set (ghr_Filters (snd (the (ru_HTTPRule rule)))) \<and> list_all reference_filters_set refs)"
  have all: "filters_set m' \<longleftrightarrow> (\<forall>x \<in> set m'. P x)" for m'
    by (simp add: filters_set_def P_def list_all_iff)
  have "filters_set (AList.update rule refs m)" if "list_all reference_filters_set refs" for refs
  proof -
    have "P (rule, refs)"
      using assms(3) that by (simp add: P_def)
    then show ?thesis
      using assms(1) set_update_subset [of rule refs m] unfolding all by blast
  qed
  moreover have "list_all reference_filters_set refs" if "map_of m rule = Some refs" for refs
    using assms(1) map_of_SomeD [OF that] by (auto simp: filters_set_def list_all_iff)
  ultimately show ?thesis
    using assms(2) by (auto simp: References_Add_def split: option.splits)
qed

text \<open>The filters of a rule and of its backends all have the settings for their types.\<close>

definition rule_filters_set :: "GwHTTPRouteRule \<Rightarrow> bool" where
  "rule_filters_set rule \<longleftrightarrow> list_all filter_set (ghr_Filters rule) \<and>
     list_all (\<lambda>ref. list_all filter_set (hbr_Filters ref)) (ghr_BackendRefs rule)"

definition route_filters_set :: "Route \<Rightarrow> bool" where
  "route_filters_set route = (case route of GwHTTP r \<Rightarrow> list_all rule_filters_set (ghrt_Rules r) | GwTCP _ \<Rightarrow> True)"

lemma backends_loop_ok:
  assumes "backoff_laws (val_backoff r)" and "ru_HTTPRule rule \<noteq> None"
    and "backends_loop r route rule refs state w = (Inr state', w')" and "http_references_ok (rts_References state)"
  shows "http_references_ok (rts_References state') \<and>
    (list_all filter_set (ghr_Filters (snd (the (ru_HTTPRule rule)))) \<longrightarrow> list_all (\<lambda>ref. list_all filter_set (hbr_Filters ref)) refs \<longrightarrow>
     filters_set (rts_References state) \<longrightarrow> filters_set (rts_References state'))"
  using assms(3,4)
proof (induction refs arbitrary: state w)
  case (Cons ref refs)
  obtain s1 w1 where v: "validate_backend r route rule (BackendObjectReference.truncate ref) (HTTPBackendRefArg ref) state w = (Inr s1, w1)"
    and rest: "backends_loop r route rule refs s1 w1 = (Inr state', w')"
    using Cons.prems(1) by (auto split: prod.splits sum.splits)
  have ok: "http_references_ok (rts_References s1)"
    using validate_backend_references [OF assms(1) v] Cons.prems(2)
    using http_references_ok_Add [OF Cons.prems(2) _ assms(2)] by (auto simp: http_reference_ok_def NewConsulServiceReference_def)
  have "filters_set (rts_References s1)"
    if "filters_set (rts_References state)" "list_all filter_set (ghr_Filters (snd (the (ru_HTTPRule rule))))" "list_all filter_set (hbr_Filters ref)"
    using validate_backend_references [OF assms(1) v] filters_set_Add [OF that(1) _ that(2)] that
    by (auto simp: reference_filters_set_def)
  then show ?case
    using Cons.IH [OF rest ok] by simp
qed simp

lemma rules_loop_validate_ok:
  assumes "backoff_laws (val_backoff r)" and "rules_loop_validate r route n rules state w = (Inr state', w')"
    and "http_references_ok (rts_References state)"
  shows "http_references_ok (rts_References state') \<and>
    (list_all rule_filters_set rules \<longrightarrow> filters_set (rts_References state) \<longrightarrow> filters_set (rts_References state'))"
  using assms(2,3)
proof (induction rules arbitrary: n state w)
  case (Cons rule rules)
  obtain s1 w1 where b: "backends_loop r route (NewRouteRule (HTTPRulePointer n rule)) (ghr_BackendRefs rule) state w = (Inr s1, w1)"
    and rest: "rules_loop_validate r route (Suc n) rules s1 w1 = (Inr state', w')"
    using Cons.prems(1) by (auto split: prod.splits sum.splits)
  note one = backends_loop_ok [OF assms(1) _ b Cons.prems(2)]
  have "http_references_ok (rts_References s1)"
    using one by simp
  then show ?case
    using Cons.IH [OF rest] one by (simp add: rule_filters_set_def)
qed simp

lemma validated_http_references:
  assumes "backoff_laws (val_backoff r)" and "RouteValidator_Validate r (GwHTTP route) w = (Inr state, w')"
  shows "http_references_ok (rts_References state)" and "route_filters_set (GwHTTP route) \<Longrightarrow> filters_set (rts_References state)"
proof -
  have "http_references_ok (rts_References state) \<and> (list_all rule_filters_set (ghrt_Rules route) \<longrightarrow>
      filters_set (rts_References NewRouteState) \<longrightarrow> filters_set (rts_References state))"
    by (rule rules_loop_validate_ok [OF assms(1), of "GwHTTP route" 0 "ghrt_Rules route" NewRouteState w])
      (use assms(2) in \<open>simp_all add: RouteValidator_Validate_def validateHTTPRoute_def NewRouteState_def http_references_ok_def\<close>)
  then show "http_references_ok (rts_References state)" and "route_filters_set (GwHTTP route) \<Longrightarrow> filters_set (rts_References state)"
    by (simp_all add: route_filters_set_def) (simp add: NewRouteState_def filters_set_def)
qed

lemma tcp_references:
  assumes "backoff_laws (val_backoff r)" and "validateTCPRoute r NewRouteState route w = (Inr state, w')"
  shows "\<exists>service. tcpReferencesToService (rts_References state) = Some service"
proof -
  have empty: "rts_References (add_error NewRouteState e) = []" for e
    by (simp add: add_error_def NewRouteState_def)
  have one: ?thesis if "validate_backend r (GwTCP route) rule ref arg NewRouteState w = (Inr state, w')" for rule ref arg
    using validate_backend_references [OF assms(1) that] by (auto simp: NewRouteState_def References_Add_def NewConsulServiceReference_def)
  show ?thesis
    using assms(2) one by (auto simp: validateTCPRoute_def empty split: list.splits)
qed

text \<open>C19: a validated route can be converted. Whatever Kubernetes and Consul answer, when the validator accepts a route
  whose filters all have the settings for their types, resolving it
  for any listener of any gateway reads no nil pointer: every reference it collected has a Consul service and, for an
  HTTP route, the backend it was resolved for.\<close>

theorem validated_route_resolves:
  assumes "backoff_laws (val_backoff r)" and "RouteValidator_Validate r route w = (Inr state, w')" and "route_filters_set route"
  shows "\<exists>resolved. K8sRoute_resolve \<lparr>kr_Route = route, kr_State = state\<rparr> ns gateway listener = Some resolved \<and>
    GetType resolved = (case route of GwHTTP _ \<Rightarrow> ResolvedHTTPRouteType | GwTCP _ \<Rightarrow> ResolvedTCPRouteType)"
proof (cases route)
  case (GwHTTP httpRoute)
  note refs = validated_http_references [OF assms(1) assms(2) [unfolded GwHTTP]]
  show ?thesis
    using refs(1) refs(2) [OF assms(3) [unfolded GwHTTP]] by (simp add: GwHTTP K8sRoute_resolve_def HTTPConvert_ok Let_def)
next
  case (GwTCP tcpRoute)
  have "\<exists>service. tcpReferencesToService (rts_References state) = Some service"
    by (rule tcp_references [OF assms(1)]) (use assms(2) GwTCP in \<open>simp add: RouteValidator_Validate_def\<close>)
  then show ?thesis
    by (auto simp: GwTCP K8sRoute_resolve_def TCPRouteConverter_Convert_def TCPRouteBuilder_Build_def Let_def)
qed


definition sample_validator :: "unit RouteValidator" where
  "sample_validator = \<lparr>val_client = empty_cluster, val_resolver = small_resolver, val_backoff = (\<lambda>n attempt. attempt)\<rparr>"

definition filtered_http_route :: "GwHTTPRouteFilter list \<Rightarrow> GwHTTPRoute" where
  "filtered_http_route filters = sample_http_route\<lparr>ghrt_Rules := [\<lparr>ghr_Matches = [], ghr_Filters = filters,
     ghr_BackendRefs = [\<lparr>bo_Group = None, bo_Kind = None, bo_Name = ''svc'', bo_Namespace = None, bo_Port = Some 80,
       br_Weight = None, hbr_Filters = []\<rparr>]\<rparr>]\<rparr>"

abbreviation backed_http_route :: GwHTTPRoute where
  "backed_http_route \<equiv> filtered_http_route []"

lemma backed_route_validated:
  "\<exists>state. RouteValidator_Validate sample_validator (GwHTTP (filtered_http_route filters)) () = (Inr state, ()) \<and>
     map (map rf_Consul \<circ> snd) (rts_References state) = [[Some \<lparr>cs_Namespace = '''', cs_Name = ''web''\<rparr>]] \<and>
     (filters_set (rts_References state) \<longleftrightarrow> list_all filter_set filters)"
  by (simp add: RouteValidator_Validate_def validateHTTPRoute_def filtered_http_route_def sample_http_route_def sample_validator_def
      validate_backend_def routeAllowedForBackendRef_def referenceAllowed_def BackendObjectReference.truncate_def
      Resolve_def small_resolver_def consulServiceForK8SService_def findGlobalCatalogService_def k8s_service_attempt_def
      validateAgentConsulReference_def has_prefix_def NewRouteState_def References_Add_def NewConsulServiceReference_def
      filters_set_def reference_filters_set_def)

theorem validated_route_resolves_witness:
  "\<exists>state resolved. RouteValidator_Validate sample_validator (GwHTTP backed_http_route) () = (Inr state, ()) \<and>
     rts_References state \<noteq> [] \<and>
     K8sRoute_resolve \<lparr>kr_Route = GwHTTP backed_http_route, kr_State = state\<rparr> ''n'' two_listeners (named_listener ''a'' 80) = Some resolved"
proof -
  obtain state where v: "RouteValidator_Validate sample_validator (GwHTTP backed_http_route) () = (Inr state, ())"
    and refs: "map (map rf_Consul \<circ> snd) (rts_References state) = [[Some \<lparr>cs_Namespace = '''', cs_Name = ''web''\<rparr>]]"
    using backed_route_validated [of "[]"] by (elim exE conjE)
  have laws: "backoff_laws (val_backoff sample_validator)"
    by (auto simp: sample_validator_def backoff_laws_def)
  have filters: "route_filters_set (GwHTTP backed_http_route)"
    by (simp add: route_filters_set_def rule_filters_set_def filtered_http_route_def)
  obtain resolved where r: "K8sRoute_resolve \<lparr>kr_Route = GwHTTP backed_http_route, kr_State = state\<rparr> ''n'' two_listeners (named_listener ''a'' 80) = Some resolved"
    using validated_route_resolves [OF laws v filters, of "''n''" two_listeners "named_listener ''a'' 80"] by (elim exE conjE)
  have n: "rts_References state \<noteq> []"
    using refs by (cases "rts_References state") simp_all
  show ?thesis
    by (intro exI conjI) (fact v, fact n, fact r)
qed



end
