(* ===== verification/Secret_URL.thy ===== *)
theory Secret_URL
  imports Go_Prelude
begin

text \<open>
  The names of certificate secrets, \<open>internal/k8s/utils/secrets.go\<close>: a Kubernetes secret is written as a URL and read
  back by the server that hands certificates to Envoy. The parts of \<open>net/url\<close> that the file uses are written out at
  the level of bytes: the escapes of a path, the scheme and the split into authority and path. Whether an authority is well formed is
  the argument \<open>authority\<close>, since the file uses nothing else of it. The property is the round trip.
\<close>

section \<open>Escapes\<close>

definition is_alnum :: "char \<Rightarrow> bool" where
  "is_alnum c \<longleftrightarrow> (CHR ''a'' \<le> c \<and> c \<le> CHR ''z'') \<or> (CHR ''A'' \<le> c \<and> c \<le> CHR ''Z'') \<or> (CHR ''0'' \<le> c \<and> c \<le> CHR ''9'')"

definition should_escape :: "char \<Rightarrow> bool" where
  "should_escape c \<longleftrightarrow> \<not> (is_alnum c \<or> c \<in> set ''-_.~$&+,/:;=@'')"

definition upper_hex :: "nat \<Rightarrow> char" where
  "upper_hex d = ''0123456789ABCDEF'' ! d"

fun escape_path :: "string \<Rightarrow> string" where
  "escape_path [] = []"
| "escape_path (c # s) =
     (if should_escape c then CHR ''%'' # upper_hex (of_char c div 16) # upper_hex (of_char c mod 16) # escape_path s
      else c # escape_path s)"

definition unhex :: "char \<Rightarrow> nat option" where
  "unhex c =
     (if CHR ''0'' \<le> c \<and> c \<le> CHR ''9'' then Some (of_char c - 48)
      else if CHR ''a'' \<le> c \<and> c \<le> CHR ''f'' then Some (of_char c - 87)
      else if CHR ''A'' \<le> c \<and> c \<le> CHR ''F'' then Some (of_char c - 55)
      else None)"

fun unescape_path :: "string \<Rightarrow> string option" where
  "unescape_path [] = Some []"
| "unescape_path (c # s) =
     (if c = CHR ''%''
      then (case s of
              a # b # s' \<Rightarrow>
                (case (unhex a, unhex b) of
                   (Some h, Some l) \<Rightarrow> map_option (\<lambda>t. char_of (16 * h + l) # t) (unescape_path s')
                 | _ \<Rightarrow> None)
            | _ \<Rightarrow> None)
      else map_option (\<lambda>t. c # t) (unescape_path s))"

section \<open>URLs\<close>

record URL =
  url_Scheme :: string
  url_Path :: string

definition URL_String :: "URL \<Rightarrow> string" where
  "URL_String u =
     (if url_Scheme u \<noteq> '''' then url_Scheme u @ '':'' @ (if url_Path u \<noteq> '''' then ''//'' else '''') else '''') @
     (if url_Path u = ''*'' then ''*'' else escape_path (url_Path u))"

definition is_ctl :: "char \<Rightarrow> bool" where
  "is_ctl c \<longleftrightarrow> of_char c < (32 :: nat) \<or> of_char c = (127 :: nat)"

definition is_letter :: "char \<Rightarrow> bool" where
  "is_letter c \<longleftrightarrow> (CHR ''a'' \<le> c \<and> c \<le> CHR ''z'') \<or> (CHR ''A'' \<le> c \<and> c \<le> CHR ''Z'')"

text \<open>The scheme that was read so far, in reverse: \<^const>\<open>None\<close> is a missing scheme before a colon.\<close>

fun get_scheme :: "string \<Rightarrow> string \<Rightarrow> string \<Rightarrow> (string \<times> string) option" where
  "get_scheme raw acc [] = Some ('''', raw)"
| "get_scheme raw acc (c # s) =
     (if is_letter c then get_scheme raw (c # acc) s
      else if (CHR ''0'' \<le> c \<and> c \<le> CHR ''9'') \<or> c \<in> set ''+-.''
      then (if acc = [] then Some ('''', raw) else get_scheme raw (c # acc) s)
      else if c = CHR '':'' then (if acc = [] then None else Some (rev acc, s))
      else Some ('''', raw))"

definition cut :: "char \<Rightarrow> string \<Rightarrow> string" where
  "cut c s = takeWhile (\<lambda>x. x \<noteq> c) s"

definition parse_rest :: "(string \<Rightarrow> go_error) \<Rightarrow> string \<Rightarrow> string \<Rightarrow> string + URL" where
  "parse_rest authority scheme rest =
     (let finish = (\<lambda>path. case unescape_path path of
             None \<Rightarrow> Inl ''invalid URL escape''
           | Some p \<Rightarrow> Inr \<lparr>url_Scheme = scheme, url_Path = p\<rparr>) in
      if \<not> has_prefix rest ''/'' \<and> scheme \<noteq> '''' then Inr \<lparr>url_Scheme = scheme, url_Path = ''''\<rparr>
      else if \<not> has_prefix rest ''/'' \<and> contains (cut (CHR ''/'') rest) '':''
      then Inl ''first path segment in URL cannot contain colon''
      else if (scheme \<noteq> '''' \<or> \<not> has_prefix rest ''///'') \<and> has_prefix rest ''//''
      then (let a = drop 2 rest in
            case authority (cut (CHR ''/'') a) of
              Some err \<Rightarrow> Inl err
            | None \<Rightarrow> finish (drop (length (cut (CHR ''/'') a)) a))
      else finish rest)"

definition URL_Parse :: "(string \<Rightarrow> go_error) \<Rightarrow> string \<Rightarrow> string + URL" where
  "URL_Parse authority rawURL =
     (let u = cut (CHR ''#'') rawURL; frag = drop (Suc (length u)) rawURL in
      if list_ex is_ctl u then Inl ''net/url: invalid control character in URL''
      else (let result =
              (if u = ''*'' then Inr \<lparr>url_Scheme = '''', url_Path = ''*''\<rparr>
               else (case get_scheme u [] u of
                       None \<Rightarrow> Inl ''missing protocol scheme''
                     | Some (scheme, rest) \<Rightarrow> parse_rest authority (map ascii_lower scheme) (cut (CHR ''?'') rest))) in
            case result of
              Inl err \<Rightarrow> Inl err
            | Inr url \<Rightarrow> if frag = '''' then Inr url
                       else (case unescape_path frag of None \<Rightarrow> Inl ''invalid URL escape'' | Some _ \<Rightarrow> Inr url)))"

section \<open>Secrets\<close>

abbreviation (input) ErrNotK8sSecret :: string where "ErrNotK8sSecret \<equiv> ''not a kubernetes secret''"
abbreviation (input) ErrInvalidK8sSecret :: string where "ErrInvalidK8sSecret \<equiv> ''invalid kubernetes secret''"
abbreviation (input) K8sSecretScheme :: string where "K8sSecretScheme \<equiv> ''k8s''"

record K8sSecret =
  ksec_Namespace :: string
  ksec_Name :: string

definition NewK8sSecret :: "string \<Rightarrow> string \<Rightarrow> K8sSecret" where
  "NewK8sSecret ns name = \<lparr>ksec_Namespace = ns, ksec_Name = name\<rparr>"

definition ParseK8sSecret :: "(string \<Rightarrow> go_error) \<Rightarrow> string \<Rightarrow> string + K8sSecret" where
  "ParseK8sSecret authority encoded =
     (case URL_Parse authority encoded of
        Inl err \<Rightarrow> Inl err
      | Inr parsed \<Rightarrow>
          if url_Scheme parsed \<noteq> K8sSecretScheme then Inl ErrNotK8sSecret
          else if \<not> has_prefix (url_Path parsed) ''/'' then Inl ErrInvalidK8sSecret
          else (case split_n 2 (CHR ''/'') (trim_prefix (url_Path parsed) ''/'') of
                  [ns, name] \<Rightarrow> Inr (NewK8sSecret ns name)
                | _ \<Rightarrow> Inl ErrInvalidK8sSecret))"

definition K8sSecret_String :: "K8sSecret \<Rightarrow> string" where
  "K8sSecret_String k =
     URL_String \<lparr>url_Scheme = K8sSecretScheme, url_Path = ''/'' @ ksec_Namespace k @ ''/'' @ ksec_Name k\<rparr>"

section \<open>The round trip\<close>

lemma byte_cases: "(of_char c :: nat) < 256"
  by simp

lemma hex_digits: "(of_char c :: nat) div 16 < 16" "(of_char c :: nat) mod 16 < 16"
  by (simp_all add: div_less_iff_less_mult)

lemma unhex_upper_hex: "d < 16 \<Longrightarrow> unhex (upper_hex d) = Some d"
proof -
  have "list_all (\<lambda>d. unhex (upper_hex d) = Some d) [0 ..< 16]"
    by code_simp
  then show "d < 16 \<Longrightarrow> unhex (upper_hex d) = Some d"
    by (simp add: list_all_iff)
qed

lemma unescape_escape_path: "unescape_path (escape_path s) = Some s"
proof (induction s)
  case (Cons c s)
  have "should_escape (CHR ''%'')"
    by code_simp
  then show ?case
    using Cons unhex_upper_hex [OF hex_digits(1) [of c]] unhex_upper_hex [OF hex_digits(2) [of c]] by auto
qed simp

text \<open>An escaped path has none of the bytes that end a path or are refused.\<close>

definition plain_byte :: "char \<Rightarrow> bool" where
  "plain_byte c \<longleftrightarrow> \<not> is_ctl c \<and> c \<noteq> CHR ''#'' \<and> c \<noteq> CHR ''?''"

lemma plain_upper_hex: "d < 16 \<Longrightarrow> plain_byte (upper_hex d)"
proof -
  have "list_all (\<lambda>d. plain_byte (upper_hex d)) [0 ..< 16]"
    by code_simp
  then show "d < 16 \<Longrightarrow> plain_byte (upper_hex d)"
    by (simp add: list_all_iff)
qed

lemma plain_unescaped: "\<not> should_escape c \<Longrightarrow> plain_byte c"
  by (auto simp: should_escape_def is_alnum_def plain_byte_def is_ctl_def less_eq_char_def)

lemma plain_escape: "list_all plain_byte (escape_path s)"
proof (induction s)
  case (Cons c s)
  have "plain_byte (CHR ''%'')"
    by code_simp
  then show ?case
    using Cons plain_upper_hex [OF hex_digits(1) [of c]] plain_upper_hex [OF hex_digits(2) [of c]] plain_unescaped [of c] by simp
qed simp

lemma cut_none: "c \<notin> set s \<Longrightarrow> cut c s = s"
  by (auto simp: cut_def takeWhile_eq_all_conv)

lemma escape_slash: "escape_path (''/'' @ s) = CHR ''/'' # escape_path s"
  by (simp add: should_escape_def is_alnum_def)

lemma split_n_two:
  assumes "c \<notin> set a"
  shows "split_n 2 c (a @ c # b) = [a, b]"
proof -
  have "dropWhile (\<lambda>x. x \<noteq> c) (a @ c # b) = c # b" "takeWhile (\<lambda>x. x \<noteq> c) (a @ c # b) = a"
    using assms by (auto simp: dropWhile_append takeWhile_append)
  then show ?thesis
    by (simp add: numeral_2_eq_2)
qed

lemma parse_k8s_url:
  assumes "authority '''' = None" and "list_all plain_byte p"
  shows "URL_Parse authority (''k8s:///'' @ p) =
    (case unescape_path (CHR ''/'' # p) of
       None \<Rightarrow> Inl ''invalid URL escape''
     | Some q \<Rightarrow> Inr \<lparr>url_Scheme = ''k8s'', url_Path = q\<rparr>)"
proof -
  let ?u = "''k8s:///'' @ p"
  have plain: "list_all plain_byte ?u"
    using assms(2) by (simp add: plain_byte_def is_ctl_def)
  have no: "CHR ''#'' \<notin> set ?u"
    using plain unfolding list_all_iff plain_byte_def by blast
  have sep: "cut (CHR ''#'') ?u = ?u" "\<not> list_ex is_ctl ?u"
    using plain unfolding list_all_iff list_ex_iff plain_byte_def by (blast intro: cut_none [OF no])+
  have q: "CHR ''?'' \<notin> set p"
    using assms(2) unfolding list_all_iff plain_byte_def by blast
  have scheme: "get_scheme ?u [] ?u = Some (''k8s'', ''///'' @ p)"
    by (simp add: is_letter_def)
  have query: "cut (CHR ''?'') (''///'' @ p) = ''///'' @ p"
    using q by (intro cut_none) simp
  have rest: "parse_rest authority ''k8s'' (''///'' @ p) =
    (case unescape_path (CHR ''/'' # p) of
       None \<Rightarrow> Inl ''invalid URL escape''
     | Some q \<Rightarrow> Inr \<lparr>url_Scheme = ''k8s'', url_Path = q\<rparr>)"
    by (simp add: parse_rest_def has_prefix_def cut_def assms(1) Let_def)
  have lower: "map ascii_lower ''k8s'' = ''k8s''"
    by code_simp
  show ?thesis
    unfolding URL_Parse_def Let_def sep(1) scheme option.case prod.case query lower rest
    using sep(2) by (simp split: option.splits)
qed

text \<open>C29: the name of a certificate secret survives being handed to Envoy and back. For every Kubernetes secret whose
  namespace has no slash, which Kubernetes does not allow in one, parsing the URL that is written for it gives the
  secret again, whatever bytes its name has.\<close>

theorem K8sSecret_roundtrip:
  assumes "CHR ''/'' \<notin> set (ksec_Namespace k)" and "authority '''' = None"
  shows "ParseK8sSecret authority (K8sSecret_String k) = Inr k"
proof -
  let ?p = "ksec_Namespace k @ ''/'' @ ksec_Name k"
  have "K8sSecret_String k = ''k8s:///'' @ escape_path ?p"
    using escape_slash [of ?p] by (simp add: K8sSecret_String_def URL_String_def)
  moreover have "unescape_path (CHR ''/'' # escape_path ?p) = Some (''/'' @ ?p)"
    using unescape_escape_path [of ?p] by simp
  ultimately have "URL_Parse authority (K8sSecret_String k) = Inr \<lparr>url_Scheme = ''k8s'', url_Path = ''/'' @ ?p\<rparr>"
    using parse_k8s_url [of authority "escape_path ?p"] assms(2) plain_escape [of ?p] by simp
  then show ?thesis
    using split_n_two [OF assms(1), of "ksec_Name k"]
    by (simp add: ParseK8sSecret_def has_prefix_def trim_prefix_def NewK8sSecret_def)
qed

theorem K8sSecret_roundtrip_witness:
  "K8sSecret_String (NewK8sSecret ''ns'' ''a b'') = ''k8s:///ns/a%20b'' \<and>
   ParseK8sSecret (\<lambda>_. None) (K8sSecret_String (NewK8sSecret ''ns'' ''a b'')) = Inr (NewK8sSecret ''ns'' ''a b'')"
  using K8sSecret_roundtrip [of "NewK8sSecret ''ns'' ''a b''" "\<lambda>_. None"]
  by (simp add: NewK8sSecret_def K8sSecret_String_def URL_String_def should_escape_def is_alnum_def upper_hex_def)

end
