(* ===== verification/Gateway_Validator.thy ===== *)
theory Gateway_Validator
  imports Route_Validator Secret_URL
begin

text \<open>
  The validator of gateways, \<open>internal/k8s/reconciler/validator/gateway.go\<close>: it derives the state of a gateway from its
  specification, its pods, its service and the secrets its listeners name. An index out of range stops the program:
  \<^const>\<open>None\<close>. The text that \<open>%v\<close> gives for route kinds holds addresses and is a parameter. The properties are which
  listeners conflict, and what a listener that is ready to be bound to has been checked for.
\<close>

record 'w GatewayValidator =
  gv_client :: "'w Kube"
  gv_kinds_text :: "RouteGroupKind list \<Rightarrow> string"

section \<open>Conflicts between listeners\<close>

record mergedListener =
  ml_port :: int
  ml_listeners :: "nat list"
  ml_protocols :: "(string, unit) gomap"
  ml_hostnames :: "(string, unit) gomap"

definition merge_listener :: "nat \<Rightarrow> Listener \<Rightarrow> (int, mergedListener) gomap \<Rightarrow> (int, mergedListener) gomap" where
  "merge_listener i listener mergedListeners =
     (let merged = (case map_of mergedListeners (li_Port listener) of
            Some merged \<Rightarrow> merged
          | None \<Rightarrow> \<lparr>ml_port = li_Port listener, ml_listeners = [], ml_protocols = [], ml_hostnames = []\<rparr>);
          merged = merged\<lparr>ml_listeners := ml_listeners merged @ [i]\<rparr>;
          merged = merged\<lparr>ml_protocols := AList.update (li_Protocol listener) () (ml_protocols merged)\<rparr>;
          merged = (case li_Hostname listener of
            Some hostname \<Rightarrow> merged\<lparr>ml_hostnames := AList.update hostname () (ml_hostnames merged)\<rparr>
          | None \<Rightarrow> merged) in
      AList.update (li_Port listener) merged mergedListeners)"

fun merge_listeners_loop :: "nat \<Rightarrow> Listener list \<Rightarrow> (int, mergedListener) gomap \<Rightarrow> (int, mergedListener) gomap" where
  "merge_listeners_loop i [] mergedListeners = mergedListeners"
| "merge_listeners_loop i (listener # listeners) mergedListeners =
     merge_listeners_loop (Suc i) listeners (merge_listener i listener mergedListeners)"

definition mergeListenersByPort :: "Gateway \<Rightarrow> (int, mergedListener) gomap" where
  "mergeListenersByPort g = merge_listeners_loop 0 (gw_Listeners g) []"

text \<open>Go ranges over the merged listeners and over a set in an order of its own choice: \<open>port_order\<close> and
  \<open>set_order\<close> are these choices.\<close>

type_synonym port_order = "(int \<times> mergedListener) list \<Rightarrow> (int \<times> mergedListener) list"
type_synonym set_order = "(string \<times> unit) list \<Rightarrow> (string \<times> unit) list"

definition setToCSV :: "set_order \<Rightarrow> (string, unit) gomap \<Rightarrow> string" where
  "setToCSV so s = join '', '' (map fst (go_range so s))"

fun set_conflict :: "(ListenerConflictedStatus \<Rightarrow> ListenerConflictedStatus) \<Rightarrow> nat list \<Rightarrow> ListenerState list \<Rightarrow> ListenerState list option" where
  "set_conflict f [] states = Some states"
| "set_conflict f (index # indices) states =
     (if index < length states
      then (let status = lsn_Status (states ! index) in
            set_conflict f indices
              (states[index := (states ! index)\<lparr>lsn_Status := status\<lparr>lst_Conflicted := f (lst_Conflicted status)\<rparr>\<rparr>]))
      else None)"

fun conflicts_loop :: "set_order \<Rightarrow> (int \<times> mergedListener) list \<Rightarrow> ListenerState list \<Rightarrow> ListenerState list option" where
  "conflicts_loop so [] states = Some states"
| "conflicts_loop so ((_, merged) # rest) states = do {
     states \<leftarrow> (if length (ml_protocols merged) > 1
       then set_conflict (\<lambda>s. s\<lparr>lcf_ProtocolConflict :=
              Some (''listeners have conflicting protocols for port: '' @ setToCSV so (ml_protocols merged))\<rparr>) (ml_listeners merged) states
       else Some states);
     states \<leftarrow> (if length (ml_hostnames merged) > 1
       then set_conflict (\<lambda>s. s\<lparr>lcf_HostnameConflict :=
              Some (''listeners have conflicting hostnames for port: '' @ setToCSV so (ml_protocols merged))\<rparr>) (ml_listeners merged) states
       else Some states);
     conflicts_loop so rest states
   }"

definition validateListenerConflicts :: "port_order \<Rightarrow> set_order \<Rightarrow> GatewayState \<Rightarrow> Gateway \<Rightarrow> GatewayState option" where
  "validateListenerConflicts po so state gateway =
     map_option (\<lambda>states. state\<lparr>gts_Listeners := states\<rparr>) (conflicts_loop so (go_range po (mergeListenersByPort gateway)) (gts_Listeners state))"

section \<open>Pods and addresses\<close>

definition set_scheduled :: "(GatewayScheduledStatus \<Rightarrow> GatewayScheduledStatus) \<Rightarrow> GatewayState \<Rightarrow> GatewayState" where
  "set_scheduled f state =
     state\<lparr>gts_Status := (gts_Status state)\<lparr>gst_Scheduled := f (gst_Scheduled (gts_Status state))\<rparr>\<rparr>"

fun pending_loop :: "PodCondition list \<Rightarrow> GatewayState \<Rightarrow> GatewayState" where
  "pending_loop [] state = set_scheduled (\<lambda>s. s\<lparr>gsc_NotReconciled := Some ''pod conditions not found''\<rparr>) state"
| "pending_loop (condition # conditions) state =
     (if pc_Type condition = ''PodScheduled'' \<and> pc_Status condition = ''False'' \<and> contains (pc_Reason condition) ''Unschedulable''
      then set_scheduled (\<lambda>s. s\<lparr>gsc_NoResources := Some (pc_Message condition)\<rparr>) state
      else pending_loop conditions state)"

definition validatePodStatusPending :: "GatewayState \<Rightarrow> Pod \<Rightarrow> GatewayState" where
  "validatePodStatusPending state pod = pending_loop (pod_Conditions pod) state"

fun running_loop :: "PodCondition list \<Rightarrow> GatewayState \<Rightarrow> GatewayState" where
  "running_loop [] state = state"
| "running_loop (condition # conditions) state =
     (if pc_Type condition = ''Ready'' \<and> pc_Status condition = ''True'' then state\<lparr>gts_PodReady := True\<rparr>
      else running_loop conditions state)"

definition validatePodStatusRunning :: "GatewayState \<Rightarrow> Pod \<Rightarrow> GatewayState" where
  "validatePodStatusRunning state pod = running_loop (pod_Conditions pod) state"

definition validatePodConditions :: "GatewayState \<Rightarrow> Pod option \<Rightarrow> GatewayState" where
  "validatePodConditions state p =
     (case p of
        None \<Rightarrow> set_scheduled (\<lambda>s. s\<lparr>gsc_NotReconciled := Some ''pod not found''\<rparr>) state
      | Some pod \<Rightarrow>
          if pod_Phase pod = ''Pending'' then validatePodStatusPending state pod
          else if pod_Phase pod = ''Running'' then validatePodStatusRunning state pod
          else if pod_Phase pod \<in> {''Succeeded'', ''Failed''}
          then set_scheduled (\<lambda>s. s\<lparr>gsc_PodFailed := Some ''pod not running''\<rparr>) state
          else set_scheduled (\<lambda>s. s\<lparr>gsc_Unknown := Some ''pod status unknown''\<rparr>) state)"

definition validatePods :: "'w GatewayValidator \<Rightarrow> GatewayState \<Rightarrow> Gateway \<Rightarrow> 'w \<Rightarrow> (string + GatewayState) \<times> 'w" where
  "validatePods g state gateway w =
     (case PodsWithLabels (gv_client g) (LabelsForGateway gateway) w of
        (Inl err, w') \<Rightarrow> (Inl err, w')
      | (Inr pods, w') \<Rightarrow> (Inr (fold (\<lambda>pod state. validatePodConditions state (Some pod)) pods state), w'))"

definition add_address :: "string \<Rightarrow> GatewayState \<Rightarrow> GatewayState" where
  "add_address address state =
     (if address \<noteq> '''' then state\<lparr>gts_ServiceReady := True, gts_Addresses := gts_Addresses state @ [address]\<rparr> else state)"

definition add_new_address :: "string \<Rightarrow> GatewayState \<Rightarrow> GatewayState" where
  "add_new_address address state =
     (if address \<noteq> ''''
      then (let state = state\<lparr>gts_ServiceReady := True\<rparr> in
            if address \<notin> set (gts_Addresses state) then state\<lparr>gts_Addresses := gts_Addresses state @ [address]\<rparr> else state)
      else state)"

definition not_reconciled :: "string \<Rightarrow> GatewayState \<Rightarrow> GatewayState" where
  "not_reconciled err = set_scheduled (\<lambda>s. s\<lparr>gsc_NotReconciled := Some err\<rparr>)"

definition assignGatewayIPFromServiceIngress :: "'w GatewayValidator \<Rightarrow> GatewayState \<Rightarrow> Service \<Rightarrow> 'w \<Rightarrow> (string + GatewayState) \<times> 'w" where
  "assignGatewayIPFromServiceIngress g state service w =
     (case GetService (gv_client g) (NamespacedName_of (sv_Meta service)) w of
        (Inl err, w') \<Rightarrow> (Inl err, w')
      | (Inr None, w') \<Rightarrow> (Inr (not_reconciled ''service not found'' state), w')
      | (Inr (Some updated), w') \<Rightarrow>
          (Inr (fold (\<lambda>ingress state. add_address (lbi_Hostname ingress) (add_address (lbi_IP ingress) state)) (sv_Ingress updated) state), w'))"

definition assignGatewayIPFromService :: "'w GatewayValidator \<Rightarrow> GatewayState \<Rightarrow> Service \<Rightarrow> 'w \<Rightarrow> (string + GatewayState) \<times> 'w" where
  "assignGatewayIPFromService g state service w =
     (case GetService (gv_client g) (NamespacedName_of (sv_Meta service)) w of
        (Inl err, w') \<Rightarrow> (Inl err, w')
      | (Inr None, w') \<Rightarrow> (Inr (not_reconciled ''service not found'' state), w')
      | (Inr (Some updated), w') \<Rightarrow> (Inr (add_address (sv_ClusterIP updated) state), w'))"

definition assignGatewayIPFromPods :: "'w GatewayValidator \<Rightarrow> GatewayState \<Rightarrow> Gateway \<Rightarrow> 'w \<Rightarrow> (string + GatewayState) \<times> 'w" where
  "assignGatewayIPFromPods g state gateway w =
     (case PodsWithLabels (gv_client g) (LabelsForGateway gateway) w of
        (Inl err, w') \<Rightarrow> (Inl err, w')
      | (Inr pods, w') \<Rightarrow>
          if length pods = 0 then (Inr (not_reconciled ''pods not found'' state), w')
          else (Inr (fold (\<lambda>pod. add_new_address (pod_PodIP pod)) pods state), w'))"

definition assignGatewayIPFromPodHost :: "'w GatewayValidator \<Rightarrow> GatewayState \<Rightarrow> Gateway \<Rightarrow> 'w \<Rightarrow> (string + GatewayState) \<times> 'w" where
  "assignGatewayIPFromPodHost g state gateway w =
     (case PodsWithLabels (gv_client g) (LabelsForGateway gateway) w of
        (Inl err, w') \<Rightarrow> (Inl err, w')
      | (Inr pods, w') \<Rightarrow>
          if length pods = 0 then (Inr (not_reconciled ''pods not found'' state), w')
          else (Inr (fold (\<lambda>pod. add_new_address (pod_HostIP pod)) pods state), w'))"

definition validateGatewayIP ::
  "'w GatewayValidator \<Rightarrow> GatewayState \<Rightarrow> Gateway \<Rightarrow> Service option \<Rightarrow> 'w \<Rightarrow> (string + GatewayState) \<times> 'w" where
  "validateGatewayIP g state gateway s w =
     (case s of
        None \<Rightarrow> assignGatewayIPFromPods g state gateway w
      | Some service \<Rightarrow>
          if sv_Type service = ''LoadBalancer'' then assignGatewayIPFromServiceIngress g state service w
          else if sv_Type service = ''ClusterIP'' then assignGatewayIPFromService g state service w
          else if sv_Type service = ''NodePort'' then assignGatewayIPFromPodHost g state gateway w
          else (Inl (''unsupported service type: '' @ sv_Type service), w))"

section \<open>Protocols\<close>

definition isKindInSet :: "RouteGroupKind \<Rightarrow> RouteGroupKind list \<Rightarrow> bool" where
  "isKindInSet value kinds =
     list_ex (\<lambda>kind.
       (case (rgk_Group value, rgk_Group kind) of
          (None, None) \<Rightarrow> True
        | (Some a, Some b) \<Rightarrow> a = b
        | _ \<Rightarrow> False) \<and> rgk_Kind value = rgk_Kind kind) kinds"

definition kindsNotInSet :: "RouteGroupKind list \<Rightarrow> RouteGroupKind list \<Rightarrow> RouteGroupKind list" where
  "kindsNotInSet kinds parent = filter (\<lambda>kind. \<not> isKindInSet kind parent) kinds"

definition set_detached :: "(ListenerDetachedStatus \<Rightarrow> ListenerDetachedStatus) \<Rightarrow> ListenerState \<Rightarrow> ListenerState" where
  "set_detached f l = l\<lparr>lsn_Status := (lsn_Status l)\<lparr>lst_Detached := f (lst_Detached (lsn_Status l))\<rparr>\<rparr>"

definition set_refs :: "(ListenerResolvedRefsStatus \<Rightarrow> ListenerResolvedRefsStatus) \<Rightarrow> ListenerState \<Rightarrow> ListenerState" where
  "set_refs f l = l\<lparr>lsn_Status := (lsn_Status l)\<lparr>lst_ResolvedRefs := f (lst_ResolvedRefs (lsn_Status l))\<rparr>\<rparr>"

definition set_invalid :: "string \<Rightarrow> ListenerState \<Rightarrow> ListenerState" where
  "set_invalid err l = l\<lparr>lsn_Status := (lsn_Status l)\<lparr>lst_Ready := (lst_Ready (lsn_Status l))\<lparr>lrd_Invalid := Some err\<rparr>\<rparr>\<rparr>"

definition validateUnsupported :: "ListenerState \<Rightarrow> Gateway \<Rightarrow> ListenerState" where
  "validateUnsupported state gateway =
     (if length (gw_Addresses gateway) > 0
      then set_detached (\<lambda>s. s\<lparr>ldt_UnsupportedAddress := Some ''specified addresses are not supported''\<rparr>) state else state)"

definition validateProtocols :: "'w GatewayValidator \<Rightarrow> ListenerState \<Rightarrow> Listener \<Rightarrow> ListenerState" where
  "validateProtocols g state listener =
     (let supportedKinds = (case SupportedKindsFor (li_Protocol listener) of None \<Rightarrow> [] | Some kinds \<Rightarrow> kinds);
          state = (if length supportedKinds = 0
            then set_detached (\<lambda>s. s\<lparr>ldt_UnsupportedProtocol := Some (''unsupported protocol: '' @ li_Protocol listener)\<rparr>) state else state) in
      case li_AllowedRoutes listener of
        None \<Rightarrow> state
      | Some allowed \<Rightarrow>
          let remainderKinds = kindsNotInSet (ar_Kinds allowed) supportedKinds in
          if length remainderKinds \<noteq> 0
          then set_refs (\<lambda>s. s\<lparr>lrr_InvalidRouteKinds := Some (''listener has unsupported kinds: '' @ gv_kinds_text g remainderKinds)\<rparr>) state
          else state)"

section \<open>Certificates\<close>

definition gatewayAllowedForSecretRef :: "'w Kube \<Rightarrow> Gateway \<Rightarrow> SecretObjectReference \<Rightarrow> 'w \<Rightarrow> (string + bool) \<times> 'w" where
  "gatewayAllowedForSecretRef c gateway secretRef w =
     (let fromNS = om_Namespace (gw_Meta gateway);
          fromGK = om_GroupVersionKind (gw_Meta gateway);
          toName = so_Name secretRef;
          toNS = (case so_Namespace secretRef of Some n \<Rightarrow> n | None \<Rightarrow> '''');
          toGK = \<lparr>gk_Group = '''', gk_Kind = ''Secret''\<rparr>;
          toGK = (case so_Group secretRef of Some grp \<Rightarrow> toGK\<lparr>gk_Group := grp\<rparr> | None \<Rightarrow> toGK);
          toGK = (case so_Kind secretRef of Some k \<Rightarrow> toGK\<lparr>gk_Kind := k\<rparr> | None \<Rightarrow> toGK) in
      referenceAllowed c fromGK fromNS toGK toNS toName w)"

text \<open>An error of the certificate's resolution: a \<open>CertificateResolutionError\<close> or any other error.\<close>

datatype certificate_failure = Certificate CertificateResolutionError | OtherCertificateError string

definition resolveCertificateReference ::
  "'w Kube \<Rightarrow> Gateway \<Rightarrow> SecretObjectReference \<Rightarrow> 'w \<Rightarrow> (certificate_failure + string) \<times> 'w" where
  "resolveCertificateReference c gateway ref w =
     (let grp = (case so_Group ref of Some grp \<Rightarrow> grp | None \<Rightarrow> '''');
          kind = (case so_Kind ref of Some k \<Rightarrow> k | None \<Rightarrow> ''Secret'');
          ns = (case so_Namespace ref of Some n \<Rightarrow> n | None \<Rightarrow> om_Namespace (gw_Meta gateway)) in
      if kind = ''Secret'' \<and> grp = ''''
      then (case GetSecret c \<lparr>nn_Namespace = ns, nn_Name = so_Name ref\<rparr> w of
              (Inl err, w') \<Rightarrow> (Inl (OtherCertificateError (''error fetching secret: '' @ err)), w')
            | (Inr None, w') \<Rightarrow> (Inl (Certificate (NewCertificateResolutionErrorNotFound ''certificate not found'')), w')
            | (Inr (Some cert), w') \<Rightarrow> (Inr (K8sSecret_String (NewK8sSecret ns (so_Name ref))), w'))
      else (Inl (Certificate (NewCertificateResolutionErrorUnsupported
              (''unsupported certificate type - group: '' @ grp @ '', kind: '' @ kind))), w))"

abbreviation (input) annotationKeyPrefix :: string where
  "annotationKeyPrefix \<equiv> ''api-gateway.consul.hashicorp.com/''"

text \<open>The options of a listener's TLS section. The first option that is not supported ends the check; what was set before it stays.\<close>

definition cipher_suites_option :: "string \<Rightarrow> ListenerState \<Rightarrow> ListenerState" where
  "cipher_suites_option tlsCipherSuitesStr state =
     (if tlsCipherSuitesStr \<noteq> ''''
      then (let tlsCipherSuites = map trim_space (split_on (CHR '','') tlsCipherSuitesStr) in
            case find (\<lambda>c. \<not> SupportedTLSCipherSuite c) tlsCipherSuites of
              Some c \<Rightarrow> set_invalid (''unrecognized or unsupported TLS cipher suite: '' @ c) state
            | None \<Rightarrow> state\<lparr>lsn_TLS := (lsn_TLS state)\<lparr>tls_CipherSuites := tlsCipherSuites\<rparr>\<rparr>)
      else state)"

definition max_version_option :: "string \<Rightarrow> string \<Rightarrow> ListenerState \<Rightarrow> ListenerState" where
  "max_version_option tlsMaxVersion tlsCipherSuitesStr state =
     (if tlsMaxVersion \<noteq> ''''
      then (if tlsMaxVersion \<notin> set SupportedTLSVersions then set_invalid ''unrecognized TLS max version'' state
            else cipher_suites_option tlsCipherSuitesStr (state\<lparr>lsn_TLS := (lsn_TLS state)\<lparr>tls_MaxVersion := tlsMaxVersion\<rparr>\<rparr>))
      else cipher_suites_option tlsCipherSuitesStr state)"

definition min_version_option :: "string \<Rightarrow> string \<Rightarrow> string \<Rightarrow> ListenerState \<Rightarrow> ListenerState" where
  "min_version_option tlsMinVersion tlsMaxVersion tlsCipherSuitesStr state =
     (if tlsMinVersion \<noteq> ''''
      then (if tlsMinVersion \<notin> set SupportedTLSVersions then set_invalid ''unrecognized TLS min version'' state
            else if tlsCipherSuitesStr \<noteq> '''' \<and> tlsMinVersion \<notin> set TLSVersionsWithConfigurableCipherSuites
            then set_invalid ''configuring TLS cipher suites is only supported for TLS 1.2 and earlier'' state
            else max_version_option tlsMaxVersion tlsCipherSuitesStr (state\<lparr>lsn_TLS := (lsn_TLS state)\<lparr>tls_MinVersion := tlsMinVersion\<rparr>\<rparr>))
      else max_version_option tlsMaxVersion tlsCipherSuitesStr state)"

definition tls_options :: "(string, string) gomap \<Rightarrow> ListenerState \<Rightarrow> ListenerState" where
  "tls_options options =
     min_version_option (get_string options (annotationKeyPrefix @ ''tls_min_version''))
       (get_string options (annotationKeyPrefix @ ''tls_max_version''))
       (get_string options (annotationKeyPrefix @ ''tls_cipher_suites''))"

definition validateTLS ::
  "'w GatewayValidator \<Rightarrow> ListenerState \<Rightarrow> Gateway \<Rightarrow> Listener \<Rightarrow> 'w \<Rightarrow> (string + ListenerState) \<times> 'w" where
  "validateTLS g state gateway listener w =
     (case li_TLS listener of
        None \<Rightarrow>
          (Inr (if snd (ProtocolToConsul (li_Protocol listener))
                then set_invalid ''tls configuration required for the given protocol'' state else state), w)
      | Some t \<Rightarrow>
          if gt_Mode t = Some ''Passthrough'' then (Inr (set_invalid ''tls passthrough not supported'' state), w)
          else (case gt_CertificateRefs t of
             [] \<Rightarrow> (Inr (set_refs (\<lambda>s. s\<lparr>lrr_InvalidCertificateRef := Some ''certificate reference must be set''\<rparr>) state), w)
           | ref # _ \<Rightarrow>
               (case gatewayAllowedForSecretRef (gv_client g) gateway ref w of
                  (Inl err, w1) \<Rightarrow> (Inl err, w1)
                | (Inr False, w1) \<Rightarrow>
                    (Inr (set_refs (\<lambda>s. s\<lparr>lrr_RefNotPermitted := Some (ce_inner (NewCertificateResolutionErrorNotPermitted
                       (''Cross-namespace listener certificate not allowed without matching ReferenceGrant for Secret '' @
                        quote (NamespacedName_String (getNamespacedName (so_Name ref) (so_Namespace ref) (om_Namespace (gw_Meta gateway)))))))\<rparr>) state), w1)
                | (Inr True, w1) \<Rightarrow>
                    (case resolveCertificateReference (gv_client g) gateway ref w1 of
                       (Inl (OtherCertificateError err), w2) \<Rightarrow> (Inl err, w2)
                     | (Inl (Certificate certificateErr), w2) \<Rightarrow>
                         (Inr (set_refs (\<lambda>s. s\<lparr>lrr_InvalidCertificateRef := Some (ce_inner certificateErr)\<rparr>) state), w2)
                     | (Inr resource, w2) \<Rightarrow>
                         (Inr (tls_options (gt_Options t) (state\<lparr>lsn_TLS := (lsn_TLS state)\<lparr>tls_Certificates := [resource]\<rparr>\<rparr>)), w2)))))"

section \<open>Validation\<close>

definition validate_listener ::
  "'w GatewayValidator \<Rightarrow> ListenerState \<Rightarrow> Gateway \<Rightarrow> Listener \<Rightarrow> 'w \<Rightarrow> (string + ListenerState) \<times> 'w" where
  "validate_listener g state gateway listener w =
     (case validateTLS g (validateProtocols g (validateUnsupported state gateway) listener) gateway listener w of
        (Inl err, w') \<Rightarrow> (Inl err, w')
      | (Inr state', w') \<Rightarrow>
          (Inr (if lrd_Invalid (lst_Ready (lsn_Status state')) = None \<and> \<not> ListenerStatus_Valid (lsn_Status state')
                then set_invalid ''listener is in an invalid state'' state' else state'), w'))"

fun listeners_loop_validate ::
  "'w GatewayValidator \<Rightarrow> Gateway \<Rightarrow> ListenerState list \<Rightarrow> Listener list \<Rightarrow> 'w \<Rightarrow> ((string + ListenerState list) \<times> 'w) option" where
  "listeners_loop_validate g gateway [] listeners w = Some (Inr [], w)"
| "listeners_loop_validate g gateway (state # states) [] w = None"
| "listeners_loop_validate g gateway (state # states) (listener # listeners) w =
     (case validate_listener g state gateway listener w of
        (Inl err, w') \<Rightarrow> Some (Inl err, w')
      | (Inr state', w') \<Rightarrow>
          map_option (\<lambda>(r, w''). (map_sum id (\<lambda>rest. state' # rest) r, w'')) (listeners_loop_validate g gateway states listeners w'))"

definition set_gateway_ready :: "(GatewayReadyStatus \<Rightarrow> GatewayReadyStatus) \<Rightarrow> GatewayState \<Rightarrow> GatewayState" where
  "set_gateway_ready f state = state\<lparr>gts_Status := (gts_Status state)\<lparr>gst_Ready := f (gst_Ready (gts_Status state))\<rparr>\<rparr>"

definition validateListeners ::
  "'w GatewayValidator \<Rightarrow> GatewayState \<Rightarrow> Gateway \<Rightarrow> 'w \<Rightarrow> ((string + GatewayState) \<times> 'w) option" where
  "validateListeners g state gateway w =
     (case listeners_loop_validate g gateway (gts_Listeners state) (gw_Listeners gateway) w of
        None \<Rightarrow> None
      | Some (Inl err, w') \<Rightarrow> Some (Inl err, w')
      | Some (Inr states, w') \<Rightarrow>
          let listenersReady = list_all (\<lambda>s. lrd_Pending (lst_Ready (lsn_Status s)) = None) states;
              listenersInvalid = list_ex (\<lambda>s. lrd_Invalid (lst_Ready (lsn_Status s)) \<noteq> None) states;
              state = state\<lparr>gts_Listeners := states\<rparr> in
          Some (Inr (if listenersInvalid then set_gateway_ready (\<lambda>s. s\<lparr>grd_ListenersNotValid := Some ''gateway listeners not valid''\<rparr>) state
                     else if \<not> gts_PodReady state \<or> \<not> gts_ServiceReady state \<or> \<not> listenersReady
                     then set_gateway_ready (\<lambda>s. s\<lparr>grd_ListenersNotReady := Some ''gateway listeners not ready''\<rparr>) state
                     else state), w'))"

definition validate_addresses :: "GatewayState \<Rightarrow> Gateway \<Rightarrow> GatewayState" where
  "validate_addresses state gateway =
     (if length (gw_Addresses gateway) \<noteq> 0
      then set_gateway_ready (\<lambda>s. s\<lparr>grd_AddressNotAssigned := Some ''gateway does not support requesting addresses''\<rparr>) state
      else state)"

definition GatewayValidator_Validate ::
  "port_order \<Rightarrow> set_order \<Rightarrow> 'w GatewayValidator \<Rightarrow> Gateway \<Rightarrow> Service option \<Rightarrow> 'w \<Rightarrow> ((string + GatewayState) \<times> 'w) option" where
  "GatewayValidator_Validate po so g gateway service w =
     (case validateListenerConflicts po so (InitialGatewayState gateway) gateway of
        None \<Rightarrow> None
      | Some state \<Rightarrow>
          (case validatePods g state gateway w of
             (Inl err, w1) \<Rightarrow> Some (Inl err, w1)
           | (Inr state, w1) \<Rightarrow>
               (case validateGatewayIP g state gateway service w1 of
                  (Inl err, w2) \<Rightarrow> Some (Inl err, w2)
                | (Inr state, w2) \<Rightarrow> validateListeners g (validate_addresses state gateway) gateway w2)))"

section \<open>Which listeners conflict\<close>

definition on_port :: "int \<Rightarrow> Listener list \<Rightarrow> Listener set" where
  "on_port p ls = {l \<in> set ls. li_Port l = p}"

definition merged_ok :: "Listener list \<Rightarrow> int \<Rightarrow> mergedListener \<Rightarrow> bool" where
  "merged_ok ls p m \<longleftrightarrow>
     ml_listeners m = filter (\<lambda>i. li_Port (ls ! i) = p) [0..<length ls] \<and>
     gomap_ok (ml_protocols m) \<and> keys (ml_protocols m) = li_Protocol ` on_port p ls \<and>
     gomap_ok (ml_hostnames m) \<and> Some ` keys (ml_hostnames m) = li_Hostname ` on_port p ls - {None}"

definition merge_ok :: "Listener list \<Rightarrow> (int, mergedListener) gomap \<Rightarrow> bool" where
  "merge_ok ls M \<longleftrightarrow> gomap_ok M \<and> keys M = li_Port ` set ls \<and> (\<forall>p m. map_of M p = Some m \<longrightarrow> merged_ok ls p m)"

lemma on_port_snoc: "on_port p (ls @ [l]) = (if li_Port l = p then insert l (on_port p ls) else on_port p ls)"
  by (auto simp: on_port_def)

lemma indices_snoc:
  "filter (\<lambda>i. li_Port ((ls @ [l]) ! i) = p) [0..<length (ls @ [l])] =
   filter (\<lambda>i. li_Port (ls ! i) = p) [0..<length ls] @ (if li_Port l = p then [length ls] else [])"
proof -
  have "filter (\<lambda>i. li_Port ((ls @ [l]) ! i) = p) [0..<length ls] = filter (\<lambda>i. li_Port (ls ! i) = p) [0..<length ls]"
    by (rule filter_cong) (auto simp: nth_append)
  then show ?thesis
    by (simp add: nth_append)
qed

lemma merged_ok_fresh:
  assumes "p \<notin> li_Port ` set ls"
  shows "merged_ok ls p \<lparr>ml_port = p, ml_listeners = [], ml_protocols = [], ml_hostnames = []\<rparr>"
proof -
  have "on_port p ls = {}"
    using assms by (auto simp: on_port_def)
  moreover have "filter (\<lambda>i. li_Port (ls ! i) = p) [0..<length ls] = []"
    using assms by (auto simp: filter_empty_conv)
  ultimately show ?thesis
    by (simp add: merged_ok_def)
qed

lemma merge_ok_step:
  assumes "merge_ok ls M"
  shows "merge_ok (ls @ [l]) (merge_listener (length ls) l M)"
proof -
  let ?p = "li_Port l"
  obtain m where m: "(case map_of M ?p of Some merged \<Rightarrow> merged
      | None \<Rightarrow> \<lparr>ml_port = ?p, ml_listeners = [], ml_protocols = [], ml_hostnames = []\<rparr>) = m" and ok: "merged_ok ls ?p m"
  proof (cases "map_of M ?p")
    case None
    then have "?p \<notin> li_Port ` set ls"
      using assms by (simp add: merge_ok_def map_of_eq_None_iff)
    with None merged_ok_fresh [OF this] that show thesis by simp
  next
    case (Some m)
    with assms that show thesis by (simp add: merge_ok_def)
  qed
  define m' where "m' = (case li_Hostname l of
      Some hostname \<Rightarrow> m\<lparr>ml_listeners := ml_listeners m @ [length ls], ml_protocols := AList.update (li_Protocol l) () (ml_protocols m),
        ml_hostnames := AList.update hostname () (ml_hostnames m)\<rparr>
    | None \<Rightarrow> m\<lparr>ml_listeners := ml_listeners m @ [length ls], ml_protocols := AList.update (li_Protocol l) () (ml_protocols m)\<rparr>)"
  have step: "merge_listener (length ls) l M = AList.update ?p m' M"
    unfolding merge_listener_def Let_def m m'_def by (simp split: option.split)
  have m': "merged_ok (ls @ [l]) ?p m'"
    using ok unfolding merged_ok_def indices_snoc on_port_snoc m'_def
    by (cases "li_Hostname l") (auto simp: keys_update)
  have other: "merged_ok (ls @ [l]) p n" if "map_of M p = Some n" "p \<noteq> ?p" for p n
    using assms that unfolding merge_ok_def merged_ok_def indices_snoc on_port_snoc by auto
  show ?thesis
    unfolding step merge_ok_def using assms m' other
    by (auto simp: merge_ok_def gomap_simps keys_update split: if_splits)
qed

lemma merge_listeners_loop_ok:
  "merge_ok pre M \<Longrightarrow> merge_ok (pre @ ls) (merge_listeners_loop (length pre) ls M)"
proof (induction ls arbitrary: pre M)
  case (Cons l ls)
  show ?case
    using Cons.IH [OF merge_ok_step [OF Cons.prems, of l]] by simp
qed simp

lemma mergeListenersByPort_ok: "merge_ok (gw_Listeners g) (mergeListenersByPort g)"
  using merge_listeners_loop_ok [of "[]" "[]" "gw_Listeners g"] by (simp add: mergeListenersByPort_def merge_ok_def)

lemma length_gomap_gt_1: "gomap_ok m \<Longrightarrow> length m > 1 \<longleftrightarrow> (\<exists>a \<in> keys m. \<exists>b \<in> keys m. a \<noteq> b)"
proof -
  assume "gomap_ok m"
  then have "length m = card (keys m)"
    by (metis distinct_card gomap_ok_def length_map list.set_map)
  moreover have "card (keys m) > 1 \<longleftrightarrow> (\<exists>a \<in> keys m. \<exists>b \<in> keys m. a \<noteq> b)"
    by (metis One_nat_def card_le_Suc0_iff_eq finite_imageI finite_set leD not_le_imp_less)
  ultimately show ?thesis
    by simp
qed

text \<open>The listeners of a port conflict in their protocols, or in the hostnames they have.\<close>

definition protocols_differ :: "int \<Rightarrow> Listener list \<Rightarrow> bool" where
  "protocols_differ p ls \<longleftrightarrow> (\<exists>a \<in> on_port p ls. \<exists>b \<in> on_port p ls. li_Protocol a \<noteq> li_Protocol b)"

definition hostnames_differ :: "int \<Rightarrow> Listener list \<Rightarrow> bool" where
  "hostnames_differ p ls \<longleftrightarrow> (\<exists>a \<in> on_port p ls. \<exists>b \<in> on_port p ls. li_Hostname a \<noteq> None \<and> li_Hostname b \<noteq> None \<and> li_Hostname a \<noteq> li_Hostname b)"

lemma differ_image: "(\<exists>a \<in> f ` S - {z}. \<exists>b \<in> f ` S - {z}. a \<noteq> b) \<longleftrightarrow> (\<exists>a \<in> S. \<exists>b \<in> S. f a \<noteq> z \<and> f b \<noteq> z \<and> f a \<noteq> f b)"
  by auto

lemma merged_differ:
  assumes "merged_ok ls p m"
  shows "length (ml_protocols m) > 1 \<longleftrightarrow> protocols_differ p ls" and "length (ml_hostnames m) > 1 \<longleftrightarrow> hostnames_differ p ls"
proof -
  have k: "gomap_ok (ml_protocols m)" "keys (ml_protocols m) = li_Protocol ` on_port p ls"
    "gomap_ok (ml_hostnames m)" "Some ` keys (ml_hostnames m) = li_Hostname ` on_port p ls - {None}"
    using assms by (simp_all add: merged_ok_def)
  show "length (ml_protocols m) > 1 \<longleftrightarrow> protocols_differ p ls"
    unfolding length_gomap_gt_1 [OF k(1)] k(2) protocols_differ_def by blast
  have "(\<exists>a \<in> keys (ml_hostnames m). \<exists>b \<in> keys (ml_hostnames m). a \<noteq> b) \<longleftrightarrow>
      (\<exists>a \<in> Some ` keys (ml_hostnames m). \<exists>b \<in> Some ` keys (ml_hostnames m). a \<noteq> b)"
    by auto
  also have "\<dots> \<longleftrightarrow> hostnames_differ p ls"
    unfolding k(4) hostnames_differ_def by (rule differ_image)
  finally show "length (ml_hostnames m) > 1 \<longleftrightarrow> hostnames_differ p ls"
    unfolding length_gomap_gt_1 [OF k(3)] .
qed

subsection \<open>The loop over the ports\<close>

abbreviation conflicted :: "ListenerState \<Rightarrow> ListenerConflictedStatus" where
  "conflicted s \<equiv> lst_Conflicted (lsn_Status s)"

definition upd_conflict :: "(ListenerConflictedStatus \<Rightarrow> ListenerConflictedStatus) \<Rightarrow> ListenerState \<Rightarrow> ListenerState" where
  "upd_conflict f s = s\<lparr>lsn_Status := (lsn_Status s)\<lparr>lst_Conflicted := f (conflicted s)\<rparr>\<rparr>"

lemma upd_conflict_simps [simp]:
  "conflicted (upd_conflict f s) = f (conflicted s)"
  "upd_conflict f (upd_conflict h s) = upd_conflict (\<lambda>c. f (h c)) s"
  "upd_conflict (\<lambda>_. f (conflicted s)) s = upd_conflict f s"
  "upd_conflict (\<lambda>c. c) s = s"
  "upd_conflict (\<lambda>_. conflicted s) s = s"
  by (simp_all add: upd_conflict_def)

lemma set_conflict_spec:
  assumes "\<And>s. f (f s) = f s" and "list_all (\<lambda>i. i < length states) is"
  shows "\<exists>states'. set_conflict f is states = Some states' \<and> length states' = length states \<and>
    (\<forall>i < length states. states' ! i = (if i \<in> set is then upd_conflict f (states ! i) else states ! i))"
  using assms(2)
proof (induction "is" arbitrary: states)
  case (Cons j js)
  let ?s = "states[j := upd_conflict f (states ! j)]"
  have j: "j < length states" and js: "list_all (\<lambda>i. i < length ?s) js"
    using Cons.prems by simp_all

  obtain states' where s': "set_conflict f js ?s = Some states'" "length states' = length ?s"
    "\<forall>i < length ?s. states' ! i = (if i \<in> set js then upd_conflict f (?s ! i) else ?s ! i)"
    using Cons.IH [OF js] by blast
  moreover have "set_conflict f (j # js) states = set_conflict f js ?s"
    using j by (simp add: upd_conflict_def Let_def)
  ultimately show ?case
    using j by (auto simp: nth_list_update assms(1))
qed simp

text \<open>A listener's state before and after: only its conflicts may differ, and those of the given entries are set.\<close>

definition conflict_in :: "(mergedListener \<Rightarrow> (string, unit) gomap) \<Rightarrow> (int \<times> mergedListener) list \<Rightarrow> nat \<Rightarrow> bool" where
  "conflict_in sel es i \<longleftrightarrow> (\<exists>(p, m) \<in> set es. i \<in> set (ml_listeners m) \<and> length (sel m) > 1)"

definition conflict_step :: "(int \<times> mergedListener) list \<Rightarrow> nat \<Rightarrow> ListenerState \<Rightarrow> ListenerState \<Rightarrow> bool" where
  "conflict_step es i s s' \<longleftrightarrow>
     s' = upd_conflict (\<lambda>_. conflicted s') s \<and> lcf_RouteConflict (conflicted s') = lcf_RouteConflict (conflicted s) \<and>
     (lcf_ProtocolConflict (conflicted s') \<noteq> None \<longleftrightarrow> lcf_ProtocolConflict (conflicted s) \<noteq> None \<or> conflict_in ml_protocols es i) \<and>
     (lcf_HostnameConflict (conflicted s') \<noteq> None \<longleftrightarrow> lcf_HostnameConflict (conflicted s) \<noteq> None \<or> conflict_in ml_hostnames es i)"

lemma conflict_step_trans:
  assumes "conflict_step [e] i s s1" and "conflict_step es i s1 s2"
  shows "conflict_step (e # es) i s s2"
proof -
  note a = assms(1) [unfolded conflict_step_def] and b = assms(2) [unfolded conflict_step_def]
  have split: "conflict_in sel (e # es) i \<longleftrightarrow> conflict_in sel [e] i \<or> conflict_in sel es i" for sel
    by (auto simp: conflict_in_def)
  have "upd_conflict (\<lambda>_. conflicted s2) s1 = upd_conflict (\<lambda>_. conflicted s2) s"
    by (subst conjunct1 [OF a]) simp
  then have "s2 = upd_conflict (\<lambda>_. conflicted s2) s"
    using conjunct1 [OF b] by (rule trans [rotated])
  moreover have "lcf_RouteConflict (conflicted s2) = lcf_RouteConflict (conflicted s) \<and>
     (lcf_ProtocolConflict (conflicted s2) \<noteq> None \<longleftrightarrow> lcf_ProtocolConflict (conflicted s) \<noteq> None \<or> conflict_in ml_protocols (e # es) i) \<and>
     (lcf_HostnameConflict (conflicted s2) \<noteq> None \<longleftrightarrow> lcf_HostnameConflict (conflicted s) \<noteq> None \<or> conflict_in ml_hostnames (e # es) i)"
    using conjunct2 [OF a] conjunct2 [OF b] unfolding split by argo
  ultimately show ?thesis
    unfolding conflict_step_def by (rule conjI)
qed

lemma conflicts_one:
  assumes "list_all (\<lambda>i. i < length states) (ml_listeners m)"
  shows "\<exists>states'. conflicts_loop so [(p, m)] states = Some states' \<and> length states' = length states \<and>
    (\<forall>i < length states. conflict_step [(p, m)] i (states ! i) (states' ! i))"
proof -
  let ?f = "\<lambda>s. s\<lparr>lcf_ProtocolConflict := Some (''listeners have conflicting protocols for port: '' @ setToCSV so (ml_protocols m))\<rparr>"
  let ?g = "\<lambda>s. s\<lparr>lcf_HostnameConflict := Some (''listeners have conflicting hostnames for port: '' @ setToCSV so (ml_protocols m))\<rparr>"
  let ?P = "length (ml_protocols m) > 1" and ?H = "length (ml_hostnames m) > 1"
  obtain s1 where s1: "(if ?P then set_conflict ?f (ml_listeners m) states else Some states) = Some s1" "length s1 = length states"
    "\<forall>i < length states. s1 ! i = (if ?P \<and> i \<in> set (ml_listeners m) then upd_conflict ?f (states ! i) else states ! i)"
    using set_conflict_spec [of ?f states "ml_listeners m"] assms by (cases ?P) auto
  obtain s2 where s2: "(if ?H then set_conflict ?g (ml_listeners m) s1 else Some s1) = Some s2" "length s2 = length s1"
    "\<forall>i < length s1. s2 ! i = (if ?H \<and> i \<in> set (ml_listeners m) then upd_conflict ?g (s1 ! i) else s1 ! i)"
    using set_conflict_spec [of ?g s1 "ml_listeners m"] assms s1(2) by (cases ?H) auto
  have "conflicts_loop so [(p, m)] states = Some s2"
    using s1(1) s2(1) by simp
  moreover have "conflict_step [(p, m)] i (states ! i) (s2 ! i)" if "i < length states" for i
    using s1(2,3) s2(3) that by (simp add: conflict_step_def conflict_in_def) (simp add: upd_conflict_def)
  ultimately show ?thesis
    using s1(2) s2(2) by auto
qed

lemma conflicts_loop_Cons: "conflicts_loop so (e # es) states = do { states \<leftarrow> conflicts_loop so [e] states; conflicts_loop so es states }"
  by (cases e) (simp split: if_splits bind_splits)

lemma conflicts_loop_spec:
  assumes "\<forall>(p, m) \<in> set es. list_all (\<lambda>i. i < length states) (ml_listeners m)"
  shows "\<exists>states'. conflicts_loop so es states = Some states' \<and> length states' = length states \<and>
    (\<forall>i < length states. conflict_step es i (states ! i) (states' ! i))"
  using assms
proof (induction es arbitrary: states)
  case Nil
  then show ?case
    by (simp add: conflict_step_def conflict_in_def)
next
  case (Cons e es)
  obtain p m where e: "e = (p, m)" by (cases e)
  obtain s1 where s1: "conflicts_loop so [e] states = Some s1" "length s1 = length states"
    "\<forall>i < length states. conflict_step [e] i (states ! i) (s1 ! i)"
    using conflicts_one [where so = so and states = states and m = m and p = p] Cons.prems e by auto
  obtain s2 where "conflicts_loop so es s1 = Some s2" "length s2 = length s1"
    "\<forall>i < length s1. conflict_step es i (s1 ! i) (s2 ! i)"
    using Cons.IH [of s1] Cons.prems s1(2) by auto
  moreover from this s1 have "\<forall>i < length states. conflict_step (e # es) i (states ! i) (s2 ! i)"
    by (auto intro: conflict_step_trans)
  ultimately show ?case
    using s1(1,2) conflicts_loop_Cons [of so e es states] by simp
qed

text \<open>The state of one listener after the conflicts were found.\<close>

definition after_conflicts :: "Listener list \<Rightarrow> Listener \<Rightarrow> ListenerState \<Rightarrow> bool" where
  "after_conflicts ls l s \<longleftrightarrow>
     s = \<lparr>lsn_Routes = [], lsn_Protocol = li_Protocol l, lsn_Name = li_Name l, lsn_TLS = zero_TLSParams,
            lsn_Status = zero_ListenerStatus\<lparr>lst_Conflicted := conflicted s\<rparr>\<rparr> \<and>
     (lcf_ProtocolConflict (conflicted s) \<noteq> None \<longleftrightarrow> protocols_differ (li_Port l) ls) \<and>
     (lcf_HostnameConflict (conflicted s) \<noteq> None \<longleftrightarrow> hostnames_differ (li_Port l) ls)"

lemma conflict_in_port:
  assumes "merge_ok ls M" and "i < length ls"
    and "\<And>p m. merged_ok ls p m \<Longrightarrow> length (sel m) > 1 \<longleftrightarrow> P p"
  shows "conflict_in sel M i \<longleftrightarrow> P (li_Port (ls ! i))"
proof -
  have entry: "(p, m) \<in> set M \<longleftrightarrow> map_of M p = Some m" for p m
    using assms(1) by (simp add: merge_ok_def gomap_ok_def map_of_eq_Some_iff)
  have ok: "merged_ok ls p m" if "map_of M p = Some m" for p m
    using assms(1) that by (simp add: merge_ok_def)
  have idx: "i \<in> set (ml_listeners m) \<longleftrightarrow> p = li_Port (ls ! i)" if "map_of M p = Some m" for p m
    using ok [OF that] assms(2) by (auto simp: merged_ok_def)
  have "li_Port (ls ! i) \<in> keys M"
    using assms(1,2) by (simp add: merge_ok_def)
  then obtain m where "map_of M (li_Port (ls ! i)) = Some m"
    by (metis map_of_eq_None_iff not_None_eq)
  then show ?thesis
    unfolding conflict_in_def using entry idx assms(3) ok by fastforce
qed

lemma conflicts_found:
  "\<exists>states. validateListenerConflicts po so (InitialGatewayState g) g = Some ((InitialGatewayState g)\<lparr>gts_Listeners := states\<rparr>) \<and>
     list_all2 (after_conflicts (gw_Listeners g)) (gw_Listeners g) states"
proof -
  let ?ls = "gw_Listeners g" and ?M = "mergeListenersByPort g" and ?s = "gts_Listeners (InitialGatewayState g)"
  let ?R = "go_range po ?M"
  have len: "length ?s = length ?ls"
    by (simp add: InitialGatewayState_def)
  have M: "merge_ok ?ls ?M"
    by (rule mergeListenersByPort_ok)
  then have "\<forall>(p, m) \<in> set ?R. list_all (\<lambda>i. i < length ?s) (ml_listeners m)"
    unfolding len by (auto simp: merge_ok_def gomap_ok_def merged_ok_def list_all_iff)
  then obtain states where s: "conflicts_loop so ?R ?s = Some states" "length states = length ?s"
    "\<forall>i < length ?s. conflict_step ?R i (?s ! i) (states ! i)"
    using conflicts_loop_spec by blast
  have "after_conflicts ?ls (?ls ! i) (states ! i)" if i: "i < length ?ls" for i
  proof -
    have "conflict_in ml_protocols ?M i \<longleftrightarrow> protocols_differ (li_Port (?ls ! i)) ?ls"
      "conflict_in ml_hostnames ?M i \<longleftrightarrow> hostnames_differ (li_Port (?ls ! i)) ?ls"
      by (rule conflict_in_port [OF M i], erule merged_differ)+
    then have "conflict_in ml_protocols ?R i \<longleftrightarrow> protocols_differ (li_Port (?ls ! i)) ?ls"
      "conflict_in ml_hostnames ?R i \<longleftrightarrow> hostnames_differ (li_Port (?ls ! i)) ?ls"
      by (simp_all add: conflict_in_def)
    moreover have step: "conflict_step ?R i (?s ! i) (states ! i)"
      using s(3) i len by simp
    moreover have "?s ! i = \<lparr>lsn_Routes = [], lsn_Protocol = li_Protocol (?ls ! i), lsn_Name = li_Name (?ls ! i), lsn_TLS = zero_TLSParams,
        lsn_Status = zero_ListenerStatus\<rparr>"
      using i by (simp add: InitialGatewayState_def)
    moreover have "conflicted \<lparr>lsn_Routes = [], lsn_Protocol = p, lsn_Name = n, lsn_TLS = zero_TLSParams, lsn_Status = zero_ListenerStatus\<rparr>
      = zero_ListenerConflictedStatus" for p n
      by (simp add: zero_ListenerStatus_def)
    ultimately show ?thesis
      unfolding conflict_step_def after_conflicts_def by (simp add: upd_conflict_def zero_ListenerConflictedStatus_def)
  qed
  then show ?thesis
    using s len by (auto simp: validateListenerConflicts_def list_all2_conv_all_nth)
qed

section \<open>What validation keeps\<close>

lemma listeners_set_scheduled [simp]: "gts_Listeners (set_scheduled f s) = gts_Listeners s"
  by (simp add: set_scheduled_def)

lemma listeners_not_reconciled [simp]: "gts_Listeners (not_reconciled err s) = gts_Listeners s"
  by (simp add: not_reconciled_def)

lemma listeners_set_gateway_ready [simp]: "gts_Listeners (set_gateway_ready f s) = gts_Listeners s"
  by (simp add: set_gateway_ready_def)

lemma listeners_validate_addresses [simp]: "gts_Listeners (validate_addresses s gateway) = gts_Listeners s"
  by (simp add: validate_addresses_def)

lemma listeners_pending [simp]: "gts_Listeners (pending_loop cs s) = gts_Listeners s"
  by (induction cs) simp_all

lemma listeners_running [simp]: "gts_Listeners (running_loop cs s) = gts_Listeners s"
  by (induction cs) simp_all

lemma listeners_pod [simp]: "gts_Listeners (validatePodConditions s p) = gts_Listeners s"
  by (cases p) (simp_all add: validatePodConditions_def validatePodStatusPending_def validatePodStatusRunning_def)

lemma listeners_add_address [simp]: "gts_Listeners (add_address a s) = gts_Listeners s"
  by (simp add: add_address_def)

lemma listeners_add_new_address [simp]: "gts_Listeners (add_new_address a s) = gts_Listeners s"
  by (simp add: add_new_address_def Let_def)

lemma listeners_fold: "(\<And>x s. gts_Listeners (f x s) = gts_Listeners s) \<Longrightarrow> gts_Listeners (fold f xs s) = gts_Listeners s"
  by (induction xs arbitrary: s) simp_all

lemma validatePods_listeners: "validatePods g s gateway w = (Inr s', w') \<Longrightarrow> gts_Listeners s' = gts_Listeners s"
  by (auto simp: validatePods_def listeners_fold split: prod.splits sum.splits)

lemma validateGatewayIP_listeners: "validateGatewayIP g s gateway service w = (Inr s', w') \<Longrightarrow> gts_Listeners s' = gts_Listeners s"
  by (auto simp: validateGatewayIP_def assignGatewayIPFromPods_def assignGatewayIPFromServiceIngress_def assignGatewayIPFromService_def
      assignGatewayIPFromPodHost_def listeners_fold split: prod.splits sum.splits option.splits if_splits)

lemma listeners_loop_total: "length states \<le> length ls \<Longrightarrow> listeners_loop_validate g gateway states ls w \<noteq> None"
  by (induction g gateway states ls w rule: listeners_loop_validate.induct) (auto split: prod.splits sum.splits)

lemma listeners_loop_results:
  assumes "listeners_loop_validate g gateway states ls w = Some (Inr states', w')" and "length states = length ls"
  shows "length states' = length ls \<and>
    (\<forall>i < length ls. \<exists>w1 w2. validate_listener g (states ! i) gateway (ls ! i) w1 = (Inr (states' ! i), w2))"
  using assms
proof (induction states arbitrary: ls states' w)
  case (Cons s states)
  obtain l ls' where ls: "ls = l # ls'"
    using Cons.prems(2) by (cases ls) simp_all
  obtain s' w1 where v: "validate_listener g s gateway l w = (Inr s', w1)"
    using Cons.prems(1) ls by (auto split: prod.splits sum.splits)
  obtain rest where r: "listeners_loop_validate g gateway states ls' w1 = Some (Inr rest, w')" "states' = s' # rest"
    using Cons.prems(1) ls v by (auto split: sum.splits simp: map_sum_Inr)
  from Cons.IH [OF r(1)] Cons.prems(2) v show ?case
    by (auto simp: ls r(2) nth_Cons split: nat.split)
qed simp

text \<open>What the validation of a gateway did for each of its listeners.\<close>

lemma Validate_listeners:
  assumes "GatewayValidator_Validate po so g gateway service w = Some (Inr state, w')"
  shows "length (gts_Listeners state) = length (gw_Listeners gateway) \<and>
    (\<forall>i < length (gw_Listeners gateway). \<exists>s w1 w2. after_conflicts (gw_Listeners gateway) (gw_Listeners gateway ! i) s \<and>
       validate_listener g s gateway (gw_Listeners gateway ! i) w1 = (Inr (gts_Listeners state ! i), w2))"
proof -
  obtain states where c: "validateListenerConflicts po so (InitialGatewayState gateway) gateway = Some ((InitialGatewayState gateway)\<lparr>gts_Listeners := states\<rparr>)"
    and ok: "list_all2 (after_conflicts (gw_Listeners gateway)) (gw_Listeners gateway) states"
    using conflicts_found by blast
  obtain s2 w2 where s2: "gts_Listeners s2 = states" and v: "validateListeners g (validate_addresses s2 gateway) gateway w2 = Some (Inr state, w')"
    using assms by (auto simp: GatewayValidator_Validate_def c split: prod.splits sum.splits
      dest!: validatePods_listeners validateGatewayIP_listeners)
  obtain states' where l: "listeners_loop_validate g gateway states (gw_Listeners gateway) w2 = Some (Inr states', w')"
    and st: "gts_Listeners state = states'"
    using v s2 by (auto simp: validateListeners_def Let_def split: option.splits prod.splits sum.splits if_splits)
  show ?thesis
    using listeners_loop_results [OF l] ok unfolding st list_all2_conv_all_nth by metis
qed

lemma Validate_total: "GatewayValidator_Validate po so g gateway service w \<noteq> None"
proof -
  obtain states where c: "validateListenerConflicts po so (InitialGatewayState gateway) gateway = Some ((InitialGatewayState gateway)\<lparr>gts_Listeners := states\<rparr>)"
    and ok: "list_all2 (after_conflicts (gw_Listeners gateway)) (gw_Listeners gateway) states"
    using conflicts_found by blast
  have "validateListeners g s gateway w \<noteq> None" if "gts_Listeners s = states" for s w
    using listeners_loop_total [of states "gw_Listeners gateway" g gateway w] list_all2_lengthD [OF ok] that
    by (auto simp: validateListeners_def Let_def split: option.splits prod.splits sum.splits)
  then show ?thesis
    by (auto simp: GatewayValidator_Validate_def c split: prod.split sum.split dest!: validatePods_listeners validateGatewayIP_listeners)
qed


section \<open>The properties\<close>

lemma status_setters [simp]:
  "conflicted (set_detached f s) = conflicted s" "conflicted (set_refs h s) = conflicted s" "conflicted (set_invalid err s) = conflicted s"
  "lst_Detached (lsn_Status (set_refs h s)) = lst_Detached (lsn_Status s)" "lst_Detached (lsn_Status (set_invalid err s)) = lst_Detached (lsn_Status s)"
  "lst_Detached (lsn_Status (set_detached f s)) = f (lst_Detached (lsn_Status s))"
  "lst_ResolvedRefs (lsn_Status (set_detached f s)) = lst_ResolvedRefs (lsn_Status s)"
  "lst_ResolvedRefs (lsn_Status (set_refs h s)) = h (lst_ResolvedRefs (lsn_Status s))"
  "lst_ResolvedRefs (lsn_Status (set_invalid err s)) = lst_ResolvedRefs (lsn_Status s)"
  "lst_Ready (lsn_Status (set_detached f s)) = lst_Ready (lsn_Status s)" "lst_Ready (lsn_Status (set_refs h s)) = lst_Ready (lsn_Status s)"
  "lrd_Invalid (lst_Ready (lsn_Status (set_invalid err s))) = Some err"
  "lsn_TLS (set_detached f s) = lsn_TLS s" "lsn_TLS (set_refs h s) = lsn_TLS s" "lsn_TLS (set_invalid err s) = lsn_TLS s"
  by (simp_all add: set_detached_def set_refs_def set_invalid_def)

text \<open>Two states of a listener that agree in all that the options of its TLS section do not set.\<close>

definition same_but_tls :: "ListenerState \<Rightarrow> ListenerState \<Rightarrow> bool" where
  "same_but_tls s s' \<longleftrightarrow> conflicted s' = conflicted s \<and> lst_Detached (lsn_Status s') = lst_Detached (lsn_Status s) \<and>
     lst_ResolvedRefs (lsn_Status s') = lst_ResolvedRefs (lsn_Status s)"

lemma same_but_tls_simps [simp]:
  "same_but_tls s (set_invalid err s') = same_but_tls s s'"
  "same_but_tls s (s'\<lparr>lsn_TLS := t\<rparr>) = same_but_tls s s'"
  "same_but_tls s s"
  by (simp_all add: same_but_tls_def)

lemma cipher_suites_status [simp]: "same_but_tls s (cipher_suites_option suites s') = same_but_tls s s'"
  by (simp add: cipher_suites_option_def Let_def split: option.split)

lemma max_version_status [simp]: "same_but_tls s (max_version_option v suites s') = same_but_tls s s'"
  by (simp add: max_version_option_def)

lemma min_version_status [simp]: "same_but_tls s (min_version_option v v' suites s') = same_but_tls s s'"
  by (simp add: min_version_option_def)

lemma tls_options_same [simp]: "same_but_tls s (tls_options opts s') = same_but_tls s s'"
  unfolding tls_options_def by simp

lemma tls_options_status:
  "conflicted (tls_options opts s) = conflicted s \<and> lst_Detached (lsn_Status (tls_options opts s)) = lst_Detached (lsn_Status s) \<and>
   lst_ResolvedRefs (lsn_Status (tls_options opts s)) = lst_ResolvedRefs (lsn_Status s)"
  using tls_options_same [of s opts s] unfolding same_but_tls_def by simp

lemma validateTLS_status:
  assumes "validateTLS g s gateway l w = (Inr s', w')"
  shows "conflicted s' = conflicted s \<and> lst_Detached (lsn_Status s') = lst_Detached (lsn_Status s)"
  using assms tls_options_status
  by (auto simp: validateTLS_def split: option.splits if_splits list.splits prod.splits sum.splits bool.splits certificate_failure.splits)

lemma validateProtocols_conflicted: "conflicted (validateProtocols g s l) = conflicted s"
  by (simp add: validateProtocols_def Let_def split: option.split)

lemma validateUnsupported_conflicted: "conflicted (validateUnsupported s gateway) = conflicted s"
  by (simp add: validateUnsupported_def)

lemma validate_listener_conflicted:
  assumes "validate_listener g s gateway l w = (Inr s', w')"
  shows "conflicted s' = conflicted s"
proof -
  let ?s = "validateProtocols g (validateUnsupported s gateway) l"
  obtain s1 where "validateTLS g ?s gateway l w = (Inr s1, w')" "conflicted s' = conflicted s1"
    using assms by (auto simp: validate_listener_def split: prod.splits sum.splits)
  then show ?thesis
    using validateTLS_status [of g ?s gateway l w s1 w'] by (simp add: validateProtocols_conflicted validateUnsupported_conflicted)
qed


text \<open>C21: the conflicts of a gateway's listeners. Validation never reads out of range. When it gives a state, the state marks
  exactly the listeners on whose port the listeners have different protocols as conflicting in the protocol, and
  exactly those on whose port the listeners with a hostname have different ones as conflicting in the hostname.\<close>

theorem conflicts_exact:
  "\<exists>r w'. GatewayValidator_Validate po so g gateway service w = Some (r, w') \<and>
     (case r of
        Inl err \<Rightarrow> True
      | Inr state \<Rightarrow>
          map (\<lambda>s. lcf_ProtocolConflict (lst_Conflicted (lsn_Status s)) \<noteq> None) (gts_Listeners state) =
          map (\<lambda>l. protocols_differ (li_Port l) (gw_Listeners gateway)) (gw_Listeners gateway) \<and>
          map (\<lambda>s. lcf_HostnameConflict (lst_Conflicted (lsn_Status s)) \<noteq> None) (gts_Listeners state) =
          map (\<lambda>l. hostnames_differ (li_Port l) (gw_Listeners gateway)) (gw_Listeners gateway))"
proof -
  obtain r w' where r: "GatewayValidator_Validate po so g gateway service w = Some (r, w')"
    using Validate_total [of po so g gateway service w] by auto
  show ?thesis
  proof (cases r)
    case (Inr state)
    note listeners = Validate_listeners [OF r [unfolded Inr]]
    have "lcf_ProtocolConflict (conflicted (gts_Listeners state ! i)) \<noteq> None \<longleftrightarrow> protocols_differ (li_Port (gw_Listeners gateway ! i)) (gw_Listeners gateway)"
      "lcf_HostnameConflict (conflicted (gts_Listeners state ! i)) \<noteq> None \<longleftrightarrow> hostnames_differ (li_Port (gw_Listeners gateway ! i)) (gw_Listeners gateway)"
      if "i < length (gw_Listeners gateway)" for i
      using listeners that validate_listener_conflicted unfolding after_conflicts_def by metis+
    then show ?thesis
      using r Inr listeners by (auto simp: list_eq_iff_nth_eq)
  qed (use r in simp)
qed

text \<open>The TLS parameters a listener may have.\<close>

definition tls_checked :: "TLSParams \<Rightarrow> bool" where
  "tls_checked p \<longleftrightarrow>
     tls_MinVersion p \<in> insert '''' (set SupportedTLSVersions) \<and> tls_MaxVersion p \<in> insert '''' (set SupportedTLSVersions) \<and>
     list_all SupportedTLSCipherSuite (tls_CipherSuites p) \<and>
     (tls_CipherSuites p = [] \<or> tls_MinVersion p \<in> set TLSVersionsWithConfigurableCipherSuites)"

lemma cipher_suites_checked:
  assumes "lrd_Invalid (lst_Ready (lsn_Status (cipher_suites_option suites s))) = None"
    and "tls_checked (lsn_TLS s)" and "suites = '''' \<or> tls_MinVersion (lsn_TLS s) \<in> set TLSVersionsWithConfigurableCipherSuites"
  shows "tls_checked (lsn_TLS (cipher_suites_option suites s)) \<and>
    tls_Certificates (lsn_TLS (cipher_suites_option suites s)) = tls_Certificates (lsn_TLS s)"
proof (cases "suites = ''''")
  case True
  then show ?thesis
    using assms(2) by (simp add: cipher_suites_option_def)
next
  case False
  let ?cs = "map trim_space (split_on (CHR '','') suites)"
  have ok: "find (\<lambda>c. \<not> SupportedTLSCipherSuite c) ?cs = None"
    using assms(1) False by (auto simp: cipher_suites_option_def Let_def split: option.splits)
  then have eq: "cipher_suites_option suites s = s\<lparr>lsn_TLS := (lsn_TLS s)\<lparr>tls_CipherSuites := ?cs\<rparr>\<rparr>"
    using False by (simp add: cipher_suites_option_def)
  have "list_all SupportedTLSCipherSuite ?cs"
    using ok by (auto simp: find_None_iff list_all_iff)
  then show ?thesis
    using assms(2,3) False unfolding eq by (simp add: tls_checked_def)
qed

lemma max_version_checked:
  assumes "lrd_Invalid (lst_Ready (lsn_Status (max_version_option v suites s))) = None"
    and "tls_checked (lsn_TLS s)" and "suites = '''' \<or> tls_MinVersion (lsn_TLS s) \<in> set TLSVersionsWithConfigurableCipherSuites"
  shows "tls_checked (lsn_TLS (max_version_option v suites s)) \<and>
    tls_Certificates (lsn_TLS (max_version_option v suites s)) = tls_Certificates (lsn_TLS s)"
proof -
  have "tls_checked ((lsn_TLS s)\<lparr>tls_MaxVersion := v\<rparr>)" if "v \<in> set SupportedTLSVersions"
    using assms(2) that by (simp add: tls_checked_def)
  then show ?thesis
    using assms cipher_suites_checked [of suites s] cipher_suites_checked [of suites "s\<lparr>lsn_TLS := (lsn_TLS s)\<lparr>tls_MaxVersion := v\<rparr>\<rparr>"]
    by (simp add: max_version_option_def split: if_splits)
qed

lemma tls_options_checked:
  assumes "lrd_Invalid (lst_Ready (lsn_Status (tls_options opts s))) = None"
    and "tls_checked (lsn_TLS s)" and "tls_CipherSuites (lsn_TLS s) = []" and "tls_MinVersion (lsn_TLS s) = ''''"
  shows "tls_checked (lsn_TLS (tls_options opts s)) \<and> tls_Certificates (lsn_TLS (tls_options opts s)) = tls_Certificates (lsn_TLS s)"
proof -
  have "tls_checked (lsn_TLS (min_version_option v v' suites s)) \<and>
      tls_Certificates (lsn_TLS (min_version_option v v' suites s)) = tls_Certificates (lsn_TLS s)"
    if inv: "lrd_Invalid (lst_Ready (lsn_Status (min_version_option v v' suites s))) = None" for v v' suites
  proof (cases "v = ''''")
    case True
    then show ?thesis
      using inv max_version_checked [of v' suites s] assms(2,4)
      by (simp add: min_version_option_def TLSVersionsWithConfigurableCipherSuites_def)
  next
    case False
    let ?s = "s\<lparr>lsn_TLS := (lsn_TLS s)\<lparr>tls_MinVersion := v\<rparr>\<rparr>"
    have v: "v \<in> set SupportedTLSVersions" "suites = '''' \<or> v \<in> set TLSVersionsWithConfigurableCipherSuites"
      and eq: "min_version_option v v' suites s = max_version_option v' suites ?s"
      using inv False by (auto simp: min_version_option_def split: if_splits)
    then have "tls_checked (lsn_TLS ?s)"
      using assms(2,3) by (simp add: tls_checked_def)
    then show ?thesis
      using max_version_checked [of v' suites ?s] inv v unfolding eq by simp
  qed
  then show ?thesis
    using assms(1) unfolding tls_options_def by blast
qed


subsection \<open>A listener that is ready\<close>

definition secret_namespace :: "Gateway \<Rightarrow> SecretObjectReference \<Rightarrow> string" where
  "secret_namespace gateway ref = (case so_Namespace ref of Some n \<Rightarrow> n | None \<Rightarrow> om_Namespace (gw_Meta gateway))"

text \<open>The certificate of a listener with a TLS section: the first secret it names, which it may use and which was found.\<close>

definition certificate_checked :: "'w Kube \<Rightarrow> Gateway \<Rightarrow> SecretObjectReference \<Rightarrow> string list \<Rightarrow> bool" where
  "certificate_checked c gateway ref certificates \<longleftrightarrow>
     so_Group ref \<in> {None, Some ''''} \<and> so_Kind ref \<in> {None, Some ''Secret''} \<and>
     (\<exists>w. fst (gatewayAllowedForSecretRef c gateway ref w) = Inr True) \<and>
     (\<exists>w cert. fst (GetSecret c \<lparr>nn_Namespace = secret_namespace gateway ref, nn_Name = so_Name ref\<rparr> w) = Inr (Some cert)) \<and>
     certificates = [K8sSecret_String (NewK8sSecret (secret_namespace gateway ref) (so_Name ref))]"

definition listener_secured :: "'w Kube \<Rightarrow> Gateway \<Rightarrow> Listener \<Rightarrow> TLSParams \<Rightarrow> bool" where
  "listener_secured c gateway l p \<longleftrightarrow>
     (case li_TLS l of
        None \<Rightarrow> li_Protocol l \<notin> {HTTPSProtocolType, TLSProtocolType} \<and> p = zero_TLSParams
      | Some t \<Rightarrow> gt_Mode t \<noteq> Some ''Passthrough'' \<and> tls_checked p \<and>
          (\<exists>ref refs. gt_CertificateRefs t = ref # refs \<and> certificate_checked c gateway ref (tls_Certificates p)))"

lemma resolved_certificate:
  assumes "resolveCertificateReference c gateway ref w = (Inr resource, w')"
    and "fst (gatewayAllowedForSecretRef c gateway ref w0) = Inr True"
  shows "certificate_checked c gateway ref [resource]"
proof -
  let ?group = "case so_Group ref of Some grp \<Rightarrow> grp | None \<Rightarrow> ''''" and ?kind = "case so_Kind ref of Some k \<Rightarrow> k | None \<Rightarrow> ''Secret''"
  let ?name = "\<lparr>nn_Namespace = secret_namespace gateway ref, nn_Name = so_Name ref\<rparr>"
  have k: "?kind = ''Secret'' \<and> ?group = ''''"
  proof (rule ccontr)
    assume n: "\<not> ?thesis"
    show False
      using assms(1) unfolding resolveCertificateReference_def Let_def if_not_P [OF n] by simp
  qed
  then have run: "(case GetSecret c ?name w of
        (Inl err, w') \<Rightarrow> (Inl (OtherCertificateError (''error fetching secret: '' @ err)), w')
      | (Inr None, w') \<Rightarrow> (Inl (Certificate (NewCertificateResolutionErrorNotFound ''certificate not found'')), w')
      | (Inr (Some cert), w') \<Rightarrow> (Inr (K8sSecret_String (NewK8sSecret (secret_namespace gateway ref) (so_Name ref))), w')) = (Inr resource, w')"
    using assms(1) unfolding resolveCertificateReference_def Let_def secret_namespace_def by simp
  then have "\<exists>cert. GetSecret c ?name w = (Inr (Some cert), w')"
    and res: "resource = K8sSecret_String (NewK8sSecret (secret_namespace gateway ref) (so_Name ref))"
    by (simp_all split: prod.split_asm sum.split_asm option.split_asm)
  then have "\<exists>w cert. fst (GetSecret c ?name w) = Inr (Some cert)"
    by (metis fst_conv)
  moreover have "so_Group ref \<in> {None, Some ''''}" "so_Kind ref \<in> {None, Some ''Secret''}"
    using k by (simp_all split: option.split_asm)
  ultimately show ?thesis
    using assms(2) res unfolding certificate_checked_def by blast
qed


lemma validateTLS_secured:
  assumes "validateTLS g s gateway l w = (Inr s', w')" and "lsn_TLS s = zero_TLSParams"
    and "lrd_Invalid (lst_Ready (lsn_Status s')) = None" and "\<not> ListenerResolvedRefsStatus_HasError (lst_ResolvedRefs (lsn_Status s'))"
  shows "listener_secured (gv_client g) gateway l (lsn_TLS s')"
proof (cases "li_TLS l")
  case None
  then have "\<not> snd (ProtocolToConsul (li_Protocol l))" "s' = s"
    using assms(1,3) by (auto simp: validateTLS_def split: if_splits)
  then show ?thesis
    using None assms(2) by (auto simp: listener_secured_def ProtocolToConsul_def)
next
  case (Some t)
  have mode: "gt_Mode t \<noteq> Some ''Passthrough''"
    using assms(1,3) Some by (auto simp: validateTLS_def)
  obtain ref refs where refs: "gt_CertificateRefs t = ref # refs"
    using assms(1,4) Some mode by (cases "gt_CertificateRefs t") (auto simp: validateTLS_def ListenerResolvedRefsStatus_HasError_def)
  obtain w1 where allowed: "gatewayAllowedForSecretRef (gv_client g) gateway ref w = (Inr True, w1)"
    using assms(1,4) by (cases "gatewayAllowedForSecretRef (gv_client g) gateway ref w")
      (auto simp: validateTLS_def Some mode refs ListenerResolvedRefsStatus_HasError_def split: sum.splits bool.splits)
  obtain resource where r: "resolveCertificateReference (gv_client g) gateway ref w1 = (Inr resource, w')"
    and s': "s' = tls_options (gt_Options t) (s\<lparr>lsn_TLS := (lsn_TLS s)\<lparr>tls_Certificates := [resource]\<rparr>\<rparr>)"
    using assms(1,4) by (cases "resolveCertificateReference (gv_client g) gateway ref w1")
      (auto simp: validateTLS_def Some mode refs allowed ListenerResolvedRefsStatus_HasError_def split: sum.splits certificate_failure.splits)
  have "tls_checked (lsn_TLS s') \<and> tls_Certificates (lsn_TLS s') = [resource]"
    using tls_options_checked [of "gt_Options t" "s\<lparr>lsn_TLS := (lsn_TLS s)\<lparr>tls_Certificates := [resource]\<rparr>\<rparr>"] assms(2,3)
    unfolding s' by (simp add: zero_TLSParams_def tls_checked_def)
  moreover have "certificate_checked (gv_client g) gateway ref [resource]"
    by (rule resolved_certificate [OF r, of w]) (simp add: allowed)
  ultimately show ?thesis
    using Some mode refs by (simp add: listener_secured_def)
qed

lemma validate_listener_ready:
  assumes "validate_listener g s gateway l w = (Inr s', w')" and "lsn_TLS s = zero_TLSParams"
    and "\<not> ListenerReadyStatus_HasError (lst_Ready (lsn_Status s'))"
  shows "ListenerStatus_Valid (lsn_Status s') \<and> listener_secured (gv_client g) gateway l (lsn_TLS s') \<and>
    gw_Addresses gateway = [] \<and> SupportedKindsFor (li_Protocol l) \<noteq> None"
proof -
  let ?u = "validateUnsupported s gateway" and ?p = "validateProtocols g (validateUnsupported s gateway) l"
  have inv: "lrd_Invalid (lst_Ready (lsn_Status s')) = None"
    using assms(3) by (simp add: ListenerReadyStatus_HasError_def)
  obtain s1 where v: "validateTLS g ?p gateway l w = (Inr s1, w')" and eq: "s' = s1" and valid: "ListenerStatus_Valid (lsn_Status s1)"
    using assms(1) inv by (auto simp: validate_listener_def split: prod.splits sum.splits if_splits)
  have tls: "lsn_TLS ?p = zero_TLSParams"
    using assms(2) by (simp add: validateProtocols_def validateUnsupported_def Let_def split: option.split)
  have "lst_Detached (lsn_Status ?p) = lst_Detached (lsn_Status s1)"
    using validateTLS_status [OF v] by simp
  then have det: "\<not> ListenerDetachedStatus_HasError (lst_Detached (lsn_Status ?p))"
    using valid by (auto simp: ListenerStatus_Valid_def split: if_splits)
  have "SupportedKindsFor (li_Protocol l) \<noteq> None"
    using det by (auto simp: validateProtocols_def Let_def ListenerDetachedStatus_HasError_def split: option.splits if_splits)
  moreover have "ldt_UnsupportedAddress (lst_Detached (lsn_Status ?p)) = ldt_UnsupportedAddress (lst_Detached (lsn_Status ?u))"
    by (simp add: validateProtocols_def Let_def split: option.split)
  with det have "gw_Addresses gateway = []"
    by (auto simp: validateUnsupported_def ListenerDetachedStatus_HasError_def split: if_splits)
  moreover have "\<not> ListenerResolvedRefsStatus_HasError (lst_ResolvedRefs (lsn_Status s1))"
    using valid by (auto simp: ListenerStatus_Valid_def split: if_splits)
  then have "listener_secured (gv_client g) gateway l (lsn_TLS s1)"
    using validateTLS_secured [OF v tls] inv unfolding eq by simp
  ultimately show ?thesis
    using valid unfolding eq by simp
qed

text \<open>C18: what a ready listener was checked for. Routes are bound only to listeners whose ready status has no error. Such a
  listener has a supported protocol, its port is not used with another protocol or another hostname, the gateway asks
  for no addresses, and it is secured: an HTTPS listener has a TLS section; a TLS section is not a pass-through one, its TLS versions and cipher suites are supported,
  and its certificate is the first secret it names, which exists and which the gateway may use.\<close>

theorem ready_listener_sound:
  assumes "GatewayValidator_Validate po so g gateway service w = Some (Inr state, w')" and "i < length (gw_Listeners gateway)"
    and "\<not> ListenerReadyStatus_HasError (lst_Ready (lsn_Status (gts_Listeners state ! i)))"
  shows "SupportedKindsFor (li_Protocol (gw_Listeners gateway ! i)) \<noteq> None \<and> gw_Addresses gateway = [] \<and>
    \<not> protocols_differ (li_Port (gw_Listeners gateway ! i)) (gw_Listeners gateway) \<and>
    \<not> hostnames_differ (li_Port (gw_Listeners gateway ! i)) (gw_Listeners gateway) \<and>
    listener_secured (gv_client g) gateway (gw_Listeners gateway ! i) (lsn_TLS (gts_Listeners state ! i))"
proof -
  obtain s w1 w2 where a: "after_conflicts (gw_Listeners gateway) (gw_Listeners gateway ! i) s"
    and v: "validate_listener g s gateway (gw_Listeners gateway ! i) w1 = (Inr (gts_Listeners state ! i), w2)"
    using Validate_listeners [OF assms(1)] assms(2) by blast
  have "lsn_TLS s = zero_TLSParams"
    using a unfolding after_conflicts_def by (metis ListenerState.select_convs(4))
  note ready = validate_listener_ready [OF v this assms(3)]
  have "\<not> ListenerConflictedStatus_HasError (conflicted (gts_Listeners state ! i))"
    using ready by (auto simp: ListenerStatus_Valid_def split: if_splits)
  then show ?thesis
    using a ready validate_listener_conflicted [OF v] by (auto simp: after_conflicts_def ListenerConflictedStatus_HasError_def)
qed


definition https_listener :: Listener where
  "https_listener = (named_listener ''secure'' 443)\<lparr>li_Protocol := HTTPSProtocolType, li_TLS := Some \<lparr>gt_Mode = None,
     gt_CertificateRefs = [\<lparr>so_Group = None, so_Kind = None, so_Name = ''cert'', so_Namespace = None\<rparr>], gt_Options = []\<rparr>\<rparr>"

definition https_gateway :: Gateway where
  "https_gateway = two_listeners\<lparr>gw_Listeners := [https_listener]\<rparr>"

definition cert_cluster :: "nat GatewayValidator" where
  "cert_cluster = \<lparr>gv_client = empty_cluster\<lparr>k_GetSecret := (\<lambda>n w. (Inr \<lparr>sec_Meta = new_meta (nn_Name n) (nn_Namespace n) [], sec_Data = []\<rparr>, w))\<rparr>,
     gv_kinds_text = (\<lambda>_. '''')\<rparr>"

lemmas validator_defs = GatewayValidator_Validate_def validateListenerConflicts_def mergeListenersByPort_def merge_listener_def
  InitialGatewayState_def validatePods_def PodsWithLabels_def validateGatewayIP_def assignGatewayIPFromPods_def validateListeners_def
  validate_addresses_def validate_listener_def validateUnsupported_def validateProtocols_def validateTLS_def gatewayAllowedForSecretRef_def
  referenceAllowed_def resolveCertificateReference_def GetSecret_def optional_def tls_options_def min_version_option_def
  max_version_option_def cipher_suites_option_def kindsNotInSet_def SupportedKindsFor_def supportedKindsForProtocol_def get_string_def

lemma https_validated:
  "\<exists>state. GatewayValidator_Validate po so cert_cluster https_gateway None 0 = Some (Inr state, 0) \<and>
     \<not> ListenerReadyStatus_HasError (lst_Ready (lsn_Status (gts_Listeners state ! 0)))"
  by (simp add: validator_defs https_gateway_def https_listener_def cert_cluster_def two_listeners_def named_listener_def empty_cluster_def
      ListenerStatus_Valid_def zero_ListenerStatus_def zero_ListenerConflictedStatus_def zero_ListenerDetachedStatus_def
      zero_ListenerReadyStatus_def zero_ListenerResolvedRefsStatus_def ListenerConflictedStatus_HasError_def
      ListenerDetachedStatus_HasError_def ListenerResolvedRefsStatus_HasError_def ListenerReadyStatus_HasError_def Let_def)

theorem ready_listener_sound_witness:
  "\<exists>state. GatewayValidator_Validate id rev cert_cluster https_gateway None 0 = Some (Inr state, 0) \<and>
     listener_secured (gv_client cert_cluster) https_gateway https_listener (lsn_TLS (gts_Listeners state ! 0))"
proof -
  obtain state where v: "GatewayValidator_Validate id rev cert_cluster https_gateway None 0 = Some (Inr state, 0)"
    and r: "\<not> ListenerReadyStatus_HasError (lst_Ready (lsn_Status (gts_Listeners state ! 0)))"
    using https_validated [of id rev] by (elim exE conjE)
  have l: "gw_Listeners https_gateway = [https_listener]"
    by (simp add: https_gateway_def)
  have s: "listener_secured (gv_client cert_cluster) https_gateway https_listener (lsn_TLS (gts_Listeners state ! 0))"
    using ready_listener_sound [OF v _ r] unfolding l by simp
  show ?thesis
    by (intro exI conjI) (fact v, fact s)
qed

end
