(* ===== verification/Spec2Isabelle.thy ===== *)
theory Spec2Isabelle
  imports Discovery_Chain Intentions Sync_Adapter Backend_Resolver Gateway_Builder Gateway_Validator
begin

text \<open>
  A verification library for Consul API Gateway, the controller under \<open>src/\<close> that turns the gateways and routes of the
  Kubernetes Gateway API into configuration entries and intentions of Consul.

  \<^bold>\<open>The program.\<close> A controller watches Kubernetes objects. A gateway is validated (\<open>reconciler/validator\<close>), a route's backends are
  resolved to Consul services (\<open>k8s/service\<close>), routes are bound to the listeners that admit them (\<open>reconciler/binder.go\<close>), and the outcome is
  written into the objects' statuses (\<open>reconciler/status\<close>). The gateway with its routes is converted (\<open>reconciler/converter\<close>) into the resolved
  form of \<open>internal/core\<close>, from which the sync adapter (\<open>adapters/consul\<close>) computes and writes Consul's entries, while a background
  reconciler (\<open>internal/consul/intentions.go\<close>) keeps the intentions of the services behind the gateway. The deployment of a gateway is built and
  merged into the cluster by \<open>k8s/builder\<close>, \<open>pkg/apis\<close> and \<open>k8s/gatewayclient\<close>.

  \<^bold>\<open>Conventions.\<close> A struct is a \<open>record\<close> with a short prefix per type, an interface or an enumeration a \<open>datatype\<close>, a pointer an \<open>option\<close>. A Go map is an
  association list with distinct keys. Go leaves the order in which it ranges over a map open: where a result depends on it, the order is an argument (\<open>go_range\<close>; \<open>host_order\<close>,
  \<open>port_order\<close> and \<open>set_order\<close> are such arguments), and the properties hold for every order. A Go \<open>error\<close> is an optional text, a result with an error a
  sum with the error on the left. A nil pointer that is read and an index out of range give \<^const>\<open>None\<close> in functions that can reach one; so does a filter of a route that lacks the settings
  for its type when it is converted.
  \<open>int32\<close> and \<open>uint32\<close> are 32 bit words, \<open>float32\<close> is written out as sign, exponent and significand. Consul, Kubernetes, the retry library and the serializers of
  the Kubernetes libraries are arguments: records of functions on an arbitrary world that they read and change. What a proof needs of them is a named
  predicate (\<open>config_laws\<close>, \<open>retry_laws\<close>, \<open>faultless_consul\<close>, \<open>backoff_laws\<close>, \<open>texts_laws\<close>, \<open>reads_namespaces\<close>), and a concrete instance shows that it can hold.
  The contract that all generated statuses share is the locale \<open>status_condition\<close> of \<open>Status_Conditions\<close>, interpreted on each of them.
  Logging, tracing, metrics and contexts are left out.

  \<^bold>\<open>Theories, from the bottom.\<close>
  \<^item> \<open>Go_Prelude\<close>: maps, strings, numbers as text, stable sorting, and the lemma collections the other theories use. \<open>Service_Names\<close>, \<open>Float32\<close> and \<open>JSON_Text\<close> hold
    \<open>common/service_names.go\<close> and \<open>common/tls.go\<close>, the arithmetic of split weights, and the JSON of string maps.
  \<^item> \<open>Core_Model\<close>: \<open>internal/core\<close>, the resolved gateways, listeners and routes. \<open>Consul_API\<close>: the entries and the interface of the Consul client, as records of functions. \<open>Config_Entries\<close>:
    the index of entries.
  \<^item> \<open>HTTP_Discovery\<close>, \<open>Discovery_Chain\<close>: \<open>adapters/consul/http.go\<close> and the pure part of \<open>sync.go\<close>, from a gateway to its router, splitter, defaults and ingress entries.
    \<open>Sync_Adapter\<close>: the adapter's state, \<open>Sync\<close> and \<open>Clear\<close> with every error path.
  \<^item> \<open>Intentions\<close>: the intentions reconciler with its watchers; its loops and their interleaving are a step relation.
  \<^item> \<open>Status_Conditions\<close>: \<open>reconciler/status/zz_generated_status.go\<close>, the statuses with their conditions and stored form. \<open>Route_State\<close>: the statuses of a route per parent and
    their merging.
  \<^item> \<open>Gateway_API\<close>, \<open>K8s_Objects\<close>, \<open>K8s_Client\<close>: the Kubernetes objects, the merges of \<open>pkg/apis/v1alpha1\<close>, the client of \<open>gatewayclient.go\<close>. \<open>Gateway_Builder\<close>: the service and the
    deployment of a gateway.
  \<^item> \<open>Backend_Resolver\<close>: \<open>k8s/service\<close>. \<open>Route_Converter\<close>: \<open>reconciler/converter\<close>. \<open>Gateway_Binder\<close>: gateways, routes, \<open>Bind\<close> and \<open>Unbind\<close>. \<open>Secret_URL\<close>: \<open>k8s/utils/secrets.go\<close>.
    \<open>Route_Validator\<close>, \<open>Gateway_Validator\<close>: \<open>reconciler/validator\<close>.

  \<^bold>\<open>What is shown.\<close> The computed entries are consistent (the services of the ingress with hosts have routers, routers and splitters have defaults), the weights of a splitter add up, routes,
  destinations and listeners are exactly those of the gateway, and rules are ordered by precedence. \<open>Sync\<close> leaves exactly these entries and \<open>Clear\<close> undoes it; \<open>Sync\<close> sets service
  defaults, routers and splitters first, then the ingress entry, then removes what is no longer needed, and goes from one phase to the next only when every call was accepted.
  The intentions reconciler keeps its invariant in every interleaving, and its retries are bounded. References resolve only to services Consul lists; a validated route is converted without a
  nil pointer when its filters have their settings; a reference into another namespace needs a grant; a listener that routes may be bound to was checked; \<open>Bind\<close> binds exactly what is
  admitted and \<open>Unbind\<close> removes exactly that. Statuses report the first error in the order of precedence, survive storage, and settle. Merged and built objects fit together. The remaining
  properties prove findings: routers shared by listeners or by colliding hostnames, entries and targets that are left behind, messages lost in storage, and two nil pointers.

  \<^bold>\<open>Bounds.\<close> Loops over data are structural recursion. The retry loops are bounded by their number of attempts, as in the code. No other fuel is used.

  \<^bold>\<open>Not modelled.\<close>
  \<^item> The store (\<open>internal/store\<close>, \<open>reconciler/marshaler.go\<close>): gateways and routes behind a mutex and a backend that serializes them. It calls the binder, the adapter and the status
    updates; its locks and goroutines, and so the order of these calls, are outside the model.
  \<^item> The reconcile manager, the deployer and the status updater (\<open>reconciler/manager.go\<close>, \<open>deployer.go\<close>, \<open>gatewayclass.go\<close>, \<open>statuses.go\<close>) and the controllers (\<open>k8s/controllers\<close>): they
    move objects between the Kubernetes client, the validators, the builders and the store, driven by the queues of \<open>controller-runtime\<close>.
  \<^item> The secret discovery server (\<open>internal/envoy\<close>, \<open>k8s/certificates.go\<close>): a gRPC stream over an external cache.
  \<^item> Connections, login, leaf certificates and registration with Consul (the other files of \<open>internal/consul\<close>) and Vault (\<open>internal/vault\<close>): network requests and timers.
  \<^item> Command line, logging, metrics, profiling and the wiring of the processes (\<open>internal/commands\<close>, \<open>internal/metrics\<close>, \<open>internal/profiling\<close>, \<open>internal/grpc\<close>, \<open>main.go\<close>): input and
    output without state of their own.
  \<^item> The generators of the generated files, which run at build time, and generated deep copies, which are the identity on values.
\<close>

end
